(* ===== verification/Prelude.thy ===== *)
theory Prelude
  imports Complex_Main "HOL-Library.Word" "HOL-Library.State_Monad" "HOL-Library.Multiset"
begin

text \<open>
  Generic ground of the development: names for the C types, the collections of
  rewrite rules the component proofs use, facts about running a computation of
  \<^theory_text>\<open>State_Monad\<close>, and lemmas on lists and words that several
  components share. Nothing here speaks about the program itself.
\<close>

named_theorems run_simps \<open>unfolding the operations of the program\<close>
named_theorems fd_simps \<open>how events change the multiset of open descriptors\<close>

type_synonym u8 = "8 word"
type_synonym u32 = "32 word"
type_synonym u64 = "64 word"
type_synonym int16 = "16 word"
type_synonym int32 = "32 word"

text \<open>
  A C \<open>char\<close> is a HOL \<^typ>\<open>char\<close> (both are one byte), so a byte buffer is a
  \<^typ>\<open>string\<close>. The content of a buffer as a C string ends before the first NUL.
\<close>

abbreviation NUL :: char where "NUL \<equiv> CHR 0x00"
abbreviation NL :: char where "NL \<equiv> CHR 0x0A"
abbreviation CR :: char where "CR \<equiv> CHR 0x0D"

abbreviation ret :: "'a \<Rightarrow> ('s, 'a) state" where
  "ret \<equiv> State_Monad.return"

abbreviation modify :: "('s \<Rightarrow> 's) \<Rightarrow> ('s, unit) state" where
  "modify f \<equiv> State_Monad.update f"

abbreviation gets :: "('s \<Rightarrow> 'a) \<Rightarrow> ('s, 'a) state" where
  "gets f \<equiv> State_Monad.bind State_Monad.get (\<lambda>s. State_Monad.return (f s))"

subsection \<open>Running computations\<close>

abbreviation exec :: "('s, 'a) state \<Rightarrow> 's \<Rightarrow> 's" where
  "exec m s \<equiv> snd (run_state m s)"

abbreviation result :: "('s, 'a) state \<Rightarrow> 's \<Rightarrow> 'a" where
  "result m s \<equiv> fst (run_state m s)"

lemma run_state_update [simp]: "run_state (modify f) s = ((), f s)"
  by (simp add: State_Monad.update_def)

lemma run_state_if:
  "run_state (if b then m else n) s = (if b then run_state m s else run_state n s)"
  by simp

lemma exec_bind: "exec (State_Monad.bind m f) s = exec (f (result m s)) (exec m s)"
  by (simp add: split_beta)

lemma result_bind: "result (State_Monad.bind m f) s = result (f (result m s)) (exec m s)"
  by (simp add: split_beta)

declare Let_def [run_simps]

text \<open>A relation between states that every part of a computation respects.\<close>

definition preserves :: "('s \<Rightarrow> 's \<Rightarrow> bool) \<Rightarrow> ('s, 'a) state \<Rightarrow> bool" where
  "preserves R m \<longleftrightarrow> (\<forall>s. R s (exec m s))"

lemma preservesI: "(\<And>s. R s (exec m s)) \<Longrightarrow> preserves R m"
  by (simp add: preserves_def)

lemma preservesD: "preserves R m \<Longrightarrow> R s (exec m s)"
  by (simp add: preserves_def)

text \<open>
  Frames: a reflexive and transitive relation between the states before and after is respected
  by a composed operation if its parts respect it.
\<close>

locale frame_rel =
  fixes R :: "'s \<Rightarrow> 's \<Rightarrow> bool"
  assumes same: "R s s" and chain: "R s t \<Longrightarrow> R t u \<Longrightarrow> R s u"
begin

lemma basic: "preserves R (ret x)" "preserves R State_Monad.get"
  by (simp_all add: preserves_def same)

lemma bind: "preserves R m \<Longrightarrow> (\<And>x. preserves R (f x)) \<Longrightarrow> preserves R (State_Monad.bind m f)"
  unfolding preserves_def exec_bind using chain by blast

lemma branch:
  "preserves R m \<Longrightarrow> preserves R n \<Longrightarrow> preserves R (if b then m else n)"
  "preserves R m \<Longrightarrow> (\<And>x. preserves R (f x)) \<Longrightarrow> preserves R (case v of None \<Rightarrow> m | Some x \<Rightarrow> f x)"
  "(\<And>x y. preserves R (g x y)) \<Longrightarrow> preserves R (case p of (x, y) \<Rightarrow> g x y)"
  "(\<And>z. preserves R (h z)) \<Longrightarrow> preserves R (Let w h)"
  by (simp_all split: option.split prod.split)

lemma update: "(\<And>s. R s (f s)) \<Longrightarrow> preserves R (modify f)"
  by (simp add: preserves_def)

lemmas rules = basic bind branch

end

subsection \<open>Lists\<close>

lemma takeWhile_eq_take_length: "take (length (takeWhile P xs)) xs = takeWhile P xs"
  by (metis takeWhile_eq_take)

lemma drop_length_takeWhile: "drop (length (takeWhile P xs)) xs = dropWhile P xs"
  by (metis dropWhile_eq_drop)

lemma takeWhile_append_stop [simp]:
  "\<not> P x \<Longrightarrow> takeWhile P (xs @ x # ys) = takeWhile P xs"
  by (induction xs) auto

lemma take_takeWhile: "i \<le> length (takeWhile P xs) \<Longrightarrow> take i (takeWhile P xs) = take i xs"
proof (induction xs arbitrary: i)
  case Nil
  then show ?case by simp
next
  case (Cons x xs)
  then show ?case by (cases i) (auto split: if_splits)
qed

end
