(* ===== verification/Kernel.thy ===== *)
theory Kernel
  imports Prelude
begin

text \<open>
  The boundary of the program: the system calls and the calls into libraries that are not
  part of the repository. Every such call is an \<open>event\<close> that records the arguments the
  program passes and the answer it gets. The answers come from a \<open>kernel\<close>, a record of
  functions that is a parameter of every operation: each function may look at the whole
  history of calls so far, so any behaviour of the operating system, failures included,
  is some \<open>kernel\<close>. What the program relies on is stated as named conditions on it
  (\<open>read_contract\<close>, \<open>linux_uapi\<close>).

  The state of the program is a record that extends \<open>world\<close>: the history \<open>trace\<close> and
  \<open>fault\<close>, the first undefined behaviour of C the execution has reached (an overrun
  buffer, a read of uninitialised memory). What a run does after a fault carries no
  meaning; the properties say that \<open>fault\<close> stays \<open>None\<close>, or when it does not.
  Diagnostics written to stdout and stderr are left out.
\<close>

subsection \<open>Events\<close>

datatype oflag = O_RDONLY | O_WRONLY | O_RDWR | O_CLOEXEC | O_NOCTTY

text \<open>Sockets; threads of the host interface and the example; the sound libraries.\<close>

datatype net_event =
    Net_socket int
  | Net_reuseaddr int
  | Net_bind int nat                           \<comment> \<open>socket, port\<close>
  | Net_listen int
  | Net_accept int int                         \<comment> \<open>socket, returned\<close>

datatype thread =
    Thread_log | Thread_cmd | Thread_audio
  | Thread_wait_log | Thread_wait_cmd | Thread_wait_indata | Thread_wait_outdata

datatype audio_event =
    Sf_open string "(int \<times> int) option"       \<comment> \<open>path, channels and sample rate\<close>
  | Sf_readf nat int                           \<comment> \<open>frames asked for, frames read\<close>
  | Sf_close
  | Pcm_open string int                        \<comment> \<open>device, returned\<close>
  | Pcm_set_params nat nat int                 \<comment> \<open>channels, sample rate, returned\<close>
  | Pcm_writei "int16 list" int                \<comment> \<open>samples, frames\<close>
  | Pcm_close
  | Clock_gettime int int                      \<comment> \<open>seconds, nanoseconds\<close>

text \<open>The settings of a serial line, as far as the program changes them.\<close>

datatype termios = Termios
  (c_cflag: u32) (c_lflag: u32) (c_oflag: u32) (c_ospeed: nat) (c_ispeed: nat) (c_vmin: nat)

datatype event =
    Ev_open string "oflag list" int            \<comment> \<open>path, flags, descriptor or -1\<close>
  | Ev_close int
  | Ev_read int nat int string                 \<comment> \<open>descriptor, count, returned, bytes\<close>
  | Ev_write int string int                    \<comment> \<open>descriptor, bytes, returned\<close>
  | Ev_unlink string int
  | Ev_symlink string string int               \<comment> \<open>target, link path, returned\<close>
  | Ev_heap_alloc int u64 "oflag list" int u32 \<comment> \<open>heap, length, flags, returned, descriptor\<close>
  | Ev_dma_attach int u32 int u64              \<comment> \<open>rproc, buffer, returned, device address\<close>
  | Ev_dma_sync int u64 int                    \<comment> \<open>descriptor, flags, returned\<close>
  | Ev_mmap u64 int u64                        \<comment> \<open>length, descriptor, address\<close>
  | Ev_munmap u64 u64                          \<comment> \<open>address, length\<close>
  | Ev_fopen_r string "string option"          \<comment> \<open>path, the bytes of the file\<close>
  | Ev_fclose string
  | Ev_lock                                    \<comment> \<open>\<open>pthread_mutex_lock(&log_mutex)\<close>\<close>
  | Ev_unlock
  | Ev_cond_signal
  | Ev_cond_wait
  | Ev_dprintf int string                      \<comment> \<open>descriptor, text\<close>
  | Ev_fprintf string int                      \<comment> \<open>file, number printed on a line\<close>
  | Ev_send int string int                     \<comment> \<open>socket, bytes, returned\<close>
  | Ev_select int int int int                  \<comment> \<open>descriptor, timeout, returned, time left\<close>
  | Ev_fopen_w string bool                     \<comment> \<open>path, whether it succeeded\<close>
  | Ev_tcgetattr int "termios option"          \<comment> \<open>descriptor, the settings unless it failed\<close>
  | Ev_tcsetattr int termios
  | Ev_thread thread int                       \<comment> \<open>\<open>pthread_create\<close>, returned\<close>
  | Ev_net net_event
  | Ev_audio audio_event
  | Ev_sleep nat
  | Ev_rpmsg_init int
  | Ev_rpmsg_open int int string "(int \<times> int) option" \<comment> \<open>processor, endpoint, name, (fd, port)\<close>

datatype ub =
    Buffer_overflow | Out_of_bounds_read | Uninitialised_read
  | Double_free | Invalid_pointer | Conversion_overflow | Signed_overflow

record kernel =
  k_open :: "event list \<Rightarrow> string \<Rightarrow> oflag list \<Rightarrow> int"
  k_read :: "event list \<Rightarrow> int \<Rightarrow> nat \<Rightarrow> int \<times> string"
  k_write :: "event list \<Rightarrow> int \<Rightarrow> string \<Rightarrow> int"
  k_unlink :: "event list \<Rightarrow> string \<Rightarrow> int"
  k_symlink :: "event list \<Rightarrow> string \<Rightarrow> string \<Rightarrow> int"
  k_heap_alloc :: "event list \<Rightarrow> int \<Rightarrow> u64 \<Rightarrow> oflag list \<Rightarrow> int \<times> u32"
  k_dma_attach :: "event list \<Rightarrow> int \<Rightarrow> u32 \<Rightarrow> int \<times> u64"
  k_dma_sync :: "event list \<Rightarrow> int \<Rightarrow> u64 \<Rightarrow> int"
  k_mmap :: "event list \<Rightarrow> u64 \<Rightarrow> int \<Rightarrow> u64"
  k_rpmsg_init :: "event list \<Rightarrow> int"
  k_rpmsg_open :: "event list \<Rightarrow> int \<Rightarrow> int \<Rightarrow> string \<Rightarrow> (int \<times> int) option"
  k_send :: "event list \<Rightarrow> int \<Rightarrow> string \<Rightarrow> int"
  k_select :: "event list \<Rightarrow> int \<Rightarrow> int \<Rightarrow> int \<times> int"
  k_fopen_w :: "event list \<Rightarrow> string \<Rightarrow> bool"
  k_socket :: "event list \<Rightarrow> int"
  k_accept :: "event list \<Rightarrow> int \<Rightarrow> int"
  k_thread :: "event list \<Rightarrow> thread \<Rightarrow> int"
  k_tcgetattr :: "event list \<Rightarrow> int \<Rightarrow> termios option"
  k_getpid :: int
  k_fopen_r :: "event list \<Rightarrow> string \<Rightarrow> string option"
  k_malloc_ok :: "nat \<Rightarrow> nat \<Rightarrow> bool"  \<comment> \<open>blocks allocated so far, size asked for\<close>
  DMA_BUF_SYNC_RW :: int     \<comment> \<open>constants of \<^verbatim>\<open>linux/dma-buf.h\<close>\<close>
  DMA_BUF_SYNC_START :: int
  DMA_BUF_SYNC_END :: int
  EPERM :: int               \<comment> \<open>from \<^verbatim>\<open>errno.h\<close>\<close>

record world =
  trace :: "event list"
  fault :: "ub option"

subsection \<open>Documented behaviour of the boundary\<close>

text \<open>\<open>read(2)\<close> returns -1 or the number of bytes stored, at most the count asked for.\<close>

definition read_contract :: "kernel \<Rightarrow> bool" where
  "read_contract K \<longleftrightarrow>
     (\<forall>tr fd n r bs. k_read K tr fd n = (r, bs) \<longrightarrow> r < 0 \<or> r = int (length bs) \<and> length bs \<le> n)"

text \<open>The constants of the Linux user-space interface the code is compiled against.\<close>

definition linux_uapi :: "kernel \<Rightarrow> bool" where
  "linux_uapi K \<longleftrightarrow> DMA_BUF_SYNC_RW K = 3 \<and> DMA_BUF_SYNC_START K = 0 \<and> DMA_BUF_SYNC_END K = 4 \<and> EPERM K = 1"

lemma read_contractD:
  "read_contract K \<Longrightarrow> k_read K tr fd n = (r, bs) \<Longrightarrow> 0 \<le> r \<Longrightarrow> nat r = length bs \<and> length bs \<le> n"
  by (fastforce simp: read_contract_def)

subsection \<open>Calls\<close>

definition emit :: "event \<Rightarrow> ('w world_scheme, unit) state" where
  "emit e = modify (\<lambda>s. s\<lparr>trace := trace s @ [e]\<rparr>)"

definition raise_ub :: "ub \<Rightarrow> ('w world_scheme, unit) state" where
  "raise_ub u = modify (\<lambda>s. if fault s = None then s\<lparr>fault := Some u\<rparr> else s)"

definition check_ub :: "bool \<Rightarrow> ub \<Rightarrow> ('w world_scheme, unit) state" where
  "check_ub ok u = (if ok then ret () else raise_ub u)"

definition sys_open :: "kernel \<Rightarrow> string \<Rightarrow> oflag list \<Rightarrow> ('w world_scheme, int) state" where
  "sys_open K path flags = do {
     r \<leftarrow> gets (\<lambda>s. k_open K (trace s) path flags);
     emit (Ev_open path flags r);
     ret r }"

definition sys_close :: "int \<Rightarrow> ('w world_scheme, unit) state" where
  "sys_close fd = emit (Ev_close fd)"

definition sys_read :: "kernel \<Rightarrow> int \<Rightarrow> nat \<Rightarrow> ('w world_scheme, int \<times> string) state" where
  "sys_read K fd n = do {
     a \<leftarrow> gets (\<lambda>s. k_read K (trace s) fd n);
     emit (Ev_read fd n (fst a) (snd a));
     ret a }"

definition sys_write :: "kernel \<Rightarrow> int \<Rightarrow> string \<Rightarrow> ('w world_scheme, int) state" where
  "sys_write K fd bs = do {
     r \<leftarrow> gets (\<lambda>s. k_write K (trace s) fd bs);
     emit (Ev_write fd bs r);
     ret r }"

definition sys_unlink :: "kernel \<Rightarrow> string \<Rightarrow> ('w world_scheme, int) state" where
  "sys_unlink K path = do {
     r \<leftarrow> gets (\<lambda>s. k_unlink K (trace s) path);
     emit (Ev_unlink path r);
     ret r }"

definition sys_symlink :: "kernel \<Rightarrow> string \<Rightarrow> string \<Rightarrow> ('w world_scheme, int) state" where
  "sys_symlink K target path = do {
     r \<leftarrow> gets (\<lambda>s. k_symlink K (trace s) target path);
     emit (Ev_symlink target path r);
     ret r }"

definition ioctl_heap_alloc ::
  "kernel \<Rightarrow> int \<Rightarrow> u64 \<Rightarrow> oflag list \<Rightarrow> ('w world_scheme, int \<times> u32) state" where
  "ioctl_heap_alloc K fd len flags = do {
     a \<leftarrow> gets (\<lambda>s. k_heap_alloc K (trace s) fd len flags);
     emit (Ev_heap_alloc fd len flags (fst a) (snd a));
     ret a }"

definition ioctl_dma_attach ::
  "kernel \<Rightarrow> int \<Rightarrow> u32 \<Rightarrow> ('w world_scheme, int \<times> u64) state" where
  "ioctl_dma_attach K fd bfd = do {
     a \<leftarrow> gets (\<lambda>s. k_dma_attach K (trace s) fd bfd);
     emit (Ev_dma_attach fd bfd (fst a) (snd a));
     ret a }"

definition ioctl_dma_sync :: "kernel \<Rightarrow> int \<Rightarrow> u64 \<Rightarrow> ('w world_scheme, int) state" where
  "ioctl_dma_sync K fd flags = do {
     r \<leftarrow> gets (\<lambda>s. k_dma_sync K (trace s) fd flags);
     emit (Ev_dma_sync fd flags r);
     ret r }"

definition sys_mmap :: "kernel \<Rightarrow> u64 \<Rightarrow> int \<Rightarrow> ('w world_scheme, u64) state" where
  "sys_mmap K len fd = do {
     a \<leftarrow> gets (\<lambda>s. k_mmap K (trace s) len fd);
     emit (Ev_mmap len fd a);
     ret a }"

definition sys_munmap :: "u64 \<Rightarrow> u64 \<Rightarrow> ('w world_scheme, unit) state" where
  "sys_munmap addr len = emit (Ev_munmap addr len)"

definition fopen_r :: "kernel \<Rightarrow> string \<Rightarrow> ('w world_scheme, string option) state" where
  "fopen_r K path = do {
     r \<leftarrow> gets (\<lambda>s. k_fopen_r K (trace s) path);
     emit (Ev_fopen_r path r);
     ret r }"

definition sys_send :: "kernel \<Rightarrow> int \<Rightarrow> string \<Rightarrow> ('w world_scheme, int) state" where
  "sys_send K fd bs = do {
     r \<leftarrow> gets (\<lambda>s. k_send K (trace s) fd bs);
     emit (Ev_send fd bs r);
     ret r }"

text \<open>\<open>select\<close> on one descriptor; Linux stores the time left in the timeout.\<close>

definition sys_select :: "kernel \<Rightarrow> int \<Rightarrow> int \<Rightarrow> ('w world_scheme, int \<times> int) state" where
  "sys_select K fd tv = do {
     a \<leftarrow> gets (\<lambda>s. k_select K (trace s) fd tv);
     emit (Ev_select fd tv (fst a) (snd a));
     ret a }"

definition fopen_w :: "kernel \<Rightarrow> string \<Rightarrow> ('w world_scheme, string option) state" where
  "fopen_w K path = do {
     ok \<leftarrow> gets (\<lambda>s. k_fopen_w K (trace s) path);
     emit (Ev_fopen_w path ok);
     ret (if ok then Some path else None) }"

definition sys_socket :: "kernel \<Rightarrow> ('w world_scheme, int) state" where
  "sys_socket K = do {
     r \<leftarrow> gets (\<lambda>s. k_socket K (trace s));
     emit (Ev_net (Net_socket r));
     ret r }"

definition sys_accept :: "kernel \<Rightarrow> int \<Rightarrow> ('w world_scheme, int) state" where
  "sys_accept K fd = do {
     r \<leftarrow> gets (\<lambda>s. k_accept K (trace s) fd);
     emit (Ev_net (Net_accept fd r));
     ret r }"

definition pthread_create :: "kernel \<Rightarrow> thread \<Rightarrow> ('w world_scheme, int) state" where
  "pthread_create K th = do {
     r \<leftarrow> gets (\<lambda>s. k_thread K (trace s) th);
     emit (Ev_thread th r);
     ret r }"

definition tcgetattr :: "kernel \<Rightarrow> int \<Rightarrow> ('w world_scheme, termios option) state" where
  "tcgetattr K fd = do {
     r \<leftarrow> gets (\<lambda>s. k_tcgetattr K (trace s) fd);
     emit (Ev_tcgetattr fd r);
     ret r }"

definition rpmsg_char_init :: "kernel \<Rightarrow> ('w world_scheme, int) state" where
  "rpmsg_char_init K = do {
     r \<leftarrow> gets (\<lambda>s. k_rpmsg_init K (trace s));
     emit (Ev_rpmsg_init r);
     ret r }"

definition rpmsg_char_open ::
  "kernel \<Rightarrow> int \<Rightarrow> int \<Rightarrow> string \<Rightarrow> ('w world_scheme, (int \<times> int) option) state" where
  "rpmsg_char_open K rproc_id ep name = do {
     r \<leftarrow> gets (\<lambda>s. k_rpmsg_open K (trace s) rproc_id ep name);
     emit (Ev_rpmsg_open rproc_id ep name r);
     ret r }"

subsection \<open>Running the calls\<close>

lemma run_emit [run_simps]: "run_state (emit e) s = ((), s\<lparr>trace := trace s @ [e]\<rparr>)"
  by (simp add: emit_def)

lemma run_raise_ub [run_simps]:
  "run_state (raise_ub u) s = ((), if fault s = None then s\<lparr>fault := Some u\<rparr> else s)"
  by (simp add: raise_ub_def)

lemma run_check_ub [run_simps]:
  "run_state (check_ub ok u) s =
     ((), if ok \<or> fault s \<noteq> None then s else s\<lparr>fault := Some u\<rparr>)"
  by (simp add: check_ub_def raise_ub_def)

lemmas call_defs [run_simps] =
  sys_open_def sys_close_def sys_read_def sys_write_def sys_unlink_def sys_symlink_def
  ioctl_heap_alloc_def ioctl_dma_attach_def ioctl_dma_sync_def sys_mmap_def sys_munmap_def
  fopen_r_def fopen_w_def sys_socket_def sys_accept_def pthread_create_def tcgetattr_def sys_send_def sys_select_def rpmsg_char_init_def rpmsg_char_open_def

subsection \<open>A concrete kernel\<close>

text \<open>
  A kernel on which every call succeeds, for the witnesses: descriptors are numbered by
  the length of the history, the state file reads \<^verbatim>\<open>offline\<close> and a newline, the
  buffer lies at device address \<open>0x90000000\<close>.
\<close>

definition sample_kernel :: kernel where
  "sample_kernel = \<lparr>
     k_open = (\<lambda>tr path flags. 3 + int (length tr)),
     k_read = (\<lambda>tr fd n. let bs = take n (''offline'' @ [NL]) in (int (length bs), bs)),
     k_write = (\<lambda>tr fd bs. int (length bs)),
     k_unlink = (\<lambda>tr path. 0),
     k_symlink = (\<lambda>tr target path. 0),
     k_heap_alloc = (\<lambda>tr fd len flags. (0, 70)),
     k_dma_attach = (\<lambda>tr fd bfd. (0, 0x90000000)),
     k_dma_sync = (\<lambda>tr fd flags. 0),
     k_mmap = (\<lambda>tr len fd. 0x7000),
     k_rpmsg_init = (\<lambda>tr. 0),
     k_rpmsg_open = (\<lambda>tr rproc_id ep name. Some (90, 1024)),
     k_send = (\<lambda>tr fd bs. int (length bs)),
     k_select = (\<lambda>tr fd tv. (1, tv)),
     k_fopen_w = (\<lambda>tr path. True),
     k_socket = (\<lambda>tr. 100 + int (length tr)),
     k_accept = (\<lambda>tr fd. 100 + int (length tr)),
     k_thread = (\<lambda>tr th. 0),
     k_tcgetattr = (\<lambda>tr fd. Some (Termios 0x1CB2 0x8A3B 5 0 0 1)),
     k_getpid = 4242,
     k_fopen_r = (\<lambda>tr path. Some (''C7_PROC_ID = 8'' @ [NL] @ ''DMA_HEAP_RESERVED=linux,cma'' @ [NL] @ ''C7_PROC_ID=9'')),
     k_malloc_ok = (\<lambda>blocks n. True),
     DMA_BUF_SYNC_RW = 3, DMA_BUF_SYNC_START = 0, DMA_BUF_SYNC_END = 4, EPERM = 1\<rparr>"

definition start_world :: world where
  "start_world = \<lparr>trace = [], fault = None\<rparr>"

lemma sample_kernel_contracts: "read_contract sample_kernel" "linux_uapi sample_kernel"
  by (auto simp: read_contract_def linux_uapi_def sample_kernel_def Let_def)

end
