(* ===== verification/Descriptors.thy ===== *)
theory Descriptors
  imports Kernel
begin

text \<open>
  Which file descriptors a history leaves open, and a small calculus for what a
  computation adds to the history (\<open>emits\<close>). The multiset of open descriptors follows
  from the events alone, so facts about leaks hold for every kernel.
\<close>

subsection \<open>Open descriptors\<close>

fun fd_step :: "event \<Rightarrow> int multiset \<Rightarrow> int multiset" where
  "fd_step (Ev_open _ _ r) M = (if r < 0 then M else add_mset r M)"
| "fd_step (Ev_close fd) M = M - {#fd#}"
| "fd_step (Ev_heap_alloc _ _ _ r bfd) M =
     (if r < 0 \<or> sint bfd < 0 then M else add_mset (sint bfd) M)"
| "fd_step (Ev_rpmsg_open _ _ _ a) M = (case a of None \<Rightarrow> M | Some (fd, _) \<Rightarrow> add_mset fd M)"
| "fd_step (Ev_net (Net_socket r)) M = (if r < 0 then M else add_mset r M)"
| "fd_step (Ev_net (Net_accept _ r)) M = (if r < 0 then M else add_mset r M)"
| "fd_step _ M = M"

definition live_fds :: "event list \<Rightarrow> int multiset" where
  "live_fds tr = fold fd_step tr {#}"

lemma live_fds_Nil [fd_simps]: "live_fds [] = {#}"
  by (simp add: live_fds_def)

lemma live_fds_append [fd_simps]: "live_fds (tr @ es) = fold fd_step es (live_fds tr)"
  by (simp add: live_fds_def)

text \<open>The addresses at which a history leaves something mapped.\<close>

fun map_step :: "event \<Rightarrow> u64 multiset \<Rightarrow> u64 multiset" where
  "map_step (Ev_mmap _ _ addr) M = (if addr = -1 then M else add_mset addr M)"
| "map_step (Ev_munmap addr _) M = M - {#addr#}"
| "map_step _ M = M"

definition live_maps :: "event list \<Rightarrow> u64 multiset" where
  "live_maps tr = fold map_step tr {#}"

lemma live_maps_Nil [fd_simps]: "live_maps [] = {#}"
  by (simp add: live_maps_def)

lemma live_maps_append [fd_simps]: "live_maps (tr @ es) = fold map_step es (live_maps tr)"
  by (simp add: live_maps_def)

text \<open>A computation leaves the descriptors as it found them.\<close>

definition same_fds :: "'w world_scheme \<Rightarrow> 'w world_scheme \<Rightarrow> bool" where
  "same_fds s t \<longleftrightarrow> live_fds (trace t) = live_fds (trace s)"

interpretation fds: frame_rel same_fds
  by unfold_locales (simp_all add: same_fds_def)

abbreviation fd_neutral :: "('w world_scheme, 'a) state \<Rightarrow> bool" where
  "fd_neutral m \<equiv> preserves same_fds m"

lemma fd_neutralD: "fd_neutral m \<Longrightarrow> live_fds (trace (exec m s)) = live_fds (trace s)"
  by (auto dest: preservesD simp: same_fds_def)

subsection \<open>What a computation adds to the history\<close>

definition emits :: "('w world_scheme, 'a) state \<Rightarrow> ('a \<Rightarrow> event list \<Rightarrow> bool) \<Rightarrow> bool" where
  "emits m R \<longleftrightarrow> (\<forall>s. \<exists>evs. trace (exec m s) = trace s @ evs \<and> R (result m s) evs)"

lemma emitsI: "(\<And>s. \<exists>evs. trace (exec m s) = trace s @ evs \<and> R (result m s) evs) \<Longrightarrow> emits m R"
  by (simp add: emits_def)

lemma emitsE:
  assumes "emits m R"
  obtains evs where "trace (exec m s) = trace s @ evs" and "R (result m s) evs"
  using assms by (auto simp: emits_def)

lemma emits_mono: "emits m R \<Longrightarrow> (\<And>r evs. R r evs \<Longrightarrow> Q r evs) \<Longrightarrow> emits m Q"
  unfolding emits_def by meson

lemma emits_return: "R x [] \<Longrightarrow> emits (ret x) R"
  by (simp add: emits_def)

lemma emits_bind:
  assumes "emits m R" and "\<And>x. emits (f x) (Q x)"
    and "\<And>x y e e'. R x e \<Longrightarrow> Q x y e' \<Longrightarrow> S y (e @ e')"
  shows "emits (State_Monad.bind m f) S"
proof (rule emitsI)
  fix s
  obtain e where e: "trace (exec m s) = trace s @ e" "R (result m s) e"
    by (rule emitsE [OF assms(1)])
  obtain e' where e': "trace (exec (f (result m s)) (exec m s)) = trace (exec m s) @ e'"
      "Q (result m s) (result (f (result m s)) (exec m s)) e'"
    by (rule emitsE [OF assms(2)])
  show "\<exists>evs. trace (exec (State_Monad.bind m f) s) = trace s @ evs
        \<and> S (result (State_Monad.bind m f) s) evs"
    using e e' assms(3) by (intro exI [of _ "e @ e'"]) (simp add: split_beta)
qed

text \<open>The history of a computation, read off two states.\<close>

definition new_events :: "'w world_scheme \<Rightarrow> 'w world_scheme \<Rightarrow> event list" where
  "new_events s t = drop (length (trace s)) (trace t)"

lemma new_events_emits: "emits m R \<Longrightarrow> R (result m s) (new_events s (exec m s))"
  by (erule emitsE [of _ _ s]) (simp add: new_events_def)

end
