(* ===== verification/CString.thy ===== *)
theory CString
  imports Prelude
begin

text \<open>
  The part of the C library the sources use on character data: C strings inside byte
  buffers (\<open>strchr\<close>, \<open>strncmp\<close>, \<open>strlcpy\<close>, the \<open>%s\<close> of \<open>snprintf\<close>), character
  classes of the C locale, and the decimal conversions of \<open>atoi\<close>, \<open>sscanf("%d")\<close>
  and \<open>printf("%d")\<close>. \<open>long\<close> has 64 bits and \<open>int\<close> 32 bits, as on the target; a
  conversion that does not fit saturates in \<open>strtol\<close> and is then cut to an \<open>int\<close>, as
  in the C libraries of Linux.
\<close>

subsection \<open>Strings in buffers\<close>

definition c_str :: "string \<Rightarrow> string" where
  "c_str buf = takeWhile (\<lambda>c. c \<noteq> NUL) buf"

definition blit :: "'a list \<Rightarrow> nat \<Rightarrow> 'a list \<Rightarrow> 'a list" where
  "blit buf off bs = take off buf @ bs @ drop (off + length bs) buf"

text \<open>
  The buffer after \<open>bs\<close> was stored at its start; bytes beyond its end are lost (the
  operations record the overrun as a fault).
\<close>

definition store :: "'a list \<Rightarrow> 'a list \<Rightarrow> 'a list" where
  "store buf bs = take (length buf) (bs @ drop (length bs) buf)"

definition strchr :: "string \<Rightarrow> char \<Rightarrow> nat option" where
  "strchr buf c =
     (let i = length (takeWhile (\<lambda>x. x \<noteq> c) (c_str buf))
      in if i < length (c_str buf) then Some i else None)"

text \<open>\<open>strncmp(s, t, n) == 0\<close> on C strings.\<close>

definition strncmp_eq :: "string \<Rightarrow> string \<Rightarrow> nat \<Rightarrow> bool" where
  "strncmp_eq s t n \<longleftrightarrow> take n (c_str s) = take n (c_str t)"

text \<open>
  What \<open>snprintf(buf, n, "%s", s)\<close> and \<open>strlcpy(buf, s, n)\<close> leave in the buffer,
  as a C string.
\<close>

definition bounded_copy :: "nat \<Rightarrow> string \<Rightarrow> string" where
  "bounded_copy n s = take (n - 1) (c_str s)"

lemma c_str_clean [simp]: "NUL \<notin> set (c_str s)"
  by (auto simp: c_str_def dest: set_takeWhileD)

lemma c_str_id [simp]: "NUL \<notin> set s \<Longrightarrow> c_str s = s"
  by (auto simp: c_str_def)

lemma c_str_idem [simp]: "c_str (c_str s) = c_str s"
  by simp

lemma c_str_append_NUL [simp]: "c_str (s @ NUL # t) = c_str s"
  by (simp add: c_str_def)

lemma length_c_str_le: "length (c_str s) \<le> length s"
  by (simp add: c_str_def length_takeWhile_le)

lemma length_blit [simp]:
  "off + length bs \<le> length buf \<Longrightarrow> length (blit buf off bs) = length buf"
  by (simp add: blit_def)

lemma blit_0: "blit buf 0 bs = bs @ drop (length bs) buf"
  by (simp add: blit_def)

lemma length_store [simp]: "length (store buf bs) = length buf"
  by (simp add: store_def)

lemma store_fits: "length bs \<le> length buf \<Longrightarrow> store buf bs = bs @ drop (length bs) buf"
  by (simp add: store_def)

lemma bounded_copy_clean [simp]: "NUL \<notin> set (bounded_copy n s)"
  unfolding bounded_copy_def using c_str_clean in_set_takeD by fast

lemma length_bounded_copy: "0 < n \<Longrightarrow> length (bounded_copy n s) < n"
  by (simp add: bounded_copy_def)

lemma bounded_copy_id [simp]:
  "NUL \<notin> set s \<Longrightarrow> length s < n \<Longrightarrow> bounded_copy n s = s"
  by (simp add: bounded_copy_def)

text \<open>Writing the terminator after \<open>bs\<close> makes \<open>bs\<close> the content, whatever was there.\<close>

lemma c_str_terminate:
  "length bs < length buf \<Longrightarrow> c_str ((blit buf 0 bs)[length bs := NUL]) = c_str bs"
  by (simp add: blit_0 list_update_append Cons_nth_drop_Suc [symmetric])

lemma c_str_cut:
  assumes "i < length (c_str buf)"
  shows "c_str (buf[i := NUL]) = take i (c_str buf)"
proof -
  have len: "i < length buf"
    using assms length_c_str_le [of buf] by simp
  then have "buf[i := NUL] = take i buf @ NUL # drop (Suc i) buf"
    by (rule upd_conv_take_nth_drop)
  moreover have "take i buf = take i (c_str buf)"
    using assms by (simp add: c_str_def take_takeWhile)
  moreover have "NUL \<notin> set (take i (c_str buf))"
    using c_str_clean in_set_takeD by fast
  ultimately show ?thesis by simp
qed

lemma strchr_cut:
  "c_str (case strchr buf c of None \<Rightarrow> buf | Some i \<Rightarrow> buf[i := NUL]) =
     takeWhile (\<lambda>x. x \<noteq> c) (c_str buf)"
proof -
  let ?i = "length (takeWhile (\<lambda>x. x \<noteq> c) (c_str buf))"
  have "?i < length (c_str buf) \<or> takeWhile (\<lambda>x. x \<noteq> c) (c_str buf) = c_str buf"
    by (metis length_takeWhile_le nat_less_le order_refl take_all takeWhile_eq_take)
  then show ?thesis
    by (auto simp: strchr_def Let_def c_str_cut takeWhile_eq_take_length simp del: takeWhile_eq_all_conv)
qed

subsection \<open>Character classes\<close>

definition isspace :: "char \<Rightarrow> bool" where
  "isspace c \<longleftrightarrow> c \<in> {CHR '' '', CHR 0x09, CHR 0x0A, CHR 0x0B, CHR 0x0C, CHR 0x0D}"

definition isdigit :: "char \<Rightarrow> bool" where
  "isdigit c \<longleftrightarrow> 48 \<le> (of_char c :: nat) \<and> (of_char c :: nat) \<le> 57"

definition digit_val :: "char \<Rightarrow> int" where
  "digit_val c = of_char c - 48"

subsection \<open>Reading decimal numbers\<close>

definition digits_val :: "string \<Rightarrow> int" where
  "digits_val ds = foldl (\<lambda>acc c. 10 * acc + digit_val c) 0 ds"

definition clamp64 :: "int \<Rightarrow> int" where
  "clamp64 v = max (- (2 ^ 63)) (min (2 ^ 63 - 1) v)"

definition to_int32 :: "int \<Rightarrow> int" where
  "to_int32 v = signed_take_bit 31 v"

definition scan_sign :: "string \<Rightarrow> bool \<times> string" where
  "scan_sign s =
     (case s of [] \<Rightarrow> (False, [])
      | c # cs \<Rightarrow> if c = CHR ''-'' then (True, cs) else if c = CHR ''+'' then (False, cs) else (False, s))"

text \<open>The value \<open>strtol(s, NULL, 10)\<close> computes, and \<open>None\<close> where it converts nothing.\<close>

definition strtol10 :: "string \<Rightarrow> int option" where
  "strtol10 s =
     (let (neg, u) = scan_sign (dropWhile isspace s);
          ds = takeWhile isdigit u
      in if ds = [] then None
         else Some (clamp64 (if neg then - digits_val ds else digits_val ds)))"

definition atoi :: "string \<Rightarrow> int" where
  "atoi s = (case strtol10 s of None \<Rightarrow> 0 | Some v \<Rightarrow> to_int32 v)"

text \<open>\<open>sscanf(s, "%d", &v)\<close>: \<open>None\<close> where the conversion fails and \<open>v\<close> is not assigned.\<close>

definition sscanf_d :: "string \<Rightarrow> int option" where
  "sscanf_d s = map_option to_int32 (strtol10 s)"

subsection \<open>Printing decimal numbers\<close>

fun show_nat :: "nat \<Rightarrow> string" where
  "show_nat n = (if n < 10 then [char_of (48 + n)] else show_nat (n div 10) @ [char_of (48 + n mod 10)])"

declare show_nat.simps [simp del]

definition show_int :: "int \<Rightarrow> string" where
  "show_int v = (if v < 0 then CHR ''-'' # show_nat (nat (- v)) else show_nat (nat v))"

lemma of_char_digit: "(n::nat) < 10 \<Longrightarrow> (of_char (char_of (48 + n) :: char) :: nat) = 48 + n"
  by simp

lemma isdigit_char_of: "(n::nat) < 10 \<Longrightarrow> isdigit (char_of (48 + n))"
  by (simp add: isdigit_def)

lemma of_char_int_nat: "(of_char c :: int) = int (of_char c)"
  by (simp add: of_char_def)

lemma digit_val_char_of: "(n::nat) < 10 \<Longrightarrow> digit_val (char_of (48 + n)) = int n"
  by (simp add: digit_val_def of_char_int_nat)

lemma show_nat_digits: "\<forall>c \<in> set (show_nat n). isdigit c"
proof (induction n rule: show_nat.induct)
  case (1 n)
  then show ?case
    by (subst show_nat.simps) (auto simp: isdigit_char_of)
qed

lemma show_nat_nonempty [simp]: "show_nat n \<noteq> []"
  by (subst show_nat.simps) simp

lemma digits_val_append: "digits_val (xs @ [c]) = 10 * digits_val xs + digit_val c"
  by (simp add: digits_val_def)

lemma digits_val_show_nat: "digits_val (show_nat n) = int n"
proof (induction n rule: show_nat.induct)
  case (1 n)
  show ?case
  proof (cases "n < 10")
    case True
    then show ?thesis
      by (subst show_nat.simps) (simp add: digits_val_def digit_val_char_of)
  next
    case False
    have "int n = 10 * int (n div 10) + int (n mod 10)"
      by (simp add: zmod_int zdiv_int)
    with False 1 show ?thesis
      by (subst show_nat.simps) (simp add: digits_val_append digit_val_char_of)
  qed
qed

lemma length_show_nat: "n < 10 ^ k \<Longrightarrow> 0 < k \<Longrightarrow> length (show_nat n) \<le> k"
proof (induction k arbitrary: n)
  case 0
  then show ?case by simp
next
  case (Suc k)
  show ?case
  proof (cases "n < 10")
    case True
    then show ?thesis by (subst show_nat.simps) simp
  next
    case False
    then have "0 < k" using Suc.prems(1) by (cases k) auto
    moreover have "n div 10 < 10 ^ k" using Suc.prems(1) by (simp add: less_mult_imp_div_less mult.commute)
    ultimately have "length (show_nat (n div 10)) \<le> k" by (rule Suc.IH [rotated])
    with False show ?thesis by (subst show_nat.simps) simp
  qed
qed

text \<open>An \<open>int\<close> prints in at most eleven characters.\<close>

lemma length_show_int32:
  assumes "- (2 ^ 31) \<le> v" and "v < 2 ^ 31"
  shows "length (show_int v) \<le> 11"
proof -
  have "length (show_nat (nat \<bar>v\<bar>)) \<le> 10"
    by (rule length_show_nat) (use assms in auto)
  then show ?thesis by (auto simp: show_int_def)
qed

subsection \<open>Printing and reading back\<close>

lemma takeWhile_isdigit_show_nat [simp]: "takeWhile isdigit (show_nat n) = show_nat n"
  using show_nat_digits by simp

lemma show_nat_Cons:
  obtains c cs where "show_nat n = c # cs" and "isdigit c"
  by (metis list.exhaust list.set_intros(1) show_nat_digits show_nat_nonempty)

lemma digit_not_space: "isdigit c \<Longrightarrow> \<not> isspace c"
  by (auto simp: isdigit_def isspace_def)

lemma digit_not_sign: "isdigit c \<Longrightarrow> c \<noteq> CHR ''-'' \<and> c \<noteq> CHR ''+''"
  by (auto simp: isdigit_def)

lemma scan_sign_show_int:
  "scan_sign (dropWhile isspace (show_int v @ t)) = (v < 0, show_nat (nat \<bar>v\<bar>) @ t)"
proof -
  obtain c cs where c: "show_nat (nat \<bar>v\<bar>) = c # cs" "isdigit c" by (rule show_nat_Cons)
  then show ?thesis
    using digit_not_space [OF c(2)] digit_not_sign [OF c(2)]
    by (auto simp: show_int_def scan_sign_def isspace_def)
qed

lemma to_int32_id: "- (2 ^ 31) \<le> v \<Longrightarrow> v < 2 ^ 31 \<Longrightarrow> to_int32 v = v"
  by (simp add: to_int32_def signed_take_bit_int_eq_self)

lemma clamp64_id: "- (2 ^ 31) \<le> v \<Longrightarrow> v < 2 ^ 31 \<Longrightarrow> clamp64 v = v"
  by (simp add: clamp64_def)

lemma strtol10_show_int:
  assumes "- (2 ^ 31) \<le> v" and "v < 2 ^ 31" and "t = [] \<or> \<not> isdigit (hd t)"
  shows "strtol10 (show_int v @ t) = Some v"
proof -
  have "takeWhile isdigit (show_nat (nat \<bar>v\<bar>) @ t) = show_nat (nat \<bar>v\<bar>)"
    using assms(3) show_nat_digits by (cases t) (auto simp: takeWhile_append)
  then show ?thesis
    using assms(1,2)
    by (auto simp: strtol10_def scan_sign_show_int digits_val_show_nat clamp64_id Let_def)
qed

lemma atoi_show_int: "- (2 ^ 31) \<le> v \<Longrightarrow> v < 2 ^ 31 \<Longrightarrow> atoi (show_int v) = v"
  using strtol10_show_int [of v "[]"] by (simp add: atoi_def to_int32_id)

lemma sscanf_d_show_int:
  "- (2 ^ 31) \<le> v \<Longrightarrow> v < 2 ^ 31 \<Longrightarrow> t = [] \<or> \<not> isdigit (hd t) \<Longrightarrow> sscanf_d (show_int v @ t) = Some v"
  by (simp add: sscanf_d_def strtol10_show_int to_int32_id)

text \<open>Whatever the text, the conversions give an \<open>int\<close>.\<close>

lemma to_int32_range: "- (2 ^ 31) \<le> to_int32 v \<and> to_int32 v < 2 ^ 31"
  unfolding to_int32_def
  using signed_take_bit_int_greater_eq_minus_exp [of 31 v] signed_take_bit_int_less_exp [of 31 v]
  by simp

lemma atoi_range: "- (2 ^ 31) \<le> atoi s \<and> atoi s < 2 ^ 31"
  using to_int32_range by (auto simp: atoi_def split: option.splits)

subsection \<open>Lines of a stream\<close>

text \<open>
  One \<open>fgets(line, n + 1, fp)\<close>: at most \<open>n\<close> characters, up to and including the first
  newline; and all the lines a loop of \<open>fgets\<close> reads from the stream.
\<close>

fun fgets_line :: "nat \<Rightarrow> string \<Rightarrow> string \<times> string" where
  "fgets_line 0 s = ([], s)"
| "fgets_line (Suc n) [] = ([], [])"
| "fgets_line (Suc n) (c # cs) =
     (if c = NL then ([c], cs) else let (l, r) = fgets_line n cs in (c # l, r))"

lemma fgets_line_append: "fst (fgets_line n s) @ snd (fgets_line n s) = s"
  by (induction n s rule: fgets_line.induct) (auto simp: split_beta)

lemma fgets_line_shorter:
  assumes "s \<noteq> []" shows "length (snd (fgets_line (Suc n) s)) < length s"
proof -
  have "fst (fgets_line (Suc n) s) \<noteq> []" using assms by (cases s) (auto simp: split_beta)
  then show ?thesis
    using arg_cong [where f = length, OF fgets_line_append [of "Suc n" s]] by (cases "fst (fgets_line (Suc n) s)") auto
qed

function fgets_all :: "nat \<Rightarrow> string \<Rightarrow> string list" where
  "fgets_all n s =
     (if s = [] then []
      else fst (fgets_line (Suc n) s) # fgets_all n (snd (fgets_line (Suc n) s)))"
  by pat_completeness auto
termination
  by (relation "measure (\<lambda>(n, s). length s)") (auto intro: fgets_line_shorter)

declare fgets_all.simps [simp del]

lemma fgets_all_concat: "concat (fgets_all n s) = s"
proof (induction n s rule: fgets_all.induct)
  case (1 n s)
  then show ?case
    using fgets_line_append [of "Suc n" s] by (subst fgets_all.simps) auto
qed

lemma fgets_line_length: "length (fst (fgets_line n s)) \<le> n"
  by (induction n s rule: fgets_line.induct) (auto simp: split_beta)

lemma fgets_all_lengths: "l \<in> set (fgets_all n s) \<Longrightarrow> length l \<le> Suc n"
proof (induction n s rule: fgets_all.induct)
  case (1 n s)
  then show ?case
    using fgets_line_length [of "Suc n" s] fgets_all.simps [of n s] by (auto split: if_splits)
qed

lemma fgets_line_whole:
  "NL \<notin> set l \<Longrightarrow> length l < n \<Longrightarrow> fgets_line n (l @ NL # r) = (l @ [NL], r)"
proof (induction l arbitrary: n)
  case Nil
  then show ?case by (cases n) auto
next
  case (Cons c l)
  then show ?case by (cases n) auto
qed

lemma fgets_all_Cons:
  assumes "NL \<notin> set l" and "length l \<le> n"
  shows "fgets_all n (l @ NL # r) = (l @ [NL]) # fgets_all n r"
  using fgets_line_whole [of l "Suc n" r] assms by (subst fgets_all.simps) simp

end
