(* ===== verification/Fw_Loader.thy ===== *)
theory Fw_Loader
  imports Descriptors CString
begin

text \<open>
  The firmware loader, \<^verbatim>\<open>library/src/fw_loader.c\<close>: reading and writing the state file
  of a remote processor, replacing the firmware symlink, and the switch that stops the
  core, relinks the firmware and starts the core again.
\<close>

subsection \<open>The operations\<close>

text \<open>\<open>read_state\<close> returns its status and the caller's buffer as it leaves it.\<close>

definition read_state ::
  "kernel \<Rightarrow> string \<Rightarrow> string \<Rightarrow> u64 \<Rightarrow> ('w world_scheme, int \<times> string) state" where
  "read_state K path buf maxlen = do {
     fd \<leftarrow> sys_open K path [O_RDONLY];
     if fd < 0 then ret (-1, buf)
     else do {
       a \<leftarrow> sys_read K fd (unat (maxlen - 1));
       let (len, data) = a;
       if len < 0 then do { sys_close fd; ret (-1, buf) }
       else do {
         check_ub (length data < length buf) Buffer_overflow;
         let buf1 = (blit buf 0 data)[nat len := NUL];
         let buf2 = (case strchr buf1 NL of None \<Rightarrow> buf1 | Some i \<Rightarrow> buf1[i := NUL]);
         sys_close fd;
         ret (0, buf2) } } }"

definition write_state_if_needed ::
  "kernel \<Rightarrow> string \<Rightarrow> string \<Rightarrow> ('w world_scheme, int) state" where
  "write_state_if_needed K path desired = do {
     a \<leftarrow> read_state K path (replicate 32 NUL) 32;
     let (r, current) = a;
     if r < 0 then ret (-1)
     else if c_str current = desired then ret 0
     else do {
       fd \<leftarrow> sys_open K path [O_WRONLY];
       if fd < 0 then ret (-1)
       else do {
         w \<leftarrow> sys_write K fd desired;
         if w < 0 then do { sys_close fd; ret (-1) }
         else do { sys_close fd; ret 0 } } } }"

definition update_symlink :: "kernel \<Rightarrow> string \<Rightarrow> string \<Rightarrow> ('w world_scheme, int) state" where
  "update_symlink K source_path target_path = do {
     _ \<leftarrow> sys_unlink K source_path;
     r \<leftarrow> sys_symlink K target_path source_path;
     if r \<noteq> 0 then ret (-1) else ret 0 }"

definition switch_firmware ::
  "kernel \<Rightarrow> string \<Rightarrow> string \<Rightarrow> string \<Rightarrow> ('w world_scheme, int) state" where
  "switch_firmware K new_fw fw_link state_path = do {
     r1 \<leftarrow> write_state_if_needed K state_path ''stop'';
     if r1 < 0 then ret (-1)
     else do {
       r2 \<leftarrow> update_symlink K fw_link new_fw;
       if r2 < 0 then ret (-1)
       else do {
         r3 \<leftarrow> write_state_if_needed K state_path ''start'';
         if r3 < 0 then ret (-1) else ret 0 } } }"

subsection \<open>Reading the state file\<close>

text \<open>The text the file shows: up to the first newline, within the bytes read.\<close>

definition state_text :: "string \<Rightarrow> string" where
  "state_text data = takeWhile (\<lambda>c. c \<noteq> NL) (c_str data)"

lemma read_state_buffer:
  assumes "length data < length buf"
  shows "c_str (case strchr ((blit buf 0 data)[length data := NUL]) NL of
            None \<Rightarrow> (blit buf 0 data)[length data := NUL]
          | Some i \<Rightarrow> ((blit buf 0 data)[length data := NUL])[i := NUL]) = state_text data"
  by (simp add: strchr_cut c_str_terminate [OF assms] state_text_def)

text \<open>
  With a kernel that keeps the contract of \<open>read(2)\<close> and a buffer of the announced
  size, the terminator lands inside the buffer and the caller sees exactly
  \<open>state_text\<close> of the bytes read, whatever the buffer held before.
\<close>

lemma read_state_cases:
  assumes K: "read_contract K" and len: "length buf = unat maxlen" and pos: "0 < maxlen"
  obtains (open_failed) fd where "fd < 0"
      "run_state (read_state K path buf maxlen) s =
        ((-1, buf), s\<lparr>trace := trace s @ [Ev_open path [O_RDONLY] fd]\<rparr>)"
  | (read_failed) fd len data where "0 \<le> fd" "len < 0"
      "run_state (read_state K path buf maxlen) s =
        ((-1, buf), s\<lparr>trace := trace s @
           [Ev_open path [O_RDONLY] fd, Ev_read fd (unat (maxlen - 1)) len data, Ev_close fd]\<rparr>)"
  | (ok) fd data buf' where "0 \<le> fd" "c_str buf' = state_text data"
      "k_read K (trace s @ [Ev_open path [O_RDONLY] fd]) fd (unat (maxlen - 1)) = (int (length data), data)"
      "run_state (read_state K path buf maxlen) s =
        ((0, buf'), s\<lparr>trace := trace s @
           [Ev_open path [O_RDONLY] fd,
            Ev_read fd (unat (maxlen - 1)) (int (length data)) data, Ev_close fd]\<rparr>)"
proof -
  define fd where "fd = k_open K (trace s) path [O_RDONLY]"
  obtain r data where rd: "k_read K (trace s @ [Ev_open path [O_RDONLY] fd]) fd (unat (maxlen - 1)) = (r, data)"
    by fastforce
  note run = read_state_def run_simps fd_def [symmetric] rd
  consider "fd < 0" | "0 \<le> fd" "r < 0" | "0 \<le> fd" "0 \<le> r" by linarith
  then show thesis
  proof cases
    case 1
    show thesis by (rule open_failed [OF 1]) (use 1 in \<open>simp add: run\<close>)
  next
    case 2
    show thesis by (rule read_failed [OF 2, of data]) (use 2 in \<open>simp add: run\<close>)
  next
    case 3
    have "unat (maxlen - 1) = unat maxlen - 1"
      using pos by (simp add: unat_minus_one word_neq_0_conv)
    moreover have "0 < unat maxlen" using pos by (simp add: word_less_nat_alt)
    ultimately have r: "r = int (length data)" and fits: "length data < length buf"
      using read_contractD [OF K rd 3(2)] 3(2) len by auto
    show thesis
    proof (rule ok [OF 3(1) read_state_buffer [OF fits]])
      show "k_read K (trace s @ [Ev_open path [O_RDONLY] fd]) fd (unat (maxlen - 1)) = (int (length data), data)"
        using rd r by simp
    qed (use 3 fits r in \<open>simp add: run\<close>)
  qed
qed

subsection \<open>Descriptors and actions on the remote processor\<close>

lemma read_state_fd_neutral: "fd_neutral (read_state K path buf maxlen)"
  by (rule preservesI) (auto simp: read_state_def same_fds_def run_simps fd_simps split: prod.split)

lemma write_state_fd_neutral: "fd_neutral (write_state_if_needed K path desired)"
  by (rule preservesI)
    (auto simp: write_state_if_needed_def read_state_def same_fds_def run_simps fd_simps
       split: prod.split)

lemma update_symlink_fd_neutral: "fd_neutral (update_symlink K source_path target_path)"
  by (rule preservesI) (simp add: update_symlink_def same_fds_def run_simps fd_simps)

text \<open>The events that change the state of the remote processor or its firmware.\<close>

datatype fw_action = Wrote string | Linked string string

fun fw_action_of :: "event \<Rightarrow> fw_action list" where
  "fw_action_of (Ev_write _ bs r) = (if r < 0 then [] else [Wrote bs])"
| "fw_action_of (Ev_symlink target path r) = (if r = 0 then [Linked target path] else [])"
| "fw_action_of _ = []"

definition fw_actions :: "event list \<Rightarrow> fw_action list" where
  "fw_actions evs = concat (map fw_action_of evs)"

lemma fw_actions_simps [simp]:
  "fw_actions [] = []"
  "fw_actions (e # es) = fw_action_of e @ fw_actions es"
  "fw_actions (es @ es') = fw_actions es @ fw_actions es'"
  by (simp_all add: fw_actions_def)

text \<open>
  What the switch relies on: a command that is either carried out or found to be in force
  already, and a link operation that is carried out or fails. The sequence of the three
  calls with its early returns is verified against this contract only.
\<close>

locale rproc_control =
  fixes allowed :: "string \<Rightarrow> fw_action list \<Rightarrow> bool"
    and set_state :: "string \<Rightarrow> ('w world_scheme, int) state"
    and relink :: "('w world_scheme, int) state"
    and target path :: string
  assumes set_state_emits:
      "emits (set_state cmd)
         (\<lambda>r e. r = 0 \<and> allowed cmd (fw_actions e) \<or> r = -1 \<and> fw_actions e = [])"
    and relink_emits:
      "emits relink (\<lambda>r e. r = 0 \<and> fw_actions e = [Linked target path] \<or> r = -1 \<and> fw_actions e = [])"
    and set_state_neutral: "fd_neutral (set_state cmd)"
    and relink_neutral: "fd_neutral relink"
begin

lemma guarded_emits:
  assumes "emits m R" and "emits n Q"
    and "\<And>r e. R r e \<Longrightarrow> r < 0 \<Longrightarrow> S (-1) e"
    and "\<And>r e y e'. R r e \<Longrightarrow> \<not> r < 0 \<Longrightarrow> Q y e' \<Longrightarrow> S y (e @ e')"
  shows "emits (State_Monad.bind m (\<lambda>r. if r < (0 :: int) then ret (-1 :: int) else n)) S"
proof (rule emits_bind [OF assms(1)])
  fix r
  show "emits (if r < 0 then ret (-1) else n) (\<lambda>y e. if r < 0 then y = -1 \<and> e = [] else Q y e)"
    using assms(2) by (auto intro: emits_return)
qed (use assms(3,4) in \<open>auto split: if_splits\<close>)

lemma sequence_emits:
  "emits (do {
     r1 \<leftarrow> set_state ''stop'';
     if r1 < 0 then ret (-1 :: int)
     else do {
       r2 \<leftarrow> relink;
       if r2 < 0 then ret (-1)
       else do { r3 \<leftarrow> set_state ''start''; if r3 < 0 then ret (-1) else ret 0 } } })
   (\<lambda>r e. if r = 0
      then \<exists>a b. allowed ''stop'' a \<and> allowed ''start'' b \<and> fw_actions e = a @ Linked target path # b
      else r = -1 \<and> (fw_actions e = [] \<or>
             (\<exists>a. allowed ''stop'' a \<and> fw_actions e \<in> {a, a @ [Linked target path]})))"
proof -
  have third: "emits (do { r3 \<leftarrow> set_state ''start''; if r3 < 0 then ret (-1) else ret (0 :: int) })
      (\<lambda>r e. r = 0 \<and> allowed ''start'' (fw_actions e) \<or> r = -1 \<and> fw_actions e = [])"
    by (rule guarded_emits [OF set_state_emits, where Q = "\<lambda>y e. y = 0 \<and> e = []"])
      (auto intro: emits_return)
  have second: "emits (do { r2 \<leftarrow> relink; if r2 < 0 then ret (-1)
       else do { r3 \<leftarrow> set_state ''start''; if r3 < 0 then ret (-1) else ret (0 :: int) } })
      (\<lambda>r e. r = 0 \<and> (\<exists>b. allowed ''start'' b \<and> fw_actions e = Linked target path # b)
         \<or> r = -1 \<and> fw_actions e \<in> {[], [Linked target path]})"
    by (rule guarded_emits [OF relink_emits third]) auto
  show ?thesis
    by (rule guarded_emits [OF set_state_emits second]) auto
qed

lemma sequence_neutral:
  "fd_neutral (do {
     r1 \<leftarrow> set_state ''stop'';
     if r1 < 0 then ret (-1 :: int)
     else do {
       r2 \<leftarrow> relink;
       if r2 < 0 then ret (-1)
       else do { r3 \<leftarrow> set_state ''start''; if r3 < 0 then ret (-1) else ret 0 } } })"
  by (intro fds.rules set_state_neutral relink_neutral)

end

text \<open>
  The state file of a remote processor shows the name of its state and a newline (the
  names are those of the kernel's remoteproc framework). The commands are not among them.
\<close>

definition rproc_states :: "string list" where
  "rproc_states = [''offline'', ''suspended'', ''running'', ''crashed'', ''deleted'',
     ''attached'', ''detached'', ''invalid'']"

definition sysfs_state_file :: "kernel \<Rightarrow> string \<Rightarrow> bool" where
  "sysfs_state_file K path \<longleftrightarrow>
     (\<forall>tr fd r bs. k_read K (tr @ [Ev_open path [O_RDONLY] fd]) fd 31 = (r, bs) \<longrightarrow>
        r < 0 \<or> (\<exists>st \<in> set rproc_states. bs = st @ [NL]))"

lemma state_text_rproc: "st \<in> set rproc_states \<Longrightarrow> state_text (st @ [NL]) = st"
  by (auto simp: rproc_states_def state_text_def)

definition carried_out :: "kernel \<Rightarrow> string \<Rightarrow> string \<Rightarrow> fw_action list \<Rightarrow> bool" where
  "carried_out K path cmd a \<longleftrightarrow> a \<in> {[], [Wrote cmd]} \<and>
     (read_contract K \<and> sysfs_state_file K path \<and> cmd \<notin> set rproc_states \<longrightarrow> a = [Wrote cmd])"

text \<open>\<open>write_state_if_needed\<close>, once it has seen what the file shows.\<close>

definition write_state_spec ::
  "kernel \<Rightarrow> string \<Rightarrow> string \<Rightarrow> string \<Rightarrow> 'w world_scheme \<Rightarrow> int \<times> 'w world_scheme" where
  "write_state_spec K path desired data s =
     (if state_text data = desired then (0, s)
      else run_state (do {
        fd \<leftarrow> sys_open K path [O_WRONLY];
        if fd < 0 then ret (-1)
        else do { w \<leftarrow> sys_write K fd desired; sys_close fd; ret (if w < 0 then -1 else 0) } }) s)"

lemma write_state_run:
  assumes K: "read_contract K"
  obtains (failed) s' where
      "run_state (write_state_if_needed K path desired) s = (-1, s')"
      "fw_actions (new_events s s') = []"
  | (seen) fd data where "0 \<le> fd"
      "k_read K (trace s @ [Ev_open path [O_RDONLY] fd]) fd 31 = (int (length data), data)"
      "run_state (write_state_if_needed K path desired) s =
         write_state_spec K path desired data
           (s\<lparr>trace := trace s @ [Ev_open path [O_RDONLY] fd, Ev_read fd 31 (int (length data)) data, Ev_close fd]\<rparr>)"
proof (rule read_state_cases [OF K, of "replicate 32 NUL" 32 path s])
  fix fd data buf'
  assume "0 \<le> fd" and buf: "c_str buf' = state_text data"
    and rd: "k_read K (trace s @ [Ev_open path [O_RDONLY] fd]) fd (unat ((32 :: u64) - 1)) = (int (length data), data)"
    and run: "run_state (read_state K path (replicate 32 NUL) 32) s = ((0, buf'), s\<lparr>trace := trace s @
        [Ev_open path [O_RDONLY] fd, Ev_read fd (unat ((32 :: u64) - 1)) (int (length data)) data, Ev_close fd]\<rparr>)"
  show thesis
    by (rule seen [OF \<open>0 \<le> fd\<close>])
      (use rd run buf in \<open>auto simp: write_state_if_needed_def write_state_spec_def run_simps\<close>)
qed (auto intro!: failed simp: write_state_if_needed_def run_simps new_events_def)

lemma write_state_emits:
  "emits (write_state_if_needed K path desired)
     (\<lambda>r e. r = 0 \<and> carried_out K path desired (fw_actions e) \<or> r = -1 \<and> fw_actions e = [])"
proof -
  have any: "emits (write_state_if_needed K path desired)
     (\<lambda>r e. r = 0 \<and> fw_actions e \<in> {[], [Wrote desired]} \<or> r = -1 \<and> fw_actions e = [])"
    by (rule emitsI)
      (auto simp: write_state_if_needed_def read_state_def run_simps split: prod.split)
  have strict: "result (write_state_if_needed K path desired) s = 0 \<Longrightarrow>
      fw_actions (new_events s (exec (write_state_if_needed K path desired) s)) = [Wrote desired]"
    if K: "read_contract K" and f: "sysfs_state_file K path" "desired \<notin> set rproc_states" for s
  proof (rule write_state_run [OF K, of path desired s])
    fix fd data
    assume rd: "k_read K (trace s @ [Ev_open path [O_RDONLY] fd]) fd 31 = (int (length data), data)"
    then obtain st where "st \<in> set rproc_states" "data = st @ [NL]"
      using f(1) unfolding sysfs_state_file_def by fastforce
    then have "state_text data \<noteq> desired"
      using f(2) state_text_rproc by auto
    moreover assume "run_state (write_state_if_needed K path desired) s = write_state_spec K path desired data
        (s\<lparr>trace := trace s @ [Ev_open path [O_RDONLY] fd, Ev_read fd 31 (int (length data)) data, Ev_close fd]\<rparr>)"
    moreover assume "result (write_state_if_needed K path desired) s = 0"
    ultimately show ?thesis
      by (simp add: write_state_spec_def run_simps new_events_def split: if_splits)
  qed auto
  show ?thesis
  proof (rule emitsI)
    fix s
    show "\<exists>e. trace (exec (write_state_if_needed K path desired) s) = trace s @ e \<and>
       (result (write_state_if_needed K path desired) s = 0 \<and> carried_out K path desired (fw_actions e) \<or>
        result (write_state_if_needed K path desired) s = -1 \<and> fw_actions e = [])"
      by (rule emitsE [OF any, of s]) (use strict [of s] in \<open>auto simp: carried_out_def new_events_def\<close>)
  qed
qed

lemma update_symlink_emits:
  "emits (update_symlink K source_path target_path)
     (\<lambda>r e. r = 0 \<and> fw_actions e = [Linked target_path source_path] \<or> r = -1 \<and> fw_actions e = [])"
  by (rule emitsI) (simp add: update_symlink_def run_simps)

interpretation fw: rproc_control "carried_out K state_path"
    "write_state_if_needed K state_path" "update_symlink K fw_link new_fw" new_fw fw_link
  for K state_path fw_link new_fw
  by unfold_locales
    (rule write_state_emits update_symlink_emits write_state_fd_neutral update_symlink_fd_neutral)+

lemmas switch_firmware_emits = fw.sequence_emits [folded switch_firmware_def]
lemmas switch_firmware_fd_neutral = fw.sequence_neutral [folded switch_firmware_def]

subsection \<open>Properties\<close>


text \<open>
  C16: whatever the operating system answers, \<open>switch_firmware\<close> closes every descriptor it
  opens: on every branch, the error branches included, the multiset of open descriptors is
  the one it started with.
\<close>
theorem switch_firmware_no_leak:
  "live_fds (trace (exec (switch_firmware K new_fw fw_link state_path) s)) = live_fds (trace s)"
  by (rule fd_neutralD [OF switch_firmware_fd_neutral])

text \<open>
  What \<open>write_state_if_needed\<close> does once the state file could be read. If the text of
  the file up to its first newline is the desired command, it returns 0 and touches nothing.
  Otherwise it opens the file for writing, writes the command once, closes the file and
  returns 0, or -1 when opening or writing fails. No branch runs into undefined behaviour:
  the terminating NUL of \<open>read_state\<close> lands inside its 32-byte buffer.
\<close>
theorem write_state_functional:
  assumes "read_contract K"
    and "fd = k_open K (trace s) path [O_RDONLY]" and "0 \<le> fd"
    and "k_read K (trace s @ [Ev_open path [O_RDONLY] fd]) fd 31 = (int (length data), data)"
  shows "run_state (write_state_if_needed K path desired) s =
    (let seen = trace s @ [Ev_open path [O_RDONLY] fd, Ev_read fd 31 (int (length data)) data, Ev_close fd];
         wfd = k_open K seen path [O_WRONLY];
         opened = seen @ [Ev_open path [O_WRONLY] wfd];
         w = k_write K opened wfd desired
     in if state_text data = desired then (0, s\<lparr>trace := seen\<rparr>)
        else if wfd < 0 then (-1, s\<lparr>trace := opened\<rparr>)
        else (if w < 0 then -1 else 0, s\<lparr>trace := opened @ [Ev_write wfd desired w, Ev_close wfd]\<rparr>))"
proof -
  have fits: "length data < 32"
    using read_contractD [OF assms(1,4)] by simp
  show ?thesis
    using assms(2-4) fits read_state_buffer [of data "replicate 32 NUL"]
    by (simp add: write_state_if_needed_def read_state_def run_simps)
qed

theorem write_state_functional_witness:
  "result (write_state_if_needed sample_kernel ''state'' ''start'') start_world = 0 \<and>
   fault (exec (write_state_if_needed sample_kernel ''state'' ''start'') start_world) = None"
  using write_state_functional [OF sample_kernel_contracts(1), of 3 start_world "''state''" "''offline'' @ [NL]" "''start''"]
  by (simp add: sample_kernel_def start_world_def state_text_def)

text \<open>
  C35: on a kernel whose state file shows the remoteproc state names, the shortcut of
  \<open>write_state_if_needed\<close> ("already in this state, skipping") is never taken, because it
  compares the name of a state with the name of a command: every successful switch writes
  \<open>stop\<close>, relinks, and writes \<open>start\<close>, whatever state the core was in.
\<close>
theorem switch_firmware_sysfs:
  assumes "read_contract K" and "sysfs_state_file K state_path"
    and "result (switch_firmware K new_fw fw_link state_path) s = 0"
  shows "fw_actions (new_events s (exec (switch_firmware K new_fw fw_link state_path) s)) =
    [Wrote ''stop'', Linked new_fw fw_link, Wrote ''start'']"
  using new_events_emits [OF switch_firmware_emits, of K new_fw fw_link state_path s] assms
  by (auto simp: carried_out_def rproc_states_def)

theorem switch_firmware_sysfs_witness:
  "fw_actions (new_events start_world (exec (switch_firmware sample_kernel ''new'' ''link'' ''state'') start_world)) =
    [Wrote ''stop'', Linked ''new'' ''link'', Wrote ''start'']"
proof (rule switch_firmware_sysfs [OF sample_kernel_contracts(1)])
  show "sysfs_state_file sample_kernel ''state''"
    by (simp add: sysfs_state_file_def sample_kernel_def rproc_states_def)
  show "result (switch_firmware sample_kernel ''new'' ''link'' ''state'') start_world = 0"
    by code_simp
qed

end
