(* ===== verification/Dmabuf.thy ===== *)
theory Dmabuf
  imports Descriptors CString
begin

unbundle bit_operations_syntax

text \<open>
  DMA buffers, \<^verbatim>\<open>library/src/dmabuf.c\<close>: allocation from a DMA heap, attachment to the
  remote processor, mapping into the process, release, and the brackets around CPU access.
  \<open>unsigned long\<close> has 64 bits, as on the target.
\<close>

subsection \<open>The operations\<close>

record dma_buf_params =
  dma_heap_fd :: int
  dma_buf_fd :: int
  rproc_fd :: int
  kern_addr :: u64
  phys_addr :: u64
  buf_size :: int

definition MAP_FAILED :: u64 where
  "MAP_FAILED = - 1"

definition dmaheap_path :: "string \<Rightarrow> string" where
  "dmaheap_path heap_name = bounded_copy 100 (''/dev/dma_heap/'' @ heap_name)"

definition dmaheap_open :: "kernel \<Rightarrow> string \<Rightarrow> ('w world_scheme, int) state" where
  "dmaheap_open K heap_name = sys_open K (dmaheap_path heap_name) [O_RDWR]"

definition dmaheap_alloc :: "kernel \<Rightarrow> int \<Rightarrow> u64 \<Rightarrow> ('w world_scheme, int) state" where
  "dmaheap_alloc K fd len = do {
     a \<leftarrow> ioctl_heap_alloc K fd len [O_CLOEXEC, O_RDWR];
     let (r, data_fd) = a;
     if r < 0 then ret r else ret (sint data_fd) }"

text \<open>
  The argument of the attach request (\<open>fd\<close> and \<open>da\<close> of \<^verbatim>\<open>remoteproc_cdev.h\<close>; the initialiser zeroes
  what it does not name), and the function: its status, and what the pointer \<open>phys_addr\<close> refers
  to afterwards.
\<close>

record rproc_dma_buf_attach_data =
  attach_fd :: u32
  attach_da :: u64

definition dmabuf_get_phys ::
  "kernel \<Rightarrow> int \<Rightarrow> int \<Rightarrow> u64 \<Rightarrow> ('w world_scheme, int \<times> u64) state" where
  "dmabuf_get_phys K rproc buf phys = do {
     let data = \<lparr>attach_fd = word_of_int buf, attach_da = 0\<rparr>;
     a \<leftarrow> ioctl_dma_attach K rproc (attach_fd data);
     let (r, da) = a;
     let data = data\<lparr>attach_da := da\<rparr>;
     if r < 0 then ret (r, phys) else ret (0, attach_da data) }"

definition dmabuf_heap_init ::
  "kernel \<Rightarrow> string \<Rightarrow> u32 \<Rightarrow> string \<Rightarrow> dma_buf_params \<Rightarrow>
     ('w world_scheme, int \<times> dma_buf_params) state" where
  "dmabuf_heap_init K heap_name buffer_size rproc_dev params = do {
     hfd \<leftarrow> dmaheap_open K heap_name;
     let params = params\<lparr>dma_heap_fd := hfd\<rparr>;
     if hfd < 0 then ret (hfd, params)
     else do {
       bfd \<leftarrow> dmaheap_alloc K hfd (ucast buffer_size);
       let params = params\<lparr>dma_buf_fd := bfd\<rparr>;
       if bfd < 0 then ret (-1, params)
       else do {
         rfd \<leftarrow> sys_open K rproc_dev [O_RDONLY];
         let params = params\<lparr>rproc_fd := rfd\<rparr>;
         if rfd < 0 then do { sys_close bfd; ret (-1, params) }
         else do {
           a \<leftarrow> dmabuf_get_phys K rfd bfd (phys_addr params);
           let (r, da) = a;
           let params = params\<lparr>phys_addr := da\<rparr>;
           if r < 0 then do { sys_close bfd; sys_close rfd; ret (r, params) }
           else if phys_addr params > NOT 0 then do { sys_close bfd; sys_close rfd; ret (-1, params) }
           else do {
             addr \<leftarrow> sys_mmap K (ucast buffer_size) bfd;
             let params = params\<lparr>kern_addr := addr\<rparr>;
             if addr = MAP_FAILED then do { sys_close bfd; sys_close rfd; ret (-1, params) }
             else ret (0, params\<lparr>buf_size := sint buffer_size\<rparr>) } } } } }"

definition dmabuf_heap_destroy :: "dma_buf_params \<Rightarrow> ('w world_scheme, unit) state" where
  "dmabuf_heap_destroy params = do {
     sys_munmap (kern_addr params) (word_of_int (buf_size params));
     sys_close (dma_buf_fd params);
     sys_close (rproc_fd params) }"

definition dmabuf_sync :: "kernel \<Rightarrow> int \<Rightarrow> int \<Rightarrow> ('w world_scheme, int) state" where
  "dmabuf_sync K fd start_stop =
     ioctl_dma_sync K fd (word_of_int (start_stop OR DMA_BUF_SYNC_RW K))"

lemmas dmabuf_defs [run_simps] =
  dmaheap_open_def dmaheap_alloc_def dmabuf_get_phys_def dmabuf_heap_destroy_def dmabuf_sync_def

subsection \<open>Lemmas\<close>

text \<open>The test for addresses the remote end cannot take compares with the largest word.\<close>

lemma phys_test_never [simp]: "\<not> (NOT 0 :: u64) < p"
  by (simp add: not_less)

lemma dmabuf_sync_fd_neutral: "fd_neutral (dmabuf_sync K fd start_stop)"
  by (rule preservesI) (simp add: same_fds_def run_simps fd_simps)

text \<open>
  The three ways out of \<open>dmabuf_heap_init\<close>, with the descriptors each leaves open.
\<close>

lemma dmabuf_heap_init_cases:
  obtains (no_heap) p t where
      "run_state (dmabuf_heap_init K heap_name n dev params) s = ((dma_heap_fd p, p), t)"
      "dma_heap_fd p < 0" "live_fds (trace t) = live_fds (trace s)"
  | (failed) r p t where
      "run_state (dmabuf_heap_init K heap_name n dev params) s = ((r, p), t)"
      "r < 0" "0 \<le> dma_heap_fd p" "live_fds (trace t) = add_mset (dma_heap_fd p) (live_fds (trace s))"
  | (ok) p t where
      "run_state (dmabuf_heap_init K heap_name n dev params) s = ((0, p), t)"
      "0 \<le> dma_heap_fd p" "0 \<le> dma_buf_fd p" "0 \<le> rproc_fd p"
      "kern_addr p \<noteq> MAP_FAILED" "buf_size p = sint n"
      "live_fds (trace t) =
         add_mset (rproc_fd p) (add_mset (dma_buf_fd p) (add_mset (dma_heap_fd p) (live_fds (trace s))))"
      "\<exists>tr. trace t = tr @
         [Ev_dma_attach (rproc_fd p) (word_of_int (dma_buf_fd p)) (fst (k_dma_attach K tr (rproc_fd p) (word_of_int (dma_buf_fd p)))) (phys_addr p),
          Ev_mmap (ucast n) (dma_buf_fd p) (kern_addr p)]"
proof -
  show thesis
  proof (cases "fst (result (dmabuf_heap_init K heap_name n dev params) s) = 0")
    case True
    show thesis
      by (rule ok [of "snd (result (dmabuf_heap_init K heap_name n dev params) s)"
            "exec (dmabuf_heap_init K heap_name n dev params) s"])
        (use True in \<open>auto simp: dmabuf_heap_init_def run_simps fd_simps split: prod.splits if_splits\<close>)
  next
    case False
    let ?r = "fst (result (dmabuf_heap_init K heap_name n dev params) s)"
    let ?p = "snd (result (dmabuf_heap_init K heap_name n dev params) s)"
    let ?t = "exec (dmabuf_heap_init K heap_name n dev params) s"
    note run = dmabuf_heap_init_def run_simps fd_simps
    show thesis
    proof (cases "dma_heap_fd ?p < 0")
      case True
      show thesis
        by (rule no_heap [of ?p ?t])
          (use True in \<open>auto simp: run split: prod.splits if_splits\<close>)
    next
      case heap: False
      show thesis
        by (rule failed [of ?r ?p ?t])
          (use False heap in \<open>auto simp: run split: prod.splits if_splits\<close>)
    qed
  qed
qed

subsection \<open>Properties\<close>

text \<open>
  C6: what \<open>dmabuf_heap_init\<close> leaves open, on every branch and for every answer of the
  system. On success the three descriptors in \<open>params\<close> are open and valid, the buffer is
  mapped and \<open>size\<close> is the requested size. On failure the result is negative and the
  buffer and the remoteproc device are closed again, but the descriptor of the DMA heap,
  once it was opened, stays open.
\<close>
theorem dmabuf_heap_init_outcome:
  "let ((r, p), t) = run_state (dmabuf_heap_init K heap_name n dev params) s
   in if r = 0
      then 0 \<le> dma_heap_fd p \<and> 0 \<le> dma_buf_fd p \<and> 0 \<le> rproc_fd p \<and>
           kern_addr p \<noteq> MAP_FAILED \<and> buf_size p = sint n \<and>
           live_fds (trace t) = live_fds (trace s) + {#dma_heap_fd p, dma_buf_fd p, rproc_fd p#}
      else r < 0 \<and>
           live_fds (trace t) =
             (if dma_heap_fd p < 0 then live_fds (trace s) else add_mset (dma_heap_fd p) (live_fds (trace s)))"
  by (rule dmabuf_heap_init_cases [of K heap_name n dev params s]) (auto simp: add_mset_commute)

text \<open>
  C36: the descriptor of the DMA heap leaks. After a successful \<open>dmabuf_heap_init\<close> and the
  matching \<open>dmabuf_heap_destroy\<close> the open descriptors are those from before and one more,
  the heap's, which no function of the library closes.
\<close>
theorem dmabuf_destroy_leaks_heap_fd:
  assumes "run_state (dmabuf_heap_init K heap_name n dev params) s = ((0, p), t)"
  shows "live_fds (trace (exec (dmabuf_heap_destroy p) t)) = add_mset (dma_heap_fd p) (live_fds (trace s))"
  by (rule dmabuf_heap_init_cases [of K heap_name n dev params s])
    (use assms in \<open>auto simp: run_simps fd_simps\<close>)

definition blank_params :: dma_buf_params where
  "blank_params = \<lparr>dma_heap_fd = 0, dma_buf_fd = 0, rproc_fd = 0, kern_addr = 0, phys_addr = 0, buf_size = 0\<rparr>"

theorem dmabuf_destroy_leaks_heap_fd_witness:
  "live_fds (trace (exec (dmabuf_heap_destroy
      \<lparr>dma_heap_fd = 3, dma_buf_fd = 70, rproc_fd = 5, kern_addr = 0x7000, phys_addr = 0x90000000, buf_size = 4096\<rparr>)
      (exec (dmabuf_heap_init sample_kernel ''linux,cma'' 4096 ''/dev/remoteproc0'' blank_params) start_world))) = {#3#}"
proof -
  have "run_state (dmabuf_heap_init sample_kernel ''linux,cma'' 4096 ''/dev/remoteproc0'' blank_params) start_world =
      ((0, \<lparr>dma_heap_fd = 3, dma_buf_fd = 70, rproc_fd = 5, kern_addr = 0x7000, phys_addr = 0x90000000, buf_size = 4096\<rparr>),
       exec (dmabuf_heap_init sample_kernel ''linux,cma'' 4096 ''/dev/remoteproc0'' blank_params) start_world)"
    by (simp add: dmabuf_heap_init_def run_simps sample_kernel_def start_world_def blank_params_def MAP_FAILED_def)
  from dmabuf_destroy_leaks_heap_fd [OF this] show ?thesis
    by (simp add: start_world_def fd_simps)
qed

text \<open>
  When every call succeeds, \<open>dmabuf_heap_init\<close> makes exactly the calls open, allocate,
  open, attach, map, in this order and with these arguments, and returns 0 with every field
  of \<open>params\<close> set from the answers. This holds for each 64-bit device address \<open>da\<close>: the
  test meant to refuse addresses the remote end cannot take compares with the largest
  unsigned long and never fires.
\<close>
theorem dmabuf_heap_init_success:
  fixes s :: "'w world_scheme"
  assumes "hfd = k_open K (trace s) (dmaheap_path heap_name) [O_RDWR]" and "0 \<le> hfd"
    and "t1 = trace s @ [Ev_open (dmaheap_path heap_name) [O_RDWR] hfd]"
    and "k_heap_alloc K t1 hfd (ucast n) [O_CLOEXEC, O_RDWR] = (a, data_fd)" and "0 \<le> a"
    and "bfd = sint data_fd" and "0 \<le> bfd"
    and "t2 = t1 @ [Ev_heap_alloc hfd (ucast n) [O_CLOEXEC, O_RDWR] a data_fd]"
    and "rfd = k_open K t2 dev [O_RDONLY]" and "0 \<le> rfd"
    and "t3 = t2 @ [Ev_open dev [O_RDONLY] rfd]"
    and "k_dma_attach K t3 rfd data_fd = (b, da)" and "0 \<le> b"
    and "t4 = t3 @ [Ev_dma_attach rfd data_fd b da]"
    and "addr = k_mmap K t4 (ucast n) bfd" and "addr \<noteq> MAP_FAILED"
  shows "run_state (dmabuf_heap_init K heap_name n dev params) s =
    ((0, params\<lparr>dma_heap_fd := hfd, dma_buf_fd := bfd, rproc_fd := rfd, phys_addr := da,
                kern_addr := addr, buf_size := sint n\<rparr>),
     s\<lparr>trace := t4 @ [Ev_mmap (ucast n) bfd addr]\<rparr>)"
proof -
  have [simp]: "word_of_int (sint data_fd) = data_fd" by simp
  show ?thesis
    using assms by (simp add: dmabuf_heap_init_def run_simps)
qed

theorem dmabuf_heap_init_success_witness:
  "phys_addr (snd (result (dmabuf_heap_init (sample_kernel\<lparr>k_dma_attach := \<lambda>tr fd bfd. (0, 0x8F0000000)\<rparr>)
      ''linux,cma'' 4096 ''/dev/remoteproc0'' blank_params) start_world)) = 0x8F0000000"
  by (subst dmabuf_heap_init_success
        [where hfd = 3 and a = 0 and data_fd = 70 and bfd = 70 and rfd = 5 and b = 0 and da = "0x8F0000000" and addr = "0x7000",
         OF _ _ refl _ _ _ _ refl _ _ refl _ _ refl])
    (simp_all add: sample_kernel_def start_world_def MAP_FAILED_def)

text \<open>
  The convention of the callers in \<^verbatim>\<open>rpmsg.c\<close> (1 starts an access, 0 ends it, as the
  README documents it) does not fit the interface of Linux: both arguments issue the very
  request of \<open>DMA_BUF_SYNC_START\<close>, so an access opened with 1 is never ended by 0. The
  request of \<open>DMA_BUF_SYNC_END\<close> is a different one.
\<close>
theorem dmabuf_sync_start_stop:
  fixes s :: "'w world_scheme"
  assumes "linux_uapi K"
  shows "run_state (dmabuf_sync K fd 1) s = run_state (dmabuf_sync K fd (DMA_BUF_SYNC_START K)) s \<and>
    run_state (dmabuf_sync K fd 0) s = run_state (dmabuf_sync K fd (DMA_BUF_SYNC_START K)) s \<and>
    run_state (dmabuf_sync K fd (DMA_BUF_SYNC_START K)) s \<noteq> run_state (dmabuf_sync K fd (DMA_BUF_SYNC_END K)) s"
proof -
  have "trace (exec (dmabuf_sync K fd (DMA_BUF_SYNC_START K)) s) = trace s @ [Ev_dma_sync fd 3 (k_dma_sync K (trace s) fd 3)]"
    and "trace (exec (dmabuf_sync K fd (DMA_BUF_SYNC_END K)) s) = trace s @ [Ev_dma_sync fd 7 (k_dma_sync K (trace s) fd 7)]"
    using assms by (simp_all add: linux_uapi_def run_simps)
  then show ?thesis
    using assms by (auto simp: linux_uapi_def dmabuf_sync_def)
qed

theorem dmabuf_sync_start_stop_witness:
  "run_state (dmabuf_sync sample_kernel 5 0) start_world = run_state (dmabuf_sync sample_kernel 5 1) start_world"
  using dmabuf_sync_start_stop [OF sample_kernel_contracts(2), of 5 start_world] by simp

text \<open>
  The path of a DMA heap fits the 100-byte buffer for every name; it is
  \<^verbatim>\<open>/dev/dma_heap/\<close> and the whole name for names of at most 85 characters, and a longer
  name is cut to its first 85.
\<close>
theorem dmaheap_path_bounds:
  assumes "NUL \<notin> set heap_name"
  shows "length (dmaheap_path heap_name) < 100 \<and>
    dmaheap_path heap_name = ''/dev/dma_heap/'' @ take 85 heap_name"
  using assms by (simp add: dmaheap_path_def bounded_copy_def)

theorem dmaheap_path_bounds_witness: "dmaheap_path ''linux,cma'' = ''/dev/dma_heap/linux,cma''"
  using dmaheap_path_bounds [of "''linux,cma''"] by simp

end
