(* ===== verification/Rpmsg.thy ===== *)
theory Rpmsg
  imports Dmabuf
begin

text \<open>
  Messages to and from the remote processor, \<^verbatim>\<open>library/src/rpmsg.c\<close>: sending and receiving
  on an endpoint descriptor, opening the endpoint and closing it. A caller's buffer is the
  list of its bytes; the functions that write through a pointer return the buffer as they
  leave it.
\<close>

subsection \<open>The operations\<close>

definition send_msg :: "kernel \<Rightarrow> int \<Rightarrow> string \<Rightarrow> int \<Rightarrow> ('w world_scheme, int) state" where
  "send_msg K fd msg len = do {
     _ \<leftarrow> dmabuf_sync K fd 1;
     check_ub (0 \<le> len \<and> nat len \<le> length msg) Out_of_bounds_read;
     r \<leftarrow> sys_write K fd (take (nat len) msg);
     if r < 0 then ret (-1)
     else do { _ \<leftarrow> dmabuf_sync K fd 0; ret r } }"

text \<open>The status, the reply buffer and \<open>*reply_len\<close> afterwards.\<close>

definition recv_msg ::
  "kernel \<Rightarrow> int \<Rightarrow> int \<Rightarrow> string \<Rightarrow> int \<Rightarrow> ('w world_scheme, int \<times> string \<times> int) state" where
  "recv_msg K fd len reply_msg reply_len = do {
     _ \<leftarrow> dmabuf_sync K fd 1;
     a \<leftarrow> sys_read K fd (nat len);
     let (r, data) = a;
     if r < 0 then ret (-1, reply_msg, reply_len)
     else do {
       check_ub (length data \<le> length reply_msg) Buffer_overflow;
       _ \<leftarrow> dmabuf_sync K fd 0;
       ret (0, store reply_msg data, r) } }"

definition eptdev_name :: "int \<Rightarrow> int \<Rightarrow> string" where
  "eptdev_name rproc_id pid = ''rpmsg-char-'' @ show_int rproc_id @ ''-'' @ show_int pid"

definition init_rpmsg :: "kernel \<Rightarrow> int \<Rightarrow> int \<Rightarrow> ('w world_scheme, int) state" where
  "init_rpmsg K rproc_id rmt_ep = do {
     r \<leftarrow> rpmsg_char_init K;
     if r \<noteq> 0 then ret r
     else do {
       let name = eptdev_name rproc_id (k_getpid K);
       check_ub (length name < 64) Buffer_overflow;
       rcdev \<leftarrow> rpmsg_char_open K rproc_id rmt_ep name;
       case rcdev of None \<Rightarrow> ret (- EPERM K) | Some (fd, endpt) \<Rightarrow> ret fd } }"

definition cleanup_rpmsg :: "int \<Rightarrow> ('w world_scheme, unit) state" where
  "cleanup_rpmsg fd = sys_close fd"

lemmas rpmsg_defs = send_msg_def recv_msg_def init_rpmsg_def cleanup_rpmsg_def

subsection \<open>Lemmas\<close>

abbreviation is_int32 :: "int \<Rightarrow> bool" where
  "is_int32 v \<equiv> - (2 ^ 31) \<le> v \<and> v < 2 ^ 31"

lemma eptdev_name_fits: "is_int32 rproc_id \<Longrightarrow> is_int32 pid \<Longrightarrow> length (eptdev_name rproc_id pid) \<le> 34"
  using length_show_int32 [of rproc_id] length_show_int32 [of pid] by (simp add: eptdev_name_def)

lemma send_msg_fd_neutral: "fd_neutral (send_msg K fd msg len)"
  by (rule preservesI) (simp add: send_msg_def same_fds_def run_simps fd_simps)

lemma recv_msg_fd_neutral: "fd_neutral (recv_msg K fd len reply_msg reply_len)"
  by (rule preservesI) (simp add: recv_msg_def same_fds_def run_simps fd_simps split: prod.splits)

subsection \<open>Properties\<close>

text \<open>
  \<open>init_rpmsg\<close> never overruns its 64-byte name buffer, for every processor number and
  process id that is an \<open>int\<close>. It returns the descriptor of the new endpoint, which is then
  the only descriptor it has opened, or the error of \<open>rpmsg_char_init\<close>, or \<open>-EPERM\<close>, with
  nothing opened.
\<close>
theorem init_rpmsg_outcome:
  assumes "is_int32 rproc_id" and "is_int32 (k_getpid K)"
  shows "let (r, t) = run_state (init_rpmsg K rproc_id rmt_ep) s;
             i = k_rpmsg_init K (trace s);
             a = k_rpmsg_open K (trace s @ [Ev_rpmsg_init i]) rproc_id rmt_ep (eptdev_name rproc_id (k_getpid K))
         in fault t = fault s \<and>
            (if i \<noteq> 0 then r = i \<and> live_fds (trace t) = live_fds (trace s)
             else case a of None \<Rightarrow> r = - EPERM K \<and> live_fds (trace t) = live_fds (trace s)
                  | Some (fd, endpt) \<Rightarrow> r = fd \<and> live_fds (trace t) = add_mset fd (live_fds (trace s)))"
  using eptdev_name_fits [OF assms]
  by (simp add: init_rpmsg_def run_simps fd_simps split: option.split)

theorem init_rpmsg_outcome_witness:
  "result (init_rpmsg sample_kernel 8 14) start_world = 90 \<and>
   fault (exec (init_rpmsg sample_kernel 8 14) start_world) = None"
  using init_rpmsg_outcome [of 8 sample_kernel 14 start_world]
  by (simp add: sample_kernel_def start_world_def split_beta)

text \<open>
  \<open>send_msg\<close> hands exactly the first \<open>len\<close> bytes of the message to one \<open>write\<close> and returns
  what it returned, or -1. On Linux both of its synchronisation calls are the request that
  starts an access, on the message descriptor, and when the write fails the second is left
  out; no request that ends an access is ever made.
\<close>
theorem send_msg_functional:
  fixes s :: "'w world_scheme"
  assumes "linux_uapi K" and "0 \<le> len" and "nat len \<le> length msg"
  shows "let s1 = k_dma_sync K (trace s) fd 3;
             tr = trace s @ [Ev_dma_sync fd 3 s1];
             w = k_write K tr fd (take (nat len) msg);
             tr' = tr @ [Ev_write fd (take (nat len) msg) w]
         in run_state (send_msg K fd msg len) s =
            (if w < 0 then (-1, s\<lparr>trace := tr'\<rparr>)
             else (w, s\<lparr>trace := tr' @ [Ev_dma_sync fd 3 (k_dma_sync K tr' fd 3)]\<rparr>))"
  using assms by (simp add: send_msg_def linux_uapi_def run_simps)

theorem send_msg_functional_witness:
  "result (send_msg sample_kernel 9 ''hello'' 5) start_world = 5"
  using send_msg_functional [OF sample_kernel_contracts(2), of 5 "''hello''" start_world 9]
  by (simp add: sample_kernel_def start_world_def)

text \<open>
  What \<open>recv_msg\<close> receives. With a kernel that keeps the contract of \<open>read\<close> and a reply
  buffer of at least \<open>len\<close> bytes it cannot overrun the buffer: it returns 0 with the bytes of
  the message at the front of the buffer, the rest of the buffer unchanged and the length of
  the message in \<open>*reply_len\<close>, or -1 with buffer and length untouched.
\<close>
theorem recv_msg_functional:
  assumes "read_contract K" and "0 \<le> len" and "nat len \<le> length reply_msg"
    and "run_state (recv_msg K fd len reply_msg reply_len) s = ((r, buf, n), t)"
    and "k_read K (trace s @ [Ev_dma_sync fd q (k_dma_sync K (trace s) fd q)]) fd (nat len) = (k, data)"
    and "q = word_of_int (1 OR DMA_BUF_SYNC_RW K)"
  shows "fault t = fault s \<and>
    (if k < 0 then r = -1 \<and> buf = reply_msg \<and> n = reply_len
     else r = 0 \<and> n = int (length data) \<and> length data \<le> nat len \<and>
          buf = data @ drop (length data) reply_msg)"
proof (cases "k < 0")
  case True
  then show ?thesis
    using assms(4-6) by (auto simp: recv_msg_def run_simps)
next
  case False
  have d: "nat k = length data" "length data \<le> nat len"
    using read_contractD [OF assms(1) assms(5)] False by auto
  moreover have "k = int (length data)" using d(1) False by simp
  ultimately show ?thesis
    using assms(3-6) False by (auto simp: recv_msg_def run_simps store_fits)
qed

theorem recv_msg_functional_witness:
  "fst (snd (result (recv_msg sample_kernel 9 4 ''xxxxxx'' 0) start_world)) = ''offlxx''"
proof -
  obtain r buf n t where run: "run_state (recv_msg sample_kernel 9 4 ''xxxxxx'' 0) start_world = ((r, buf, n), t)"
    by (metis surj_pair)
  have "buf = ''offlxx''"
    using recv_msg_functional [OF sample_kernel_contracts(1) _ _ run _ refl, of 4 "''offl''"]
    by (simp add: sample_kernel_def numeral_nat)
  then show ?thesis using run by simp
qed

end
