(* ===== verification/Config.thy ===== *)
theory Config
  imports Kernel CString
begin

text \<open>
  The configuration, \<^verbatim>\<open>example/audio_offload/src/config.c\<close>: a record of strings on the
  C heap and of numbers, the loader of the \<^verbatim>\<open>KEY=VALUE\<close> file and the clean-up.
  The heap is a list of blocks; a pointer is 0 (NULL) or one more than the index of its
  block, and blocks are never reused, so that freeing a block twice is seen. Whether an
  allocation succeeds is a parameter.
\<close>

subsection \<open>State\<close>

type_synonym ptr = nat

record AppConfig =
  pcm_device :: ptr
  uart_device :: ptr
  rproc_dev_name :: ptr
  dma_heap_reserved :: ptr
  sample_audio_file :: ptr
  fw_link_path :: ptr
  c7_old_fw_path :: ptr
  c7_new_fw_path :: ptr
  c7_state_path :: ptr
  c7_proc_id :: int
  remote_endpoint :: int
  data_buffer_size :: int
  param_buffer_size :: int
  fft_filter_enable :: bool
  is_host_eth_iface :: bool
  is_dsp_execution :: bool
  enable_audio_logging :: bool

record conf_world = world +
  heap :: "string option list"
  app_config :: AppConfig

definition zero_config :: AppConfig where
  "zero_config = \<lparr>pcm_device = 0, uart_device = 0, rproc_dev_name = 0, dma_heap_reserved = 0,
     sample_audio_file = 0, fw_link_path = 0, c7_old_fw_path = 0, c7_new_fw_path = 0, c7_state_path = 0,
     c7_proc_id = 0, remote_endpoint = 0, data_buffer_size = 0, param_buffer_size = 0,
     fft_filter_enable = False, is_host_eth_iface = False, is_dsp_execution = False,
     enable_audio_logging = False\<rparr>"

subsection \<open>The heap\<close>

definition live_block :: "string option list \<Rightarrow> ptr \<Rightarrow> bool" where
  "live_block h p \<longleftrightarrow> 0 < p \<and> p \<le> length h \<and> h ! (p - 1) \<noteq> None"

definition deref :: "string option list \<Rightarrow> ptr \<Rightarrow> string option" where
  "deref h p = (if live_block h p then h ! (p - 1) else None)"

definition free_ptr :: "ptr \<Rightarrow> ('w conf_world_scheme, unit) state" where
  "free_ptr p = do {
     h \<leftarrow> gets heap;
     if p = 0 then ret ()
     else if live_block h p then modify (\<lambda>s. s\<lparr>heap := (heap s)[p - 1 := None]\<rparr>)
     else raise_ub Double_free }"

definition strdup :: "kernel \<Rightarrow> string \<Rightarrow> ('w conf_world_scheme, ptr) state" where
  "strdup K str = do {
     h \<leftarrow> gets heap;
     if k_malloc_ok K (length h) (length str + 1)
     then do { modify (\<lambda>s. s\<lparr>heap := heap s @ [Some str]\<rparr>); ret (Suc (length h)) }
     else ret 0 }"

text \<open>The text a configuration pointer refers to.\<close>

definition c_string :: "ptr \<Rightarrow> ('w conf_world_scheme, string) state" where
  "c_string p = do {
     v \<leftarrow> gets (\<lambda>s. deref (heap s) p);
     case v of None \<Rightarrow> do { raise_ub Invalid_pointer; ret [] } | Some str \<Rightarrow> ret str }"

subsection \<open>Parsing a line\<close>

text \<open>
  \<open>trim\<close> works on the C string \<open>str\<close>: \<open>i\<close> is where the pointer \<open>str\<close> stops, and the loop
  moves \<open>end\<close> down to the last character kept. The caller's pointer does not move, so the
  leading blanks stay, and a blank string is left alone.
\<close>

fun trim_end :: "string \<Rightarrow> nat \<Rightarrow> nat \<Rightarrow> nat" where
  "trim_end str i e = (if i < e \<and> isspace (str ! e) then trim_end str i (e - 1) else e)"

declare trim_end.simps [simp del]

definition trim :: "string \<Rightarrow> string" where
  "trim str =
     (let i = length (takeWhile isspace str)
      in if i = length str then str
         else take (trim_end str i (length str - 1) + 1) str)"

text \<open>\<open>sscanf(line, "%63[^=]=%127[^\n]", key, val) == 2\<close>, with the two strings.\<close>

definition sscanf_key_val :: "string \<Rightarrow> (string \<times> string) option" where
  "sscanf_key_val line =
     (let key = take 63 (takeWhile (\<lambda>c. c \<noteq> CHR ''='') line);
          rest = drop (length key) line
      in if key = [] then None
         else case rest of [] \<Rightarrow> None
           | c # cs \<Rightarrow> if c \<noteq> CHR ''='' then None
               else let val = take 127 (takeWhile (\<lambda>c. c \<noteq> NL) cs)
                    in if val = [] then None else Some (key, val))"

definition parse_line :: "string \<Rightarrow> (string \<times> string) option" where
  "parse_line buf =
     (let line = trim (c_str buf)
      in if line = [] \<or> hd line = CHR ''#'' then None
         else case sscanf_key_val line of None \<Rightarrow> None
           | Some (key, val) \<Rightarrow> Some (trim key, trim val))"

subsection \<open>Loading\<close>

definition replace_string ::
  "kernel \<Rightarrow> (AppConfig \<Rightarrow> ptr) \<Rightarrow> (ptr \<Rightarrow> AppConfig \<Rightarrow> AppConfig) \<Rightarrow> string \<Rightarrow>
     ('w conf_world_scheme, unit) state" where
  "replace_string K get put val = do {
     p \<leftarrow> gets (\<lambda>s. get (app_config s));
     free_ptr p;
     q \<leftarrow> strdup K val;
     modify (\<lambda>s. s\<lparr>app_config := put q (app_config s)\<rparr>) }"

definition set_config :: "(AppConfig \<Rightarrow> AppConfig) \<Rightarrow> ('w conf_world_scheme, unit) state" where
  "set_config f = modify (\<lambda>s. s\<lparr>app_config := f (app_config s)\<rparr>)"

definition apply_setting :: "kernel \<Rightarrow> string \<Rightarrow> string \<Rightarrow> ('w conf_world_scheme, unit) state" where
  "apply_setting K key val =
    (if key = ''PCM_DEVICE'' then replace_string K pcm_device (\<lambda>p c. c\<lparr>pcm_device := p\<rparr>) val
     else if key = ''UART_DEVICE'' then replace_string K uart_device (\<lambda>p c. c\<lparr>uart_device := p\<rparr>) val
     else if key = ''RPROC_DEV_NAME'' then replace_string K rproc_dev_name (\<lambda>p c. c\<lparr>rproc_dev_name := p\<rparr>) val
     else if key = ''DMA_HEAP_RESERVED'' then replace_string K dma_heap_reserved (\<lambda>p c. c\<lparr>dma_heap_reserved := p\<rparr>) val
     else if key = ''SAMPLE_AUDIO_FILE'' then replace_string K sample_audio_file (\<lambda>p c. c\<lparr>sample_audio_file := p\<rparr>) val
     else if key = ''FW_LINK_PATH'' then replace_string K fw_link_path (\<lambda>p c. c\<lparr>fw_link_path := p\<rparr>) val
     else if key = ''C7_OLD_FW_PATH'' then replace_string K c7_old_fw_path (\<lambda>p c. c\<lparr>c7_old_fw_path := p\<rparr>) val
     else if key = ''C7_NEW_FW_PATH'' then replace_string K c7_new_fw_path (\<lambda>p c. c\<lparr>c7_new_fw_path := p\<rparr>) val
     else if key = ''C7_STATE_PATH'' then replace_string K c7_state_path (\<lambda>p c. c\<lparr>c7_state_path := p\<rparr>) val
     else if key = ''C7_PROC_ID'' then set_config (\<lambda>c. c\<lparr>c7_proc_id := atoi val\<rparr>)
     else if key = ''REMOTE_ENDPT'' then set_config (\<lambda>c. c\<lparr>remote_endpoint := atoi val\<rparr>)
     else if key = ''DATA_SIZE'' then set_config (\<lambda>c. c\<lparr>data_buffer_size := atoi val\<rparr>)
     else if key = ''PARAM_SIZE'' then set_config (\<lambda>c. c\<lparr>param_buffer_size := atoi val\<rparr>)
     else if key = ''DSP_EXEC_MODE'' then set_config (\<lambda>c. c\<lparr>is_dsp_execution := atoi val \<noteq> 0\<rparr>)
     else if key = ''HOST_ETH_INTERFACE'' then set_config (\<lambda>c. c\<lparr>is_host_eth_iface := atoi val \<noteq> 0\<rparr>)
     else if key = ''FILTER_ENABLE'' then set_config (\<lambda>c. c\<lparr>fft_filter_enable := atoi val \<noteq> 0\<rparr>)
     else if key = ''AUDIO_LOGGING_ENABLE'' then set_config (\<lambda>c. c\<lparr>enable_audio_logging := atoi val \<noteq> 0\<rparr>)
     else ret ())"

definition process_line :: "kernel \<Rightarrow> string \<Rightarrow> ('w conf_world_scheme, unit) state" where
  "process_line K buf =
     (case parse_line buf of None \<Rightarrow> ret () | Some (key, val) \<Rightarrow> apply_setting K key val)"

fun process_lines :: "kernel \<Rightarrow> string list \<Rightarrow> ('w conf_world_scheme, unit) state" where
  "process_lines K [] = ret ()"
| "process_lines K (l # ls) = do { process_line K l; process_lines K ls }"

text \<open>The buffer of 256 bytes holds 255 characters of a line.\<close>

definition load_config :: "kernel \<Rightarrow> string \<Rightarrow> ('w conf_world_scheme, unit) state" where
  "load_config K filename = do {
     fp \<leftarrow> fopen_r K filename;
     case fp of None \<Rightarrow> ret ()
     | Some content \<Rightarrow> do {
         process_lines K (fgets_all 254 content);
         emit (Ev_fclose filename) } }"

definition init_config_defaults :: "kernel \<Rightarrow> ('w conf_world_scheme, unit) state" where
  "init_config_defaults K = do {
     p \<leftarrow> strdup K ''default''; set_config (\<lambda>c. c\<lparr>pcm_device := p\<rparr>);
     p \<leftarrow> strdup K ''/dev/ttyS2''; set_config (\<lambda>c. c\<lparr>uart_device := p\<rparr>);
     p \<leftarrow> strdup K ''/dev/remoteproc0''; set_config (\<lambda>c. c\<lparr>rproc_dev_name := p\<rparr>);
     p \<leftarrow> strdup K ''linux,cma''; set_config (\<lambda>c. c\<lparr>dma_heap_reserved := p\<rparr>);
     p \<leftarrow> strdup K ''/opt/sample.wav''; set_config (\<lambda>c. c\<lparr>sample_audio_file := p\<rparr>);
     p \<leftarrow> strdup K ''/lib/firmware/am62a-c71_0-fw''; set_config (\<lambda>c. c\<lparr>fw_link_path := p\<rparr>);
     p \<leftarrow> strdup K ''/lib/firmware/ti-ipc/am62axx-c71-fw-old.xe71''; set_config (\<lambda>c. c\<lparr>c7_old_fw_path := p\<rparr>);
     p \<leftarrow> strdup K ''/lib/firmware/ti-ipc/am62axx-c71-fw-new.xe71''; set_config (\<lambda>c. c\<lparr>c7_new_fw_path := p\<rparr>);
     p \<leftarrow> strdup K ''/sys/class/remoteproc/remoteproc0/state''; set_config (\<lambda>c. c\<lparr>c7_state_path := p\<rparr>);
     set_config (\<lambda>c. c\<lparr>c7_proc_id := 8, remote_endpoint := 14, data_buffer_size := 4096,
       param_buffer_size := 4096, fft_filter_enable := True, is_host_eth_iface := True,
       is_dsp_execution := True, enable_audio_logging := False\<rparr>) }"

definition cleanup_config :: "('w conf_world_scheme, unit) state" where
  "cleanup_config = do {
     p \<leftarrow> gets (\<lambda>s. pcm_device (app_config s)); free_ptr p;
     p \<leftarrow> gets (\<lambda>s. uart_device (app_config s)); free_ptr p;
     p \<leftarrow> gets (\<lambda>s. rproc_dev_name (app_config s)); free_ptr p;
     p \<leftarrow> gets (\<lambda>s. dma_heap_reserved (app_config s)); free_ptr p;
     p \<leftarrow> gets (\<lambda>s. sample_audio_file (app_config s)); free_ptr p }"

subsection \<open>The string fields as a family\<close>

datatype sfield = PCM_DEVICE | UART_DEVICE | RPROC_DEV_NAME | DMA_HEAP_RESERVED | SAMPLE_AUDIO_FILE
  | FW_LINK_PATH | C7_OLD_FW_PATH | C7_NEW_FW_PATH | C7_STATE_PATH

primrec get_str :: "sfield \<Rightarrow> AppConfig \<Rightarrow> ptr" where
  "get_str PCM_DEVICE = pcm_device"
| "get_str UART_DEVICE = uart_device"
| "get_str RPROC_DEV_NAME = rproc_dev_name"
| "get_str DMA_HEAP_RESERVED = dma_heap_reserved"
| "get_str SAMPLE_AUDIO_FILE = sample_audio_file"
| "get_str FW_LINK_PATH = fw_link_path"
| "get_str C7_OLD_FW_PATH = c7_old_fw_path"
| "get_str C7_NEW_FW_PATH = c7_new_fw_path"
| "get_str C7_STATE_PATH = c7_state_path"

primrec put_str :: "sfield \<Rightarrow> ptr \<Rightarrow> AppConfig \<Rightarrow> AppConfig" where
  "put_str PCM_DEVICE = (\<lambda>p c. c\<lparr>pcm_device := p\<rparr>)"
| "put_str UART_DEVICE = (\<lambda>p c. c\<lparr>uart_device := p\<rparr>)"
| "put_str RPROC_DEV_NAME = (\<lambda>p c. c\<lparr>rproc_dev_name := p\<rparr>)"
| "put_str DMA_HEAP_RESERVED = (\<lambda>p c. c\<lparr>dma_heap_reserved := p\<rparr>)"
| "put_str SAMPLE_AUDIO_FILE = (\<lambda>p c. c\<lparr>sample_audio_file := p\<rparr>)"
| "put_str FW_LINK_PATH = (\<lambda>p c. c\<lparr>fw_link_path := p\<rparr>)"
| "put_str C7_OLD_FW_PATH = (\<lambda>p c. c\<lparr>c7_old_fw_path := p\<rparr>)"
| "put_str C7_NEW_FW_PATH = (\<lambda>p c. c\<lparr>c7_new_fw_path := p\<rparr>)"
| "put_str C7_STATE_PATH = (\<lambda>p c. c\<lparr>c7_state_path := p\<rparr>)"

primrec skey :: "sfield \<Rightarrow> string" where
  "skey PCM_DEVICE = ''PCM_DEVICE''"
| "skey UART_DEVICE = ''UART_DEVICE''"
| "skey RPROC_DEV_NAME = ''RPROC_DEV_NAME''"
| "skey DMA_HEAP_RESERVED = ''DMA_HEAP_RESERVED''"
| "skey SAMPLE_AUDIO_FILE = ''SAMPLE_AUDIO_FILE''"
| "skey FW_LINK_PATH = ''FW_LINK_PATH''"
| "skey C7_OLD_FW_PATH = ''C7_OLD_FW_PATH''"
| "skey C7_NEW_FW_PATH = ''C7_NEW_FW_PATH''"
| "skey C7_STATE_PATH = ''C7_STATE_PATH''"

lemma apply_setting_string: "apply_setting K (skey f) val = replace_string K (get_str f) (put_str f) val"
  by (cases f) (simp_all add: apply_setting_def)

text \<open>
  Ownership: every pointer of the configuration is NULL or a live block of its own, and no
  other block is live. The laws of a family of pointer fields suffice to keep it.
\<close>

definition owned_by :: "('f \<Rightarrow> 'c \<Rightarrow> ptr) \<Rightarrow> string option list \<Rightarrow> 'c \<Rightarrow> bool" where
  "owned_by get h c \<longleftrightarrow>
     (\<forall>f. get f c \<noteq> 0 \<longrightarrow> live_block h (get f c)) \<and>
     (\<forall>f g. get f c = get g c \<longrightarrow> get f c \<noteq> 0 \<longrightarrow> f = g) \<and>
     (\<forall>p. live_block h p \<longrightarrow> (\<exists>f. get f c = p))"

definition free_block :: "string option list \<Rightarrow> ptr \<Rightarrow> string option list" where
  "free_block h p = (if p = 0 then h else h[p - 1 := None])"

definition new_block :: "bool \<Rightarrow> string option list \<Rightarrow> string \<Rightarrow> ptr \<times> string option list" where
  "new_block ok h v = (if ok then (Suc (length h), h @ [Some v]) else (0, h))"

lemma live_block_0 [simp]: "\<not> live_block h 0"
  by (simp add: live_block_def)

lemma length_free_block [simp]: "length (free_block h p) = length h"
  by (simp add: free_block_def)

lemma live_free_block [simp]: "live_block (free_block h p) q \<longleftrightarrow> live_block h q \<and> q \<noteq> p"
  by (cases "q = p") (auto simp: live_block_def free_block_def nth_list_update)

lemma deref_free_block: "deref (free_block h p) q = (if q = p then None else deref h q)"
  by (cases "q = p") (auto simp: deref_def free_block_def live_block_def nth_list_update)

lemma live_append [simp]: "live_block (h @ [Some v]) q \<longleftrightarrow> live_block h q \<or> q = Suc (length h)"
  by (auto simp: live_block_def nth_append)

lemma deref_append: "deref (h @ [Some v]) q = (if q = Suc (length h) then Some v else deref h q)"
  by (auto simp: deref_def live_block_def nth_append)

lemma live_block_le: "live_block h p \<Longrightarrow> p \<le> length h"
  by (simp add: live_block_def)

locale pointer_fields =
  fixes get :: "'f \<Rightarrow> 'c \<Rightarrow> ptr" and put :: "'f \<Rightarrow> ptr \<Rightarrow> 'c \<Rightarrow> 'c"
  assumes get_put [simp]: "get f (put g p c) = (if f = g then p else get f c)"
begin

lemma owned_pointer: "owned_by get h c \<Longrightarrow> get f c = 0 \<or> live_block h (get f c)"
  by (auto simp: owned_by_def)

lemma owned_distinct: "owned_by get h c \<Longrightarrow> f \<noteq> g \<Longrightarrow> get f c \<noteq> 0 \<Longrightarrow> get f c \<noteq> get g c"
  by (auto simp: owned_by_def)

lemma replace_owned:
  assumes own: "owned_by get h c" and q: "new_block ok (free_block h (get f c)) v = (q, h')"
  shows "owned_by get h' (put f q c)"
proof (cases ok)
  case True
  then have q': "q = Suc (length h)" "h' = free_block h (get f c) @ [Some v]"
    using q by (auto simp: new_block_def)
  have fresh: "get g c \<noteq> Suc (length h)" for g
    using owned_pointer [OF own, of g] live_block_le [of h "get g c"] by auto
  show ?thesis
    using own fresh unfolding owned_by_def q' by (auto; metis get_put)
next
  case False
  then have "q = 0" "h' = free_block h (get f c)"
    using q by (auto simp: new_block_def)
  then show ?thesis
    using own unfolding owned_by_def by (auto; metis get_put)
qed

lemma replace_deref:
  assumes own: "owned_by get h c" and q: "new_block ok (free_block h (get f c)) v = (q, h')"
  shows "deref h' (get g (put f q c)) =
    (if g = f then (if ok then Some v else None) else deref h (get g c))"
proof -
  have "get g c \<noteq> Suc (length h)"
    using owned_pointer [OF own, of g] live_block_le [of h "get g c"] by auto
  moreover have "get g c = 0 \<or> get g c \<noteq> get f c" if "g \<noteq> f"
    using owned_distinct [OF own that] by auto
  ultimately show ?thesis
    using q by (auto simp: new_block_def deref_append deref_free_block deref_def [of _ 0] split: if_splits)
qed

lemma free_fields_live:
  "live_block (fold (\<lambda>f h. free_block h (get f c)) fs h) p \<longleftrightarrow>
     live_block h p \<and> (\<forall>f \<in> set fs. get f c \<noteq> p)"
  by (induction fs arbitrary: h) auto

end

interpretation cfg: pointer_fields get_str put_str
  by unfold_locales (rename_tac f g p c, case_tac f; case_tac g; simp)

subsection \<open>The number fields\<close>

datatype nfield = C7_PROC_ID | REMOTE_ENDPT | DATA_SIZE | PARAM_SIZE
  | DSP_EXEC_MODE | HOST_ETH_INTERFACE | FILTER_ENABLE | AUDIO_LOGGING_ENABLE

primrec nkey :: "nfield \<Rightarrow> string" where
  "nkey C7_PROC_ID = ''C7_PROC_ID''"
| "nkey REMOTE_ENDPT = ''REMOTE_ENDPT''"
| "nkey DATA_SIZE = ''DATA_SIZE''"
| "nkey PARAM_SIZE = ''PARAM_SIZE''"
| "nkey DSP_EXEC_MODE = ''DSP_EXEC_MODE''"
| "nkey HOST_ETH_INTERFACE = ''HOST_ETH_INTERFACE''"
| "nkey FILTER_ENABLE = ''FILTER_ENABLE''"
| "nkey AUDIO_LOGGING_ENABLE = ''AUDIO_LOGGING_ENABLE''"

primrec get_num :: "nfield \<Rightarrow> AppConfig \<Rightarrow> int" where
  "get_num C7_PROC_ID = c7_proc_id"
| "get_num REMOTE_ENDPT = remote_endpoint"
| "get_num DATA_SIZE = data_buffer_size"
| "get_num PARAM_SIZE = param_buffer_size"
| "get_num DSP_EXEC_MODE = (\<lambda>c. of_bool (is_dsp_execution c))"
| "get_num HOST_ETH_INTERFACE = (\<lambda>c. of_bool (is_host_eth_iface c))"
| "get_num FILTER_ENABLE = (\<lambda>c. of_bool (fft_filter_enable c))"
| "get_num AUDIO_LOGGING_ENABLE = (\<lambda>c. of_bool (enable_audio_logging c))"

text \<open>The value a setting gives a field: a \<open>bool\<close> field stores whether the number is not 0.\<close>

definition num_of :: "nfield \<Rightarrow> string \<Rightarrow> int" where
  "num_of f val =
     (if f \<in> {DSP_EXEC_MODE, HOST_ETH_INTERFACE, FILTER_ENABLE, AUDIO_LOGGING_ENABLE}
      then of_bool (atoi val \<noteq> 0) else atoi val)"

lemma skey_eq [simp]: "skey f = skey g \<longleftrightarrow> f = g"
  by (cases f; cases g; simp)

lemma nkey_eq [simp]: "nkey f = nkey g \<longleftrightarrow> f = g"
  by (cases f; cases g; simp)

lemma skey_nkey [simp]: "skey f \<noteq> nkey g" "nkey g \<noteq> skey f"
  by (cases f; cases g; simp)+

lemma get_num_put_str [simp]: "get_num f (put_str g p c) = get_num f c"
  by (cases f; cases g; simp)

primrec set_num :: "nfield \<Rightarrow> string \<Rightarrow> AppConfig \<Rightarrow> AppConfig" where
  "set_num C7_PROC_ID = (\<lambda>v c. c\<lparr>c7_proc_id := atoi v\<rparr>)"
| "set_num REMOTE_ENDPT = (\<lambda>v c. c\<lparr>remote_endpoint := atoi v\<rparr>)"
| "set_num DATA_SIZE = (\<lambda>v c. c\<lparr>data_buffer_size := atoi v\<rparr>)"
| "set_num PARAM_SIZE = (\<lambda>v c. c\<lparr>param_buffer_size := atoi v\<rparr>)"
| "set_num DSP_EXEC_MODE = (\<lambda>v c. c\<lparr>is_dsp_execution := atoi v \<noteq> 0\<rparr>)"
| "set_num HOST_ETH_INTERFACE = (\<lambda>v c. c\<lparr>is_host_eth_iface := atoi v \<noteq> 0\<rparr>)"
| "set_num FILTER_ENABLE = (\<lambda>v c. c\<lparr>fft_filter_enable := atoi v \<noteq> 0\<rparr>)"
| "set_num AUDIO_LOGGING_ENABLE = (\<lambda>v c. c\<lparr>enable_audio_logging := atoi v \<noteq> 0\<rparr>)"

lemma apply_setting_num: "apply_setting K (nkey f) val = set_config (set_num f val)"
  by (cases f) (simp_all add: apply_setting_def)

lemma get_str_set_num [simp]: "get_str f (set_num g v c) = get_str f c"
  by (cases f; cases g; simp)

lemma get_num_set_num [simp]: "get_num f (set_num g v c) = (if f = g then num_of f v else get_num f c)"
  by (cases f; cases g; simp add: num_of_def)

lemma apply_setting_other:
  assumes "\<And>f. key \<noteq> skey f" and "\<And>f. key \<noteq> nkey f"
  shows "apply_setting K key val = ret ()"
  using assms(1) [of PCM_DEVICE]
    assms(1) [of UART_DEVICE]
    assms(1) [of RPROC_DEV_NAME]
    assms(1) [of DMA_HEAP_RESERVED]
    assms(1) [of SAMPLE_AUDIO_FILE]
    assms(1) [of FW_LINK_PATH]
    assms(1) [of C7_OLD_FW_PATH]
    assms(1) [of C7_NEW_FW_PATH]
    assms(1) [of C7_STATE_PATH]
    assms(2) [of C7_PROC_ID]
    assms(2) [of REMOTE_ENDPT]
    assms(2) [of DATA_SIZE]
    assms(2) [of PARAM_SIZE]
    assms(2) [of DSP_EXEC_MODE]
    assms(2) [of HOST_ETH_INTERFACE]
    assms(2) [of FILTER_ENABLE]
    assms(2) [of AUDIO_LOGGING_ENABLE]
  by (simp add: apply_setting_def)

subsection \<open>What loading does to memory and to the settings\<close>

definition owned :: "'w conf_world_scheme \<Rightarrow> bool" where
  "owned s \<longleftrightarrow> owned_by get_str (heap s) (app_config s)"

definition str_view :: "'w conf_world_scheme \<Rightarrow> sfield \<Rightarrow> string option" where
  "str_view s f = deref (heap s) (get_str f (app_config s))"

definition num_view :: "'w conf_world_scheme \<Rightarrow> nfield \<Rightarrow> int" where
  "num_view s f = get_num f (app_config s)"

lemma run_free_ptr:
  "p = 0 \<or> live_block (heap s) p \<Longrightarrow>
     run_state (free_ptr p) s = ((), s\<lparr>heap := free_block (heap s) p\<rparr>)"
  by (auto simp: free_ptr_def free_block_def run_simps)

lemma run_c_string:
  "run_state (c_string p) s = (case deref (heap s) p of
     None \<Rightarrow> ([], if fault s = None then s\<lparr>fault := Some Invalid_pointer\<rparr> else s) | Some str \<Rightarrow> (str, s))"
  by (simp add: c_string_def run_raise_ub split: option.split)

lemma run_strdup:
  "run_state (strdup K v) s =
     (let (q, h) = new_block (k_malloc_ok K (length (heap s)) (length v + 1)) (heap s) v
      in (q, s\<lparr>heap := h\<rparr>))"
  by (simp add: strdup_def new_block_def)

lemma run_replace_string:
  assumes "owned s"
  obtains q h where
      "new_block (k_malloc_ok K (length (heap s)) (length v + 1))
         (free_block (heap s) (get_str f (app_config s))) v = (q, h)"
      "run_state (replace_string K (get_str f) (put_str f) v) s =
         ((), s\<lparr>heap := h, app_config := put_str f q (app_config s)\<rparr>)"
proof -
  have "get_str f (app_config s) = 0 \<or> live_block (heap s) (get_str f (app_config s))"
    using assms by (simp add: owned_def cfg.owned_pointer)
  then show thesis
    by (intro that [OF prod.collapse [symmetric]])
      (simp add: replace_string_def run_free_ptr run_strdup split_beta Let_def)
qed

lemma apply_setting_step:
  fixes K :: kernel and key v :: string
  assumes own: "owned s"
  defines "t \<equiv> exec (apply_setting K key v) s"
  shows "owned t" and "fault t = fault s" and "trace t = trace s"
    and "str_view t f = (if key = skey f
           then (if k_malloc_ok K (length (heap s)) (length v + 1) then Some v else None)
           else str_view s f)"
    and "num_view t n = (if key = nkey n then num_of n v else num_view s n)"
proof -
  consider (str) g where "key = skey g" | (num) g where "key = nkey g"
    | (other) "\<And>g. key \<noteq> skey g" "\<And>g. key \<noteq> nkey g" by blast
  then have "owned t \<and> fault t = fault s \<and> trace t = trace s \<and>
    str_view t f = (if key = skey f
           then (if k_malloc_ok K (length (heap s)) (length v + 1) then Some v else None)
           else str_view s f) \<and>
    num_view t n = (if key = nkey n then num_of n v else num_view s n)"
  proof cases
    case str
    obtain q h where q: "new_block (k_malloc_ok K (length (heap s)) (length v + 1))
         (free_block (heap s) (get_str g (app_config s))) v = (q, h)"
      and run: "run_state (replace_string K (get_str g) (put_str g) v) s =
         ((), s\<lparr>heap := h, app_config := put_str g q (app_config s)\<rparr>)"
      by (rule run_replace_string [OF own])
    show ?thesis
      using cfg.replace_owned [OF own [unfolded owned_def] q]
        cfg.replace_deref [OF own [unfolded owned_def] q]
      by (auto simp: t_def str apply_setting_string run owned_def str_view_def num_view_def)
  next
    case num
    then show ?thesis
      using own by (simp add: t_def apply_setting_num set_config_def owned_def owned_by_def str_view_def num_view_def)
  next
    case other
    then show ?thesis
      using own by (auto simp: t_def apply_setting_other)
  qed
  then show "owned t" and "fault t = fault s" and "trace t = trace s"
    and "str_view t f = (if key = skey f
           then (if k_malloc_ok K (length (heap s)) (length v + 1) then Some v else None)
           else str_view s f)"
    and "num_view t n = (if key = nkey n then num_of n v else num_view s n)"
    by auto
qed

text \<open>The settings a file makes, in the order of its lines.\<close>

definition settings :: "string list \<Rightarrow> (string \<times> string) list" where
  "settings ls = List.map_filter parse_line ls"

lemma settings_simps [simp]:
  "settings [] = []"
  "settings (l # ls) = (case parse_line l of None \<Rightarrow> settings ls | Some kv \<Rightarrow> kv # settings ls)"
  by (simp_all add: settings_def map_filter_simps split: option.split)

lemma process_lines_memory:
  "owned s \<Longrightarrow> owned (exec (process_lines K ls) s) \<and>
     fault (exec (process_lines K ls) s) = fault s \<and> trace (exec (process_lines K ls) s) = trace s"
proof (induction ls arbitrary: s)
  case Nil
  then show ?case by simp
next
  case (Cons l ls)
  show ?case
    using Cons.prems Cons.IH apply_setting_step(1-3) [OF Cons.prems]
    by (auto simp: process_line_def split_beta split: option.split)
qed

lemma process_lines_views:
  assumes "owned s" and ok: "\<And>blocks n. k_malloc_ok K blocks n"
  shows "str_view (exec (process_lines K ls) s) f =
      (case map_of (rev (settings ls)) (skey f) of None \<Rightarrow> str_view s f | Some v \<Rightarrow> Some v) \<and>
    num_view (exec (process_lines K ls) s) n =
      (case map_of (rev (settings ls)) (nkey n) of None \<Rightarrow> num_view s n | Some v \<Rightarrow> num_of n v)"
  using assms(1)
proof (induction ls arbitrary: s)
  case Nil
  then show ?case by simp
next
  case (Cons l ls)
  show ?case
  proof (cases "parse_line l")
    case None
    then show ?thesis using Cons by (simp add: process_line_def split_beta)
  next
    case (Some kv)
    obtain k v where kv: "kv = (k, v)" by fastforce
    note step = apply_setting_step [OF Cons.prems, of K k v]
    show ?thesis
      using Cons.IH [OF step(1)] step(4) [of f] step(5) [of n] ok Some kv
      by (auto simp: process_line_def split_beta map_add_def split: option.split)
  qed
qed

subsection \<open>Trimming and parsing\<close>

definition rstrip :: "string \<Rightarrow> string" where
  "rstrip str = rev (dropWhile isspace (rev str))"

lemma rstrip_id: "str = [] \<or> \<not> isspace (last str) \<Longrightarrow> rstrip str = str"
  by (cases str rule: rev_cases) (simp_all add: rstrip_def)

lemma rstrip_space: "isspace c \<Longrightarrow> rstrip (str @ [c]) = rstrip str"
  by (simp add: rstrip_def)

lemma trim_end_rstrip:
  "i \<le> e \<Longrightarrow> e < length str \<Longrightarrow> \<not> isspace (str ! i) \<Longrightarrow>
     take (trim_end str i e + 1) str = rstrip (take (e + 1) str)"
proof (induction str i e rule: trim_end.induct)
  case (1 str i e)
  have snoc: "take (e + 1) str = take e str @ [str ! e]"
    using 1(3) by (simp add: take_Suc_conv_app_nth)
  show ?case
  proof (cases "i < e \<and> isspace (str ! e)")
    case True
    then have "trim_end str i e = trim_end str i (e - 1)"
      by (subst trim_end.simps) simp
    moreover have "rstrip (take (e + 1) str) = rstrip (take e str)"
      using True by (simp only: snoc rstrip_space)
    moreover have "i \<le> e - Suc 0" "e - Suc 0 < length str"
      using 1(3) True by auto
    ultimately show ?thesis
      using 1(1,4) True by simp
  next
    case False
    then have "trim_end str i e = e" "\<not> isspace (str ! e)"
      using 1(2,4) by (auto simp: trim_end.simps [of str i e])
    then show ?thesis
      using snoc by (simp add: rstrip_id)
  qed
qed

lemma trim_eq: "trim str = (if list_all isspace str then str else rstrip str)"
proof (cases "list_all isspace str")
  case True
  then show ?thesis
    by (simp add: trim_def list_all_iff takeWhile_eq_all_conv [THEN iffD2])
next
  case False
  let ?i = "length (takeWhile isspace str)"
  have i: "?i < length str"
    using False by (metis length_takeWhile_le le_neq_implies_less list_all_iff takeWhile_eq_all_conv
        takeWhile_eq_take_length take_all order_refl)
  then have "\<not> isspace (str ! ?i)" by (rule nth_length_takeWhile)
  then show ?thesis
    using trim_end_rstrip [of ?i "length str - 1" str] i False by (auto simp: trim_def Let_def)
qed

lemma trim_last [simp]: "str \<noteq> [] \<Longrightarrow> \<not> isspace (last str) \<Longrightarrow> trim str = str"
  by (simp add: trim_eq rstrip_id)

text \<open>A setting that can be written to the file as it is.\<close>

definition plain_setting :: "string \<times> string \<Rightarrow> bool" where
  "plain_setting kv \<longleftrightarrow>
     (case kv of (k, v) \<Rightarrow>
       k \<noteq> [] \<and> v \<noteq> [] \<and> length k \<le> 63 \<and> length v \<le> 127 \<and> hd k \<noteq> CHR ''#'' \<and>
       \<not> isspace (last k) \<and> \<not> isspace (last v) \<and> CHR ''='' \<notin> set k \<and>
       NUL \<notin> set k \<and> NUL \<notin> set v \<and> NL \<notin> set k \<and> NL \<notin> set v)"

definition render_setting :: "string \<times> string \<Rightarrow> string" where
  "render_setting kv = fst kv @ CHR ''='' # snd kv @ [NL]"

lemma parse_render: "plain_setting kv \<Longrightarrow> parse_line (fst kv @ CHR ''='' # snd kv @ [NL]) = Some kv"
proof -
  assume plain: "plain_setting kv"
  obtain k v where kv: "kv = (k, v)" by fastforce
  let ?line = "k @ CHR ''='' # v"
  have last: "\<not> isspace (last ?line)" using plain kv by (simp add: plain_setting_def)
  then have "\<not> list_all isspace (?line @ [NL])"
    using plain kv last_in_set [of v] by (auto simp: plain_setting_def list_all_iff)
  moreover have "rstrip (?line @ [NL]) = ?line"
    using last by (subst rstrip_space) (simp_all add: isspace_def rstrip_id)
  ultimately have line: "trim (?line @ [NL]) = ?line" by (simp add: trim_eq)
  have clean: "c_str (?line @ [NL]) = ?line @ [NL]"
    using plain kv by (simp add: plain_setting_def)
  have "takeWhile (\<lambda>c. c \<noteq> CHR ''='') ?line = k" "takeWhile (\<lambda>c. c \<noteq> NL) v = v"
    using plain kv by (auto simp: plain_setting_def takeWhile_eq_all_conv)
  then have "sscanf_key_val ?line = Some (k, v)"
    using plain kv by (simp add: sscanf_key_val_def plain_setting_def del: takeWhile_eq_all_conv)
  then show ?thesis
    using plain clean line by (simp add: parse_line_def kv plain_setting_def Let_def)
qed

lemma settings_render:
  "list_all plain_setting kvs \<Longrightarrow> settings (fgets_all 254 (concat (map render_setting kvs))) = kvs"
proof (induction kvs)
  case Nil
  then show ?case by (simp add: fgets_all.simps)
next
  case (Cons kv kvs)
  obtain k v where kv: "kv = (k, v)" by fastforce
  have "fgets_all 254 ((k @ CHR ''='' # v) @ NL # concat (map render_setting kvs)) =
      ((k @ CHR ''='' # v) @ [NL]) # fgets_all 254 (concat (map render_setting kvs))"
    by (rule fgets_all_Cons) (use Cons.prems kv in \<open>auto simp: plain_setting_def\<close>)
  moreover have "render_setting kv = k @ CHR ''='' # v @ [NL]"
    by (simp add: kv render_setting_def)
  ultimately show ?case
    using Cons parse_render [of kv] kv by simp
qed

subsection \<open>Cleaning up\<close>

definition freed_fields :: "sfield list" where
  "freed_fields = [PCM_DEVICE, UART_DEVICE, RPROC_DEV_NAME, DMA_HEAP_RESERVED, SAMPLE_AUDIO_FILE]"

definition kept_fields :: "sfield list" where
  "kept_fields = [FW_LINK_PATH, C7_OLD_FW_PATH, C7_NEW_FW_PATH, C7_STATE_PATH]"

lemma field_split: "f \<in> set freed_fields \<longleftrightarrow> f \<notin> set kept_fields"
  by (cases f) (simp_all add: freed_fields_def kept_fields_def)

fun free_fields :: "sfield list \<Rightarrow> ('w conf_world_scheme, unit) state" where
  "free_fields [] = ret ()"
| "free_fields (f # fs) = do { p \<leftarrow> gets (\<lambda>s. get_str f (app_config s)); free_ptr p; free_fields fs }"

lemma cleanup_fields: "cleanup_config = free_fields freed_fields"
  by (rule state_ext) (simp add: cleanup_config_def freed_fields_def split_beta)

lemma run_free_fields:
  assumes "distinct fs"
    and "\<And>f. f \<in> set fs \<Longrightarrow> get_str f (app_config s) = 0 \<or> live_block (heap s) (get_str f (app_config s))"
    and "\<And>f g. f \<noteq> g \<Longrightarrow> get_str f (app_config s) \<noteq> 0 \<Longrightarrow> get_str f (app_config s) \<noteq> get_str g (app_config s)"
  shows "run_state (free_fields fs) s =
    ((), s\<lparr>heap := fold (\<lambda>f h. free_block h (get_str f (app_config s))) fs (heap s)\<rparr>)"
  using assms
proof (induction fs arbitrary: s)
  case Nil
  then show ?case by simp
next
  case (Cons f fs)
  let ?t = "s\<lparr>heap := free_block (heap s) (get_str f (app_config s))\<rparr>"
  have "run_state (free_ptr (get_str f (app_config s))) s = ((), ?t)"
    using Cons.prems(2) [of f] by (intro run_free_ptr) simp
  moreover have "run_state (free_fields fs) ?t =
      ((), ?t\<lparr>heap := fold (\<lambda>f h. free_block h (get_str f (app_config ?t))) fs (heap ?t)\<rparr>)"
  proof (rule Cons.IH)
    fix g assume "g \<in> set fs"
    then show "get_str g (app_config ?t) = 0 \<or> live_block (heap ?t) (get_str g (app_config ?t))"
      using Cons.prems(1,2) Cons.prems(3) [of g f] by fastforce
  qed (use Cons.prems in auto)
  ultimately show ?case by simp
qed

lemma run_cleanup:
  "owned s \<Longrightarrow> run_state cleanup_config s =
    ((), s\<lparr>heap := fold (\<lambda>f h. free_block h (get_str f (app_config s))) freed_fields (heap s)\<rparr>)"
  unfolding cleanup_fields
  by (rule run_free_fields) (auto simp: owned_def freed_fields_def dest: cfg.owned_pointer cfg.owned_distinct)

lemma free_dead:
  "p = 0 \<or> \<not> live_block (heap s) p \<Longrightarrow>
     run_state (free_ptr p) s =
       ((), if p = 0 \<or> fault s \<noteq> None then s else s\<lparr>fault := Some Double_free\<rparr>)"
  by (auto simp: free_ptr_def run_simps)

lemma free_dead_fields:
  assumes "\<And>f. f \<in> set fs \<Longrightarrow> get_str f (app_config s) = 0 \<or> \<not> live_block (heap s) (get_str f (app_config s))"
  shows "run_state (free_fields fs) s =
    ((), if fault s \<noteq> None \<or> list_all (\<lambda>f. get_str f (app_config s) = 0) fs then s
         else s\<lparr>fault := Some Double_free\<rparr>)"
  using assms
proof (induction fs arbitrary: s)
  case Nil
  then show ?case by simp
next
  case (Cons f fs)
  then show ?case
    using free_dead [of "get_str f (app_config s)" s] by auto
qed

subsection \<open>Properties\<close>

definition start_conf :: conf_world where
  "start_conf = \<lparr>trace = [], fault = None, heap = [], app_config = zero_config\<rparr>"

lemma start_conf_owned: "owned start_conf"
proof -
  have "get_str f zero_config = 0" for f by (cases f) (simp_all add: zero_config_def)
  then show ?thesis by (simp add: owned_def owned_by_def start_conf_def live_block_def)
qed

text \<open>
  C15: \<open>load_config\<close> is memory safe, for every file and even when allocations fail. If every
  string of the configuration is NULL or owns a block of its own and nothing else is
  allocated, the same holds afterwards: no block is freed twice, none is lost and no two
  settings share one.
\<close>
theorem load_config_memory_safe:
  assumes "owned s"
  shows "owned (exec (load_config K filename) s) \<and> fault (exec (load_config K filename) s) = fault s"
proof -
  have "owned (s\<lparr>trace := tr\<rparr>) = owned s" for tr by (simp add: owned_def)
  then show ?thesis
    using assms process_lines_memory [of "s\<lparr>trace := tr\<rparr>" K for tr]
    by (auto simp: load_config_def run_simps split_beta owned_def split: option.split)
qed

theorem load_config_memory_safe_witness:
  "owned (exec (load_config sample_kernel ''/etc/dsp_offload.cfg'') start_conf) \<and>
   fault (exec (load_config sample_kernel ''/etc/dsp_offload.cfg'') start_conf) = None"
  using load_config_memory_safe [OF start_conf_owned] by (simp add: start_conf_def)

text \<open>
  C5: what the settings are after \<open>load_config\<close>. Every field whose key occurs in the file has
  the value of its last occurrence, a number read as \<open>atoi\<close> does and a switch as "not 0";
  every other field is unchanged, as are all of them when the file cannot be opened.
\<close>
theorem load_config_last_wins:
  assumes "owned s" and "\<And>blocks n. k_malloc_ok K blocks n"
  shows "let t = exec (load_config K filename) s;
             kvs = (case k_fopen_r K (trace s) filename of None \<Rightarrow> [] | Some content \<Rightarrow> settings (fgets_all 254 content))
         in str_view t f = (case map_of (rev kvs) (skey f) of None \<Rightarrow> str_view s f | Some v \<Rightarrow> Some v) \<and>
            num_view t n = (case map_of (rev kvs) (nkey n) of None \<Rightarrow> num_view s n | Some v \<Rightarrow> num_of n v)"
proof -
  let ?e = "\<lambda>s. s\<lparr>trace := trace s @ [Ev_fopen_r filename (k_fopen_r K (trace s) filename)]\<rparr>"
  have "owned (?e s)" and "str_view (?e s) = str_view s" and "num_view (?e s) = num_view s"
    and emit: "str_view (s'\<lparr>trace := tr\<rparr>) = str_view s'" "num_view (s'\<lparr>trace := tr\<rparr>) = num_view s'"
    for s' :: "'a conf_world_scheme" and tr
    using assms(1) by (auto simp: owned_def str_view_def num_view_def)
  then show ?thesis
    using process_lines_views [OF \<open>owned (?e s)\<close> assms(2)]
    by (auto simp: load_config_def run_simps split_beta emit split: option.split)
qed

theorem load_config_last_wins_witness:
  "num_view (exec (load_config sample_kernel ''cfg'') start_conf) C7_PROC_ID = 9 \<and>
   str_view (exec (load_config sample_kernel ''cfg'') start_conf) DMA_HEAP_RESERVED = Some ''linux,cma''"
proof -
  have content: "k_fopen_r sample_kernel (trace start_conf) ''cfg'' =
      Some (''C7_PROC_ID = 8'' @ [NL] @ ''DMA_HEAP_RESERVED=linux,cma'' @ [NL] @ ''C7_PROC_ID=9'')"
    by (simp add: sample_kernel_def)
  have kvs: "settings (fgets_all 254 (''C7_PROC_ID = 8'' @ [NL] @ ''DMA_HEAP_RESERVED=linux,cma'' @ [NL] @ ''C7_PROC_ID=9'')) =
      [(''C7_PROC_ID'', '' 8''), (''DMA_HEAP_RESERVED'', ''linux,cma''), (''C7_PROC_ID'', ''9'')]"
    by code_simp
  have atoi: "num_of C7_PROC_ID ''9'' = 9" by code_simp
  have ok: "k_malloc_ok sample_kernel b n" for b n by (simp add: sample_kernel_def)
  show ?thesis
    using load_config_last_wins [OF start_conf_owned ok, of "''cfg''" DMA_HEAP_RESERVED C7_PROC_ID]
    unfolding content Let_def option.case kvs by (simp add: atoi)
qed

text \<open>
  C30: a file written from settings reads back as these settings. Keys of at most 63 and
  values of at most 127 characters, non-empty, without newline, without trailing blanks and
  with no equals sign in the key, come back in order and unchanged, one line of the file
  for each.
\<close>
theorem config_roundtrip:
  assumes "list_all plain_setting kvs"
  shows "settings (fgets_all 254 (concat (map render_setting kvs))) = kvs"
  by (rule settings_render [OF assms])

theorem config_roundtrip_witness:
  "settings (fgets_all 254 (concat (map render_setting [(''DATA_SIZE'', ''4096''), (''PCM_DEVICE'', ''hw:0 ,1'')]))) =
    [(''DATA_SIZE'', ''4096''), (''PCM_DEVICE'', ''hw:0 ,1'')]"
  by (rule config_roundtrip) (simp add: plain_setting_def isspace_def)

text \<open>
  \<open>trim\<close> removes the trailing white space of its string and nothing else: leading white
  space stays, because only the function's own copy of the pointer moves past it, and a
  string of blanks is not touched at all.
\<close>
theorem trim_is_rstrip: "trim str = (if list_all isspace str then str else rstrip str)"
  by (rule trim_eq)

text \<open>
  C37: \<open>cleanup_config\<close> runs into no double free and leaves exactly the blocks of
  \<open>fw_link_path\<close>, \<open>c7_old_fw_path\<close>, \<open>c7_new_fw_path\<close> and \<open>c7_state_path\<close> allocated: these four
  strings leak.
\<close>
theorem cleanup_config_leaks:
  assumes "owned s"
  shows "fault (exec cleanup_config s) = fault s \<and>
    (live_block (heap (exec cleanup_config s)) p \<longleftrightarrow>
       p \<noteq> 0 \<and> p \<in> {fw_link_path (app_config s), c7_old_fw_path (app_config s),
                   c7_new_fw_path (app_config s), c7_state_path (app_config s)})"
proof -
  let ?c = "app_config s"
  have "live_block (heap s) p \<and> (\<forall>f \<in> set freed_fields. get_str f ?c \<noteq> p) \<longleftrightarrow>
      p \<noteq> 0 \<and> (\<exists>f \<in> set kept_fields. get_str f ?c = p)"
  proof
    assume l: "live_block (heap s) p \<and> (\<forall>f \<in> set freed_fields. get_str f ?c \<noteq> p)"
    then obtain f where "get_str f ?c = p"
      using assms by (auto simp: owned_def owned_by_def)
    then show "p \<noteq> 0 \<and> (\<exists>f \<in> set kept_fields. get_str f ?c = p)"
      using l field_split [of f] by (auto intro: ccontr)
  next
    assume r: "p \<noteq> 0 \<and> (\<exists>f \<in> set kept_fields. get_str f ?c = p)"
    then obtain f where f: "f \<in> set kept_fields" "get_str f ?c = p" "p \<noteq> 0" by blast
    then show "live_block (heap s) p \<and> (\<forall>f \<in> set freed_fields. get_str f ?c \<noteq> p)"
      using assms field_split
      by (metis cfg.owned_distinct cfg.owned_pointer owned_def)
  qed
  then show ?thesis
    by (simp add: run_cleanup [OF assms] cfg.free_fields_live) (auto simp: kept_fields_def)
qed

definition full_conf :: conf_world where
  "full_conf = \<lparr>trace = [], fault = None, heap = [Some ''default'', Some ''/lib/fw''],
     app_config = zero_config\<lparr>pcm_device := 1, fw_link_path := 2\<rparr>\<rparr>"

lemma full_conf_owned: "owned full_conf"
proof -
  have "get_str f (app_config full_conf) = (if f = PCM_DEVICE then 1 else if f = FW_LINK_PATH then 2 else 0)" for f
    by (cases f) (simp_all add: full_conf_def zero_config_def)
  moreover have "live_block (heap full_conf) p \<longleftrightarrow> p = 1 \<or> p = 2" for p
    by (auto simp: full_conf_def live_block_def less_Suc_eq nth_Cons' numeral_2_eq_2)
  ultimately show ?thesis
    by (auto simp: owned_def owned_by_def)
qed

theorem cleanup_config_leaks_witness:
  "live_block (heap (exec cleanup_config full_conf)) 2 \<and> \<not> live_block (heap (exec cleanup_config full_conf)) 1"
  using cleanup_config_leaks [OF full_conf_owned, of 1] cleanup_config_leaks [OF full_conf_owned, of 2]
  by (simp add: full_conf_def zero_config_def)

text \<open>
  \<open>cleanup_config\<close> leaves the pointers it freed in place, so a second call (the handler
  of SIGINT arriving while \<open>main\<close> is past its own clean-up) frees the same blocks again:
  undefined behaviour as soon as one of the five strings was set.
\<close>
theorem cleanup_config_twice:
  assumes "owned s" and "fault s = None"
    and "\<not> list_all (\<lambda>f. get_str f (app_config s) = 0) freed_fields"
  shows "fault (exec cleanup_config (exec cleanup_config s)) = Some Double_free"
proof -
  let ?t = "exec cleanup_config s"
  have t: "?t = s\<lparr>heap := fold (\<lambda>f h. free_block h (get_str f (app_config s))) freed_fields (heap s)\<rparr>"
    by (simp add: run_cleanup [OF assms(1)])
  have "run_state (free_fields freed_fields) ?t =
      ((), if fault ?t \<noteq> None \<or> list_all (\<lambda>f. get_str f (app_config ?t) = 0) freed_fields then ?t
           else ?t\<lparr>fault := Some Double_free\<rparr>)"
    by (rule free_dead_fields) (auto simp: t cfg.free_fields_live)
  then show ?thesis
    using assms(2,3) by (simp add: cleanup_fields [symmetric] t)
qed

theorem cleanup_config_twice_witness:
  "fault (exec cleanup_config (exec cleanup_config full_conf)) = Some Double_free"
  by (rule cleanup_config_twice [OF full_conf_owned])
    (simp_all add: full_conf_def zero_config_def freed_fields_def)

end
