(* ===== verification/Config_Print.thy ===== *)
theory Config_Print
  imports Config
begin

text \<open>
  \<open>print_config\<close> of \<^verbatim>\<open>example/audio_offload/src/config.c\<close>: the text it writes to stdout, as a
  value. The text shows every setting but \<open>c7_proc_id\<close>, and shows it unambiguously.
\<close>

subsection \<open>The operation\<close>

text \<open>\<open>printf(label "%s\n", str)\<close> and \<open>printf(label "%d\n", num)\<close>.\<close>

definition printf_s :: "string \<Rightarrow> (AppConfig \<Rightarrow> ptr) \<Rightarrow> ('w conf_world_scheme, string) state" where
  "printf_s label get = do {
     p \<leftarrow> gets (\<lambda>s. get (app_config s));
     str \<leftarrow> c_string p;
     ret (label @ str @ [NL]) }"

definition printf_d :: "string \<Rightarrow> (AppConfig \<Rightarrow> int) \<Rightarrow> ('w conf_world_scheme, string) state" where
  "printf_d label get = gets (\<lambda>s. label @ show_int (get (app_config s)) @ [NL])"

definition print_config :: "('w conf_world_scheme, string) state" where
  "print_config = do {
     l1 \<leftarrow> printf_s ''PCM Device       : '' pcm_device;
     l2 \<leftarrow> printf_s ''UART Device       : '' uart_device;
     l3 \<leftarrow> printf_s ''Remoteproc Device : '' rproc_dev_name;
     l4 \<leftarrow> printf_s ''DMA Heap Reserved : '' dma_heap_reserved;
     l5 \<leftarrow> printf_s ''Sample Audio File : '' sample_audio_file;
     l6 \<leftarrow> printf_d ''Remote endpoint : '' remote_endpoint;
     l7 \<leftarrow> printf_d ''Date buffer size : '' data_buffer_size;
     l8 \<leftarrow> printf_d ''param buffer size : '' param_buffer_size;
     l9 \<leftarrow> printf_d ''is DSP mode execution : '' (\<lambda>c. of_bool (is_dsp_execution c));
     l10 \<leftarrow> printf_d ''Host eth interface : '' (\<lambda>c. of_bool (is_host_eth_iface c));
     l11 \<leftarrow> printf_d ''Filter state : '' (\<lambda>c. of_bool (fft_filter_enable c));
     l12 \<leftarrow> printf_d ''Audio logging to file : '' (\<lambda>c. of_bool (enable_audio_logging c));
     l13 \<leftarrow> printf_s ''C7 new : '' c7_new_fw_path;
     l14 \<leftarrow> printf_s ''C7 old : '' c7_old_fw_path;
     l15 \<leftarrow> printf_s ''C7 state : '' c7_state_path;
     l16 \<leftarrow> printf_s ''C7 link : '' fw_link_path;
     ret (l1 @ l2 @ l3 @ l4 @ l5 @ l6 @ l7 @ l8 @ l9 @ l10 @ l11 @ l12 @ l13 @ l14 @ l15 @ l16) }"

subsection \<open>Lemmas\<close>

text \<open>
  A configuration can be printed when every string is set. \<open>shown_str\<close> and \<open>shown_num\<close> are the
  text of a field.
\<close>

definition printable :: "'w conf_world_scheme \<Rightarrow> bool" where
  "printable s \<longleftrightarrow> (\<forall>f. \<exists>str. str_view s f = Some str \<and> NL \<notin> set str)"

definition shown_str :: "'w conf_world_scheme \<Rightarrow> sfield \<Rightarrow> string" where
  "shown_str s f = the (str_view s f)"

definition shown_num :: "'w conf_world_scheme \<Rightarrow> nfield \<Rightarrow> string" where
  "shown_num s n = show_int (num_view s n)"

lemma run_printf_d [simp]: "run_state (printf_d label get) s = (label @ show_int (get (app_config s)) @ [NL], s)"
  by (simp add: printf_d_def)

lemma printable_line: "printable s \<Longrightarrow> NL \<notin> set (shown_str s f)"
  unfolding printable_def shown_str_def by (metis option.sel)

lemma NL_show_nat: "NL \<notin> set (show_nat n)"
  using show_nat_digits [of n] by (auto simp: isdigit_def)

lemma NL_shown_num: "NL \<notin> set (shown_num s n)"
  using NL_show_nat by (auto simp: shown_num_def show_int_def)

lemma show_nat_inj: "show_nat m = show_nat n \<Longrightarrow> m = n"
  by (metis digits_val_show_nat of_nat_eq_iff)

lemma show_int_inj: "show_int v = show_int w \<Longrightarrow> v = w"
proof -
  have "show_nat k \<noteq> CHR ''-'' # t" for k t
    using show_nat_digits [of k] by (auto simp: isdigit_def)
  then show "show_int v = show_int w \<Longrightarrow> v = w"
    by (metis list.inject show_int_def show_nat_inj nat_eq_iff2 neg_equal_iff_equal nat_0_le not_less
        le_minus_iff neg_less_0_iff_less order_less_imp_le neg_0_le_iff_le)
qed

text \<open>
  What printing a string does: its text, and undefined behaviour when there is none.
\<close>

definition mark_unset :: "sfield \<Rightarrow> 'w conf_world_scheme \<Rightarrow> 'w conf_world_scheme" where
  "mark_unset f s = (if fault s = None \<and> str_view s f = None then s\<lparr>fault := Some Invalid_pointer\<rparr> else s)"

lemma run_printf_s:
  "run_state (printf_s label (get_str f)) s =
     (label @ (case str_view s f of None \<Rightarrow> [] | Some str \<Rightarrow> str) @ [NL], mark_unset f s)"
  by (auto simp: printf_s_def run_c_string str_view_def mark_unset_def split: option.split)

lemmas run_printf_fields =
  run_printf_s [where f = PCM_DEVICE, simplified] run_printf_s [where f = UART_DEVICE, simplified]
  run_printf_s [where f = RPROC_DEV_NAME, simplified] run_printf_s [where f = DMA_HEAP_RESERVED, simplified]
  run_printf_s [where f = SAMPLE_AUDIO_FILE, simplified] run_printf_s [where f = C7_NEW_FW_PATH, simplified]
  run_printf_s [where f = C7_OLD_FW_PATH, simplified] run_printf_s [where f = C7_STATE_PATH, simplified]
  run_printf_s [where f = FW_LINK_PATH, simplified]

lemma mark_set: "printable s \<Longrightarrow> mark_unset f s = s"
  unfolding printable_def mark_unset_def by (metis option.distinct(1))

lemma shown_set: "printable s \<Longrightarrow> (case str_view s f of None \<Rightarrow> [] | Some str \<Rightarrow> str) = shown_str s f"
  by (auto simp: printable_def shown_str_def dest: spec [of _ f])

lemma fold_mark_unset:
  "fold mark_unset fs s =
     (if fault s = None \<and> (\<exists>f \<in> set fs. str_view s f = None) then s\<lparr>fault := Some Invalid_pointer\<rparr> else s)"
proof (induction fs arbitrary: s)
  case (Cons f fs)
  have "str_view (s\<lparr>fault := x\<rparr>) = str_view s" for x by (simp add: str_view_def fun_eq_iff)
  with Cons.IH show ?case by (simp add: mark_unset_def [of f]) auto
qed simp

text \<open>What the text consists of.\<close>

definition config_lines :: "'w conf_world_scheme \<Rightarrow> (string \<times> string) list" where
  "config_lines s =
    [(''PCM Device       : '', shown_str s PCM_DEVICE), (''UART Device       : '', shown_str s UART_DEVICE),
     (''Remoteproc Device : '', shown_str s RPROC_DEV_NAME), (''DMA Heap Reserved : '', shown_str s DMA_HEAP_RESERVED),
     (''Sample Audio File : '', shown_str s SAMPLE_AUDIO_FILE), (''Remote endpoint : '', shown_num s REMOTE_ENDPT),
     (''Date buffer size : '', shown_num s DATA_SIZE), (''param buffer size : '', shown_num s PARAM_SIZE),
     (''is DSP mode execution : '', shown_num s DSP_EXEC_MODE), (''Host eth interface : '', shown_num s HOST_ETH_INTERFACE),
     (''Filter state : '', shown_num s FILTER_ENABLE), (''Audio logging to file : '', shown_num s AUDIO_LOGGING_ENABLE),
     (''C7 new : '', shown_str s C7_NEW_FW_PATH), (''C7 old : '', shown_str s C7_OLD_FW_PATH),
     (''C7 state : '', shown_str s C7_STATE_PATH), (''C7 link : '', shown_str s FW_LINK_PATH)]"

abbreviation line_text :: "string \<times> string \<Rightarrow> string" where
  "line_text l \<equiv> fst l @ snd l @ [NL]"

lemma print_config_text:
  "printable s \<Longrightarrow> run_state print_config s = (concat (map line_text (config_lines s)), s)"
  by (simp add: print_config_def run_printf_fields mark_set shown_set config_lines_def shown_num_def num_view_def
      del: append.simps)

text \<open>The first newline ends a line, so lines under the same labels can be told apart.\<close>

lemma line_cancel:
  assumes "NL \<notin> set v" and "NL \<notin> set w"
  shows "v @ NL # t = w @ NL # u \<longleftrightarrow> v = w \<and> t = u"
proof
  assume eq: "v @ NL # t = w @ NL # u"
  have "takeWhile (\<lambda>c. c \<noteq> NL) (x @ NL # y) = x" if "NL \<notin> set x" for x y
    using that by (induction x) auto
  then have "v = w" using assms eq by metis
  then show "v = w \<and> t = u" using eq by simp
qed simp

lemma lines_cancel:
  assumes "map fst ls = map fst ms" and "\<forall>l \<in> set ls \<union> set ms. NL \<notin> set (snd l)"
    and "concat (map line_text ls) = concat (map line_text ms)"
  shows "ls = ms"
  using map_eq_imp_length_eq [OF assms(1)] assms
  by (induction ls ms rule: list_induct2) (auto simp: line_cancel prod_eq_iff)

subsection \<open>Properties\<close>

text \<open>
  Two configurations that print the same text agree in every setting, \<open>c7_proc_id\<close> excepted,
  which the text does not show.
\<close>
theorem print_config_unambiguous:
  assumes "printable s" and "printable t" and "result print_config s = result print_config t"
  shows "str_view s f = str_view t f \<and> (n \<noteq> C7_PROC_ID \<longrightarrow> num_view s n = num_view t n)"
proof -
  have "NL \<notin> set (shown_str s f)" "NL \<notin> set (shown_str t f)" for f
    using assms printable_line by blast+
  then have "config_lines s = config_lines t"
    using assms by (intro lines_cancel) (simp_all add: print_config_text config_lines_def NL_shown_num)
  then have "shown_str s f = shown_str t f" and "n \<noteq> C7_PROC_ID \<Longrightarrow> shown_num s n = shown_num t n"
    unfolding config_lines_def by (cases f; cases n; simp)+
  moreover have "str_view s f \<noteq> None" "str_view t f \<noteq> None"
    using assms(1,2) by (metis option.distinct(1) printable_def)+
  ultimately show ?thesis
    by (auto simp: shown_str_def shown_num_def dest: show_int_inj)
qed

text \<open>
  A setting without a string is printed through a NULL or freed pointer: undefined behaviour.
  That is the only effect the function has on the state.
\<close>
theorem print_config_unset:
  "exec print_config s =
     (if fault s = None \<and> (\<exists>f. str_view s f = None) then s\<lparr>fault := Some Invalid_pointer\<rparr> else s)"
proof -
  let ?fs = "[PCM_DEVICE, UART_DEVICE, RPROC_DEV_NAME, DMA_HEAP_RESERVED, SAMPLE_AUDIO_FILE,
    C7_NEW_FW_PATH, C7_OLD_FW_PATH, C7_STATE_PATH, FW_LINK_PATH]"
  have "exec print_config s = fold mark_unset ?fs s"
    by (simp add: print_config_def run_printf_fields)
  moreover have "(\<exists>f \<in> set ?fs. str_view s f = None) \<longleftrightarrow> (\<exists>f. str_view s f = None)"
  proof -
    have "f \<in> set ?fs" for f by (cases f) auto
    then show ?thesis by blast
  qed
  ultimately show ?thesis by (simp only: fold_mark_unset)
qed

end
