(* ===== verification/Host_State.thy ===== *)
theory Host_State
  imports Config
begin

text \<open>
  The globals of \<^verbatim>\<open>example/audio_offload/src/host_interface.c\<close>, on top of the
  configuration. An array is a function from its indices; the operations check an index or
  an extent against the size of the array where the code could leave it. A \<open>FILE\<close> is NULL
  or the path it was opened with.
\<close>

definition LOG_QUEUE_SIZE :: nat where "LOG_QUEUE_SIZE = 16384"
definition LOG_ENTRY_SIZE :: nat where "LOG_ENTRY_SIZE = 1024"
definition SEND_BUFFER_SIZE :: nat where "SEND_BUFFER_SIZE = 16384"
definition LINEBUF_SIZE :: nat where "LINEBUF_SIZE = 512"

record host_world = conf_world +
  uart_fd :: int
  server_log_fd :: int
  client_log_fd :: int
  server_cmd_fd :: int
  client_cmd_fd :: int
  server_indata_fd :: int
  client_indata_fd :: int
  server_outdata_fd :: int
  client_outdata_fd :: int
  fp_in :: "string option"
  fp_out :: "string option"
  send_inbuffer :: "nat \<Rightarrow> char"
  send_inoffset :: nat
  send_outbuffer :: "nat \<Rightarrow> char"
  send_outoffset :: nat
  log_queue :: "nat \<Rightarrow> string"
  log_head :: nat
  log_tail :: nat
  isCmdConnected :: bool
  linebuf :: "nat \<Rightarrow> char"
  lineofs :: nat

text \<open>The program's start: globals without an initialiser are zero, the descriptors too.\<close>

definition zero_host :: host_world where
  "zero_host = \<lparr>trace = [], fault = None, heap = [], app_config = zero_config,
     uart_fd = 0, server_log_fd = 0, client_log_fd = 0, server_cmd_fd = 0, client_cmd_fd = 0,
     server_indata_fd = 0, client_indata_fd = 0, server_outdata_fd = 0, client_outdata_fd = 0,
     fp_in = None, fp_out = None,
     send_inbuffer = (\<lambda>_. NUL), send_inoffset = 0, send_outbuffer = (\<lambda>_. NUL), send_outoffset = 0,
     log_queue = (\<lambda>_. []), log_head = 0, log_tail = 0, isCmdConnected = False,
     linebuf = (\<lambda>_. NUL), lineofs = 0\<rparr>"

text \<open>Storing bytes at an offset of an array.\<close>

definition poke :: "(nat \<Rightarrow> 'a) \<Rightarrow> nat \<Rightarrow> 'a list \<Rightarrow> nat \<Rightarrow> 'a" where
  "poke buf off bs i = (if off \<le> i \<and> i < off + length bs then bs ! (i - off) else buf i)"

definition extent :: "(nat \<Rightarrow> 'a) \<Rightarrow> nat \<Rightarrow> 'a list" where
  "extent buf n = map buf [0..<n]"

lemma length_extent [simp]: "length (extent buf n) = n"
  by (simp add: extent_def)

lemma extent_0 [simp]: "extent buf 0 = []"
  by (simp add: extent_def)

lemma extent_cong: "(\<And>i. i < n \<Longrightarrow> f i = g i) \<Longrightarrow> extent f n = extent g n"
  by (simp add: extent_def)

lemma extent_poke: "extent (poke buf off bs) (off + length bs) = extent buf off @ bs"
  by (rule nth_equalityI) (auto simp: extent_def poke_def nth_append)

lemma extent_poke_below [simp]: "n \<le> off \<Longrightarrow> extent (poke buf off bs) n = extent buf n"
  by (auto simp: extent_def poke_def)

lemma extent_upd_Suc: "extent (f(n := x)) (Suc n) = extent f n @ [x]"
  by (auto simp: extent_def)

end
