(* ===== verification/Fifo.thy ===== *)
theory Fifo
  imports Main
begin

text \<open>
  The contract of a bounded queue without a full test: up to its capacity it is a queue,
  and one item more makes it forget everything. What a schedule of puts and takes delivers
  is proved once, from the contract.
\<close>

datatype 'x fifo_op = Put 'x | Take

fun puts :: "'x fifo_op list \<Rightarrow> 'x list" where
  "puts [] = []"
| "puts (Put x # ops) = x # puts ops"
| "puts (Take # ops) = puts ops"

fun fifo_run ::
  "('x \<Rightarrow> 'q \<Rightarrow> 'q) \<Rightarrow> ('q \<Rightarrow> 'y option \<times> 'q) \<Rightarrow> 'x fifo_op list \<Rightarrow> 'q \<Rightarrow> 'y list \<times> 'q" where
  "fifo_run enq deq [] q = ([], q)"
| "fifo_run enq deq (Put x # ops) q = fifo_run enq deq ops (enq x q)"
| "fifo_run enq deq (Take # ops) q =
     (case deq q of
        (None, q') \<Rightarrow> fifo_run enq deq ops q'
      | (Some y, q') \<Rightarrow> let (ys, q'') = fifo_run enq deq ops q' in (y # ys, q''))"

text \<open>At every put of the schedule the queue holds fewer items than its capacity.\<close>

fun fits ::
  "('x \<Rightarrow> 'q \<Rightarrow> 'q) \<Rightarrow> ('q \<Rightarrow> 'y option \<times> 'q) \<Rightarrow> ('q \<Rightarrow> nat) \<Rightarrow> nat \<Rightarrow> 'x fifo_op list \<Rightarrow> 'q \<Rightarrow> bool" where
  "fits enq deq len cap [] q \<longleftrightarrow> True"
| "fits enq deq len cap (Put x # ops) q \<longleftrightarrow> len q < cap \<and> fits enq deq len cap ops (enq x q)"
| "fits enq deq len cap (Take # ops) q \<longleftrightarrow> fits enq deq len cap ops (snd (deq q))"

locale bounded_fifo =
  fixes enq :: "'x \<Rightarrow> 'q \<Rightarrow> 'q"
    and deq :: "'q \<Rightarrow> 'y option \<times> 'q"
    and items :: "'q \<Rightarrow> 'y list"
    and stored :: "'x \<Rightarrow> 'y"
    and invar :: "'q \<Rightarrow> bool"
    and cap :: nat
  assumes invar_enq: "invar q \<Longrightarrow> invar (enq x q)"
    and invar_deq: "invar q \<Longrightarrow> invar (snd (deq q))"
    and items_bound: "invar q \<Longrightarrow> length (items q) \<le> cap"
    and items_enq: "invar q \<Longrightarrow> length (items q) < cap \<Longrightarrow> items (enq x q) = items q @ [stored x]"
    and items_overrun: "invar q \<Longrightarrow> length (items q) = cap \<Longrightarrow> items (enq x q) = []"
    and items_deq: "invar q \<Longrightarrow> deq q = (m, q') \<Longrightarrow>
      (case m of None \<Rightarrow> items q = [] \<and> items q' = [] | Some y \<Rightarrow> items q = y # items q')"
begin

lemma fifo_order:
  "invar q \<Longrightarrow> fits enq deq (\<lambda>q. length (items q)) cap ops q \<Longrightarrow> fifo_run enq deq ops q = (out, q') \<Longrightarrow>
     out @ items q' = items q @ map stored (puts ops) \<and> invar q'"
proof (induction ops arbitrary: q out)
  case Nil
  then show ?case by simp
next
  case (Cons op ops)
  show ?case
  proof (cases op)
    case (Put x)
    then show ?thesis
      using Cons.prems Cons.IH [of "enq x q" out] invar_enq items_enq by simp
  next
    case Take
    obtain m r where d: "deq q = (m, r)" by fastforce
    have r: "invar r" "fits enq deq (\<lambda>q. length (items q)) cap ops r"
      using Cons.prems(1,2) invar_deq [of q] Take d by auto
    show ?thesis
      using Cons.prems(1,3) Cons.IH [OF r] items_deq [OF _ d] Take d
      by (cases m) (auto split: prod.splits)
  qed
qed

lemma enq_many:
  "invar q \<Longrightarrow> length (items q) + length xs \<le> cap \<Longrightarrow>
     items (fold enq xs q) = items q @ map stored xs \<and> invar (fold enq xs q)"
proof (induction xs arbitrary: q)
  case Nil
  then show ?case by simp
next
  case (Cons x xs)
  then show ?case using items_enq [of q x] invar_enq [of q x] by simp
qed

lemma enq_too_many:
  assumes "invar q" and "items q = []" and "length xs = Suc cap"
  shows "items (fold enq xs q) = []"
proof -
  obtain ys y where xs: "xs = ys @ [y]" using assms(3) by (cases xs rule: rev_cases) auto
  have "items (fold enq ys q) = map stored ys \<and> invar (fold enq ys q)"
    using enq_many [OF assms(1), of ys] assms(2,3) xs by simp
  then show ?thesis
    using items_overrun [of "fold enq ys q" y] assms(3) xs by simp
qed

end

end
