(* ===== verification/Log_Queue.thy ===== *)
theory Log_Queue
  imports Host_State Descriptors Fifo
begin

text \<open>
  The log queue of \<^verbatim>\<open>host_interface.c\<close>: the audio thread appends lines with \<open>enqueue_log\<close>,
  the log thread takes them out in \<open>log_writer\<close> and writes them to the host. The queue is a
  ring of \<open>LOG_QUEUE_SIZE\<close> entries with no test for being full. Both sides work on it under
  \<open>log_mutex\<close>, so an execution is an interleaving of whole critical sections.
\<close>

subsection \<open>The operations\<close>

definition enqueue_log :: "string \<Rightarrow> ('w host_world_scheme, unit) state" where
  "enqueue_log msg = do {
     connected \<leftarrow> gets (\<lambda>s. client_log_fd s \<ge> 0);
     if connected then do {
       emit Ev_lock;
       modify (\<lambda>s. s\<lparr>log_queue := (log_queue s)(log_tail s := bounded_copy LOG_ENTRY_SIZE msg)\<rparr>);
       modify (\<lambda>s. s\<lparr>log_tail := (log_tail s + 1) mod LOG_QUEUE_SIZE\<rparr>);
       emit Ev_cond_signal;
       emit Ev_unlock }
     else ret () }"

text \<open>
  The critical section of the log thread: \<open>None\<close> where it waits for the condition (and gives
  the mutex back), otherwise its copy of the oldest entry.
\<close>

definition log_take :: "('w host_world_scheme, string option) state" where
  "log_take = do {
     emit Ev_lock;
     empty \<leftarrow> gets (\<lambda>s. log_head s = log_tail s);
     if empty then do { emit Ev_cond_wait; ret None }
     else do {
       msg \<leftarrow> gets (\<lambda>s. bounded_copy 256 (log_queue s (log_head s)));
       modify (\<lambda>s. s\<lparr>log_head := (log_head s + 1) mod LOG_QUEUE_SIZE\<rparr>);
       emit Ev_unlock;
       ret (Some msg) } }"

definition log_output :: "string \<Rightarrow> ('w host_world_scheme, unit) state" where
  "log_output msg = do {
     fd \<leftarrow> gets client_log_fd;
     if fd \<ge> 0 then do {
       eth \<leftarrow> gets (\<lambda>s. is_host_eth_iface (app_config s));
       uart \<leftarrow> gets uart_fd;
       if eth then emit (Ev_dprintf fd (msg @ [NL])) else emit (Ev_dprintf uart (msg @ [NL])) }
     else ret () }"

text \<open>
  The loop of the log thread, up to the point where it waits: \<open>fuel\<close> bounds the number of
  iterations.
\<close>

fun log_loop :: "nat \<Rightarrow> ('w host_world_scheme, unit) state" where
  "log_loop 0 = ret ()"
| "log_loop (Suc fuel) = do {
     m \<leftarrow> log_take;
     case m of None \<Rightarrow> ret () | Some msg \<Rightarrow> do { log_output msg; log_loop fuel } }"

definition log_writer :: "nat \<Rightarrow> ('w host_world_scheme, unit) state" where
  "log_writer fuel = do {
     fd \<leftarrow> gets client_log_fd;
     if fd \<ge> 0 then log_loop fuel else ret () }"

subsection \<open>Rings\<close>

definition ring_len :: "nat \<Rightarrow> nat \<Rightarrow> nat \<Rightarrow> nat" where
  "ring_len n h t = (t + n - h) mod n"

definition ring_list :: "nat \<Rightarrow> (nat \<Rightarrow> 'a) \<Rightarrow> nat \<Rightarrow> nat \<Rightarrow> 'a list" where
  "ring_list n q h t = map (\<lambda>i. q ((h + i) mod n)) [0..<ring_len n h t]"

lemma length_ring_list [simp]: "length (ring_list n q h t) = ring_len n h t"
  by (simp add: ring_list_def)

lemma ring_len_less: "h < n \<Longrightarrow> ring_len n h t < n"
  by (simp add: ring_len_def)

lemma ring_len_cases: "h < n \<Longrightarrow> t < n \<Longrightarrow> ring_len n h t = (if h \<le> t then t - h else t + n - h)"
  by (auto simp: ring_len_def mod_if)

lemma ring_len_0: "h < n \<Longrightarrow> t < n \<Longrightarrow> ring_len n h t = 0 \<longleftrightarrow> h = t"
  by (auto simp: ring_len_cases)

lemma ring_next: "t < n \<Longrightarrow> Suc t mod n = (if Suc t = n then 0 else Suc t)"
  by (cases "Suc t = n") auto

lemma ring_index: "(h :: nat) < n \<Longrightarrow> i < n \<Longrightarrow> (h + i) mod n = (if h + i < n then h + i else h + i - n)"
  by (simp add: le_mod_geq)

lemma ring_tail: "h < n \<Longrightarrow> t < n \<Longrightarrow> (h + ring_len n h t) mod n = t"
  using ring_index [of h n "ring_len n h t"] ring_len_less [of h n t] ring_len_cases [of h n t]
  by (auto split: if_splits)

lemma ring_len_put:
  assumes "h < n" and "t < n"
  shows "ring_len n h ((t + 1) mod n) = (if ring_len n h t = n - 1 then 0 else ring_len n h t + 1)"
proof -
  have "(t + 1) mod n < n" using assms by simp
  from ring_len_cases [OF assms(1) this] ring_len_cases [OF assms] show ?thesis
    using assms by (auto simp: ring_next)
qed

lemma ring_len_take:
  assumes "h < n" and "t < n" and "h \<noteq> t"
  shows "ring_len n ((h + 1) mod n) t = ring_len n h t - 1"
proof -
  have "(h + 1) mod n < n" using assms by simp
  from ring_len_cases [OF this assms(2)] ring_len_cases [OF assms(1,2)] show ?thesis
    using assms by (auto simp: ring_next)
qed

lemma ring_index_neq:
  assumes "h < n" and "t < n" and "i < ring_len n h t"
  shows "(h + i) mod n \<noteq> t"
proof -
  have "i < n" using assms ring_len_less [of h n t] by simp
  then show ?thesis
    using assms ring_index [of h n i] ring_len_cases [of h n t] by (auto split: if_splits)
qed

lemma ring_put:
  assumes "h < n" and "t < n" and "ring_len n h t < n - 1"
  shows "ring_list n (q(t := x)) h ((t + 1) mod n) = ring_list n q h t @ [x]"
proof -
  have "ring_len n h ((t + 1) mod n) = Suc (ring_len n h t)"
    using assms ring_len_put [of h n t] by simp
  moreover have "map (\<lambda>i. (q(t := x)) ((h + i) mod n)) [0..<ring_len n h t] =
      map (\<lambda>i. q ((h + i) mod n)) [0..<ring_len n h t]"
    using ring_index_neq [OF assms(1,2)] by auto
  ultimately show ?thesis
    using ring_tail [OF assms(1,2)] by (simp add: ring_list_def)
qed

lemma ring_overrun:
  "h < n \<Longrightarrow> t < n \<Longrightarrow> ring_len n h t = n - 1 \<Longrightarrow> ring_list n q h ((t + 1) mod n) = []"
  using ring_len_put [of h n t] by (simp add: ring_list_def)

lemma ring_take:
  assumes "h < n" and "t < n" and "h \<noteq> t"
  shows "ring_list n q h t = q h # ring_list n q ((h + 1) mod n) t"
proof -
  have len: "ring_len n h t = Suc (ring_len n ((h + 1) mod n) t)"
    using assms ring_len_take [OF assms] ring_len_0 [of h n t] by simp
  have shift: "Suc (h + i) mod n = (Suc h mod n + i) mod n" for i
    by (metis add_Suc mod_add_left_eq)
  show ?thesis
    unfolding ring_list_def len upt_conv_Cons [OF zero_less_Suc] map_Suc_upt [symmetric]
    using assms(1) by (simp add: shift comp_def del: upt_Suc)
qed

lemma ring_empty: "ring_list n q t t = []"
  by (simp add: ring_list_def ring_len_def)

subsection \<open>The queue\<close>

definition queue_ok :: "'w host_world_scheme \<Rightarrow> bool" where
  "queue_ok s \<longleftrightarrow> log_head s < LOG_QUEUE_SIZE \<and> log_tail s < LOG_QUEUE_SIZE \<and> 0 \<le> client_log_fd s"

text \<open>The lines waiting, as the log thread will write them (its copy has 256 bytes).\<close>

definition pending_log :: "'w host_world_scheme \<Rightarrow> string list" where
  "pending_log s = map (bounded_copy 256) (ring_list LOG_QUEUE_SIZE (log_queue s) (log_head s) (log_tail s))"

lemma LOG_QUEUE_SIZE_pos [simp]: "0 < LOG_QUEUE_SIZE"
  by (simp add: LOG_QUEUE_SIZE_def)

lemma bounded_copy_twice [simp]: "bounded_copy 256 (bounded_copy LOG_ENTRY_SIZE m) = bounded_copy 256 m"
  by (simp add: bounded_copy_def [of 256] LOG_ENTRY_SIZE_def) (simp add: bounded_copy_def)

lemma run_enqueue_log:
  "queue_ok s \<Longrightarrow> run_state (enqueue_log m) s =
     ((), s\<lparr>trace := trace s @ [Ev_lock, Ev_cond_signal, Ev_unlock],
          log_queue := (log_queue s)(log_tail s := bounded_copy LOG_ENTRY_SIZE m),
          log_tail := (log_tail s + 1) mod LOG_QUEUE_SIZE\<rparr>)"
  by (simp add: enqueue_log_def queue_ok_def run_simps)

lemma run_log_take:
  "run_state log_take s =
     (if log_head s = log_tail s then (None, s\<lparr>trace := trace s @ [Ev_lock, Ev_cond_wait]\<rparr>)
      else (Some (bounded_copy 256 (log_queue s (log_head s))),
            s\<lparr>trace := trace s @ [Ev_lock, Ev_unlock], log_head := (log_head s + 1) mod LOG_QUEUE_SIZE\<rparr>))"
  by (simp add: log_take_def run_simps)

interpretation logq: bounded_fifo
    "\<lambda>m. exec (enqueue_log m)" "run_state log_take" pending_log "bounded_copy 256" queue_ok "LOG_QUEUE_SIZE - 1"
proof (unfold_locales, goal_cases)
  case (1 s m)
  then show ?case by (simp add: run_enqueue_log) (simp add: queue_ok_def)
next
  case (2 s)
  then show ?case by (simp add: run_log_take queue_ok_def)
next
  case (3 s)
  then show ?case
    using ring_len_less [of "log_head s" LOG_QUEUE_SIZE "log_tail s"] by (simp add: pending_log_def queue_ok_def)
next
  case (4 s m)
  then show ?case
    by (simp add: run_enqueue_log pending_log_def) (simp add: queue_ok_def ring_put [simplified])
next
  case (5 s m)
  then show ?case
    by (simp add: run_enqueue_log pending_log_def) (simp add: queue_ok_def ring_overrun [simplified])
next
  case (6 s m t)
  then show ?case
    using ring_take [of "log_head s" LOG_QUEUE_SIZE "log_tail s" "log_queue s"]
    by (auto simp: run_log_take pending_log_def queue_ok_def ring_empty split: if_splits)
qed

text \<open>The text written by the events, with the descriptor it went to.\<close>

fun dprintf_of :: "event \<Rightarrow> (int \<times> string) list" where
  "dprintf_of (Ev_dprintf fd txt) = [(fd, txt)]"
| "dprintf_of _ = []"

definition dprintfs :: "event list \<Rightarrow> (int \<times> string) list" where
  "dprintfs evs = concat (map dprintf_of evs)"

lemma dprintfs_simps [simp]:
  "dprintfs [] = []" "dprintfs (e # es) = dprintf_of e @ dprintfs es"
  "dprintfs (es @ es') = dprintfs es @ dprintfs es'"
  by (simp_all add: dprintfs_def)

definition log_target :: "'w host_world_scheme \<Rightarrow> int" where
  "log_target s = (if is_host_eth_iface (app_config s) then client_log_fd s else uart_fd s)"

lemma log_loop_drains:
  "queue_ok s \<Longrightarrow> length (pending_log s) < fuel \<Longrightarrow>
     dprintfs (trace (exec (log_loop fuel) s)) =
       dprintfs (trace s) @ map (\<lambda>m. (log_target s, m @ [NL])) (pending_log s) \<and>
     pending_log (exec (log_loop fuel) s) = []"
proof (induction fuel arbitrary: s)
  case 0
  then show ?case by simp
next
  case (Suc fuel)
  obtain m t where take: "run_state log_take s = (m, t)" by fastforce
  have t: "queue_ok t" and items: "case m of None \<Rightarrow> pending_log s = [] \<and> pending_log t = [] | Some y \<Rightarrow> pending_log s = y # pending_log t"
    using logq.invar_deq [OF Suc.prems(1)] logq.items_deq [OF Suc.prems(1) take] take by simp_all
  have frame: "dprintfs (trace t) = dprintfs (trace s)" "log_target t = log_target s"
    using take by (auto simp: run_log_take log_target_def split: if_splits)
  show ?case
  proof (cases m)
    case None
    then show ?thesis using take items frame by simp
  next
    case (Some y)
    let ?u = "t\<lparr>trace := trace t @ [Ev_dprintf (log_target t) (y @ [NL])]\<rparr>"
    have out: "run_state (log_output y) t = ((), ?u)"
      using t by (simp add: log_output_def log_target_def queue_ok_def run_simps)
    have "queue_ok ?u" "pending_log ?u = pending_log t" "log_target ?u = log_target t"
      using t by (simp_all add: queue_ok_def pending_log_def log_target_def)
    then show ?thesis
      using Suc.IH [of ?u] Suc.prems(2) take out items frame Some by simp
  qed
qed

subsection \<open>Properties\<close>

text \<open>
  C8: the log is a queue. For every interleaving of \<open>enqueue_log\<close> calls and critical
  sections of the log thread in which no more than \<open>LOG_QUEUE_SIZE - 1\<close> lines are waiting at a
  time, the lines taken out followed by the lines still waiting are the lines that were
  waiting at the start followed by the lines put in: none is lost, repeated or reordered,
  each is cut to 255 characters at most, and the indices stay inside the array.
\<close>
theorem log_queue_order:
  assumes "queue_ok s"
    and "fits (\<lambda>m. exec (enqueue_log m)) (run_state log_take) (\<lambda>q. length (pending_log q)) (LOG_QUEUE_SIZE - 1) ops s"
    and "fifo_run (\<lambda>m. exec (enqueue_log m)) (run_state log_take) ops s = (out, t)"
  shows "out @ pending_log t = pending_log s @ map (bounded_copy 256) (puts ops) \<and> queue_ok t"
  by (rule logq.fifo_order [OF assms])

theorem log_queue_order_witness:
  "let (out, t) = fifo_run (\<lambda>m. exec (enqueue_log m)) (run_state log_take) [Put ''a'', Put ''b'', Take] zero_host
   in out @ pending_log t = [''a'', ''b'']"
proof -
  obtain out t where run: "fifo_run (\<lambda>m. exec (enqueue_log m)) (run_state log_take) [Put ''a'', Put ''b'', Take] zero_host = (out, t)"
    by fastforce
  have ok: "queue_ok zero_host" and empty: "pending_log zero_host = []"
    by (simp_all add: queue_ok_def zero_host_def pending_log_def ring_empty)
  have one: "pending_log (exec (enqueue_log ''a'') zero_host) = [bounded_copy 256 ''a'']"
    using logq.items_enq [OF ok, of "''a''"] empty by (simp add: LOG_QUEUE_SIZE_def)
  have "fits (\<lambda>m. exec (enqueue_log m)) (run_state log_take) (\<lambda>q. length (pending_log q)) (LOG_QUEUE_SIZE - 1)
      [Put ''a'', Put ''b'', Take] zero_host"
    by (simp add: empty one) (simp add: LOG_QUEUE_SIZE_def)
  from log_queue_order [OF ok this run] show ?thesis
    by (simp only: run empty) simp
qed

text \<open>
  C38: the ring has no test for being full. \<open>LOG_QUEUE_SIZE\<close> lines in a row without the log
  thread running wrap the tail around to the head, and the queue counts as empty: all of
  them are lost, not only the oldest.
\<close>
theorem log_queue_overrun:
  assumes "queue_ok s" and "pending_log s = []" and "length msgs = LOG_QUEUE_SIZE"
  shows "pending_log (fold (\<lambda>m. exec (enqueue_log m)) msgs s) = []"
  by (rule logq.enq_too_many [OF assms(1,2)]) (simp add: assms(3))

theorem log_queue_overrun_witness:
  "pending_log (fold (\<lambda>m. exec (enqueue_log m)) (replicate LOG_QUEUE_SIZE ''line'') zero_host) = []"
  by (rule log_queue_overrun) (simp_all add: queue_ok_def zero_host_def pending_log_def ring_empty)

text \<open>
  C31: the log thread terminates its work. Given one iteration more than there are lines
  waiting, it writes each of them once, in order and with a newline, to the client socket, or
  to the UART without the ethernet interface, and leaves the queue empty.
\<close>
theorem log_writer_drains:
  assumes "queue_ok s" and "length (pending_log s) < fuel"
  shows "dprintfs (trace (exec (log_writer fuel) s)) =
      dprintfs (trace s) @
      map (\<lambda>m. (if is_host_eth_iface (app_config s) then client_log_fd s else uart_fd s, m @ [NL])) (pending_log s) \<and>
    pending_log (exec (log_writer fuel) s) = []"
  using log_loop_drains [OF assms] assms(1) by (simp add: log_writer_def queue_ok_def log_target_def)

theorem log_writer_drains_witness:
  "dprintfs (trace (exec (log_writer 3) (zero_host\<lparr>client_log_fd := 7, log_tail := 2, log_queue := (\<lambda>_. ''x''),
      app_config := zero_config\<lparr>is_host_eth_iface := True\<rparr>\<rparr>))) = [(7, ''x'' @ [NL]), (7, ''x'' @ [NL])]"
proof -
  let ?s = "zero_host\<lparr>client_log_fd := 7, log_tail := 2, log_queue := (\<lambda>_. ''x''),
      app_config := zero_config\<lparr>is_host_eth_iface := True\<rparr>\<rparr>"
  have "ring_len LOG_QUEUE_SIZE 0 2 = 2" by (simp add: ring_len_def LOG_QUEUE_SIZE_def)
  then have p: "pending_log ?s = [''x'', ''x'']"
    by (simp add: pending_log_def ring_list_def zero_host_def upt_rec)
  have "queue_ok ?s" by (simp add: queue_ok_def zero_host_def LOG_QUEUE_SIZE_def)
  from log_writer_drains [OF this, of 3] show ?thesis
    by (simp add: p) (simp add: zero_host_def)
qed

text \<open>
  The test for a connected client does not work before one connects. The descriptor of
  the log client starts as 0, a valid descriptor, so a line logged before the client
  connects is queued and written to descriptor 0, the standard input of the process.
\<close>
theorem log_before_connect:
  "dprintfs (trace (exec (do { enqueue_log m; log_writer 2 })
      (zero_host\<lparr>app_config := zero_config\<lparr>is_host_eth_iface := True\<rparr>\<rparr>))) = [(0, bounded_copy 256 m @ [NL])]"
proof -
  let ?s = "zero_host\<lparr>app_config := zero_config\<lparr>is_host_eth_iface := True\<rparr>\<rparr>"
  have ok: "queue_ok ?s" by (simp add: queue_ok_def zero_host_def)
  have empty: "pending_log ?s = []" by (simp add: pending_log_def zero_host_def ring_empty)
  have items: "pending_log (exec (enqueue_log m) ?s) = [bounded_copy 256 m]"
    using logq.items_enq [OF ok, of m] empty by (simp add: LOG_QUEUE_SIZE_def)
  have writer: "dprintfs (trace (exec (log_writer 2) (exec (enqueue_log m) ?s))) =
      dprintfs (trace (exec (enqueue_log m) ?s)) @ [(log_target (exec (enqueue_log m) ?s), bounded_copy 256 m @ [NL])]"
    using log_loop_drains [OF logq.invar_enq [OF ok, of m], of 2] logq.invar_enq [OF ok, of m] items
    by (simp add: log_writer_def queue_ok_def)
  show ?thesis
    using writer by (simp add: run_enqueue_log [OF ok]) (simp add: zero_host_def log_target_def)
qed

end
