(* ===== verification/App_State.thy ===== *)
theory App_State
  imports Host_State Rpmsg
begin

text \<open>
  The globals of \<^verbatim>\<open>rpmsg_audio_example.c\<close> and its header, on top of those of the host
  interface, and \<open>enable_filter\<close>, the one function the host interface calls back. The two
  DMA buffers are shared with the remote processor: the samples of the data buffer are a
  function from the index of a 16-bit sample, the parameters a record. An access through a
  pointer into a buffer is undefined unless the buffer is mapped at that address.
\<close>

datatype ExecMode = EXEC_ARM | EXEC_DSP

datatype play_state = STOP_PLAY | START_PLAY | EXIT_PLAY

definition CHANNELS :: nat where "CHANNELS = 8"
definition SAMPLE_RATE :: nat where "SAMPLE_RATE = 48000"
definition BITS_PER_SAMPLE :: nat where "BITS_PER_SAMPLE = 16"
definition FRAME_SIZE :: nat where "FRAME_SIZE = CHANNELS * (BITS_PER_SAMPLE div 8)"
definition NUM_FRAMES :: nat where "NUM_FRAMES = 256"
definition DATA_BUFFER_SIZE :: nat where "DATA_BUFFER_SIZE = FRAME_SIZE * NUM_FRAMES"

record local_buf_t =
  lb_data_buf :: u64
  lb_params_buf :: u64
  lb_data_size :: int
  lb_params_size :: int

record params_t =
  dsp_load :: rat
  dsp_filter_enabled :: int

record ipc_msg_buf_t =
  ib_data_buffer :: u32
  ib_params_buffer :: u32
  ib_data_size :: int32
  ib_params_size :: int32
  ib_graph_id :: int32

record app_world = host_world +
  current_mode :: ExecMode
  filter_enabled :: bool
  start_requested :: play_state
  rpmsg_fd :: int
  current_channel :: nat
  data_params :: dma_buf_params
  options_params :: dma_buf_params
  lbuf :: local_buf_t
  ibuf :: ipc_msg_buf_t
  dspParams :: u64
  data_mem :: "nat \<Rightarrow> int16"
  params_mem :: params_t
  inputbuf :: "nat \<Rightarrow> int16"
  outputbuf :: "nat \<Rightarrow> int16"

definition mapped :: "'w world_scheme \<Rightarrow> u64 \<Rightarrow> bool" where
  "mapped s p \<longleftrightarrow> p \<in># live_maps (trace s)"

text \<open>\<open>dspParams->filter_enabled = v\<close>\<close>

definition store_filter :: "int \<Rightarrow> ('w app_world_scheme, unit) state" where
  "store_filter v = do {
     valid \<leftarrow> gets (\<lambda>s. mapped s (dspParams s));
     check_ub valid Invalid_pointer;
     modify (\<lambda>s. s\<lparr>params_mem := (params_mem s)\<lparr>dsp_filter_enabled := v\<rparr>\<rparr>) }"

definition enable_filter :: "kernel \<Rightarrow> bool \<Rightarrow> ('w app_world_scheme, unit) state" where
  "enable_filter K state = do {
     mode \<leftarrow> gets current_mode;
     if mode = EXEC_DSP then do {
       fd \<leftarrow> gets (\<lambda>s. dma_buf_fd (options_params s));
       _ \<leftarrow> dmabuf_sync K fd (DMA_BUF_SYNC_START K);
       store_filter (of_bool state);
       _ \<leftarrow> dmabuf_sync K fd (DMA_BUF_SYNC_END K);
       ret () }
     else modify (\<lambda>s. s\<lparr>filter_enabled := state\<rparr>) }"

definition zero_params :: dma_buf_params where
  "zero_params = \<lparr>dma_heap_fd = 0, dma_buf_fd = 0, rproc_fd = 0, kern_addr = 0, phys_addr = 0, buf_size = 0\<rparr>"

text \<open>The program's start.\<close>

definition zero_app :: app_world where
  "zero_app = host_world.extend zero_host
     \<lparr>current_mode = EXEC_ARM, filter_enabled = False, start_requested = START_PLAY,
      rpmsg_fd = -1, current_channel = 0, data_params = zero_params, options_params = zero_params,
      lbuf = \<lparr>lb_data_buf = 0, lb_params_buf = 0, lb_data_size = 0, lb_params_size = 0\<rparr>,
      ibuf = \<lparr>ib_data_buffer = 0, ib_params_buffer = 0, ib_data_size = 0, ib_params_size = 0, ib_graph_id = 0\<rparr>,
      dspParams = 0, data_mem = (\<lambda>_. 0), params_mem = \<lparr>dsp_load = 0, dsp_filter_enabled = 0\<rparr>,
      inputbuf = (\<lambda>_. 0), outputbuf = (\<lambda>_. 0)\<rparr>"

text \<open>The filter switch of the processing path in use.\<close>

definition filter_view :: "'w app_world_scheme \<Rightarrow> bool" where
  "filter_view s = (if current_mode s = EXEC_DSP then dsp_filter_enabled (params_mem s) \<noteq> 0 else filter_enabled s)"

lemma run_enable_filter:
  "run_state (enable_filter K b) s =
     (if current_mode s = EXEC_DSP then
        (let fd = dma_buf_fd (options_params s);
             f1 = word_of_int (DMA_BUF_SYNC_START K OR DMA_BUF_SYNC_RW K);
             f2 = word_of_int (DMA_BUF_SYNC_END K OR DMA_BUF_SYNC_RW K);
             t1 = trace s @ [Ev_dma_sync fd f1 (k_dma_sync K (trace s) fd f1)]
         in ((), s\<lparr>trace := t1 @ [Ev_dma_sync fd f2 (k_dma_sync K t1 fd f2)],
                  fault := (if mapped s (dspParams s) \<or> fault s \<noteq> None then fault s else Some Invalid_pointer),
                  params_mem := (params_mem s)\<lparr>dsp_filter_enabled := of_bool b\<rparr>\<rparr>))
      else ((), s\<lparr>filter_enabled := b\<rparr>))"
  by (simp add: enable_filter_def store_filter_def run_simps mapped_def fd_simps)

lemma enable_filter_view: "filter_view (exec (enable_filter K b) s) = b"
  by (simp add: run_enable_filter filter_view_def Let_def)

end
