(* ===== verification/Line_Reader.thy ===== *)
theory Line_Reader
  imports CString
begin

text \<open>
  The contract of a consumer that assembles lines from single characters: carriage returns
  are dropped, other characters are collected up to a limit, and a newline, or the first
  character past the limit, ends the line, which is then acted upon. What a whole stream
  does is proved once, from the contract: it depends on the lines of the stream only, not
  on the chunks it arrives in.
\<close>

text \<open>The complete lines of a stream that continues the text \<open>p\<close>, and the text left over.\<close>

fun split_stream :: "nat \<Rightarrow> string \<Rightarrow> string \<Rightarrow> string list \<times> string" where
  "split_stream limit p [] = ([], p)"
| "split_stream limit p (c # cs) =
     (if c = CR then split_stream limit p cs
      else if c = NL \<or> limit \<le> length p
      then let (ls, r) = split_stream limit [] cs in (p # ls, r)
      else split_stream limit (p @ [c]) cs)"

lemma split_stream_rest:
  "length p \<le> limit \<Longrightarrow> length (snd (split_stream limit p cs)) \<le> limit"
  by (induction limit p cs rule: split_stream.induct) (auto simp: split_beta)

lemma split_stream_append:
  "split_stream limit p (xs @ ys) =
     (let (ls, r) = split_stream limit p xs; (ls', r') = split_stream limit r ys in (ls @ ls', r'))"
  by (induction limit p xs rule: split_stream.induct) (auto simp: split_beta Let_def)

lemma split_stream_line:
  "CR \<notin> set l \<Longrightarrow> NL \<notin> set l \<Longrightarrow> length p + length l \<le> limit \<Longrightarrow>
     split_stream limit p (l @ NL # cs) =
       (let (ls, r) = split_stream limit [] cs in ((p @ l) # ls, r))"
  by (induction l arbitrary: p) auto

locale line_consumer =
  fixes feed :: "char \<Rightarrow> 's \<Rightarrow> 's"
    and held :: "'s \<Rightarrow> string"
    and view :: "'s \<Rightarrow> 'v"
    and act :: "string \<Rightarrow> 'v \<Rightarrow> 'v"
    and invar :: "'s \<Rightarrow> bool"
    and limit :: nat
  assumes invar_feed: "invar s \<Longrightarrow> invar (feed c s)"
    and feed_cr: "invar s \<Longrightarrow> held (feed CR s) = held s \<and> view (feed CR s) = view s"
    and feed_char: "invar s \<Longrightarrow> c \<noteq> CR \<Longrightarrow> c \<noteq> NL \<Longrightarrow> length (held s) < limit \<Longrightarrow>
        held (feed c s) = held s @ [c] \<and> view (feed c s) = view s"
    and feed_end: "invar s \<Longrightarrow> c \<noteq> CR \<Longrightarrow> c = NL \<or> limit \<le> length (held s) \<Longrightarrow>
        held (feed c s) = [] \<and> view (feed c s) = act (held s) (view s)"
begin

lemma stream:
  "invar s \<Longrightarrow> split_stream limit (held s) cs = (ls, r) \<Longrightarrow>
     view (fold feed cs s) = fold act ls (view s) \<and> held (fold feed cs s) = r \<and> invar (fold feed cs s)"
proof (induction cs arbitrary: s ls)
  case Nil
  then show ?case by simp
next
  case (Cons c cs)
  note inv = invar_feed [OF Cons.prems(1), of c]
  consider "c = CR" | "c \<noteq> CR" "c = NL \<or> limit \<le> length (held s)"
    | "c \<noteq> CR" "c \<noteq> NL" "length (held s) < limit" by linarith
  then show ?case
  proof cases
    case 1
    then show ?thesis
      using Cons.IH [OF inv] Cons.prems feed_cr [OF Cons.prems(1)] by simp
  next
    case 2
    obtain ls' where "split_stream limit [] cs = (ls', r)" "ls = held s # ls'"
      using Cons.prems(2) 2 by (auto split: prod.splits)
    then show ?thesis
      using Cons.IH [OF inv] feed_end [OF Cons.prems(1) 2] by simp
  next
    case 3
    then show ?thesis
      using Cons.IH [OF inv] Cons.prems(2) feed_char [OF Cons.prems(1) 3] by simp
  qed
qed

end

end
