(* ===== verification/Cmd_Listener.thy ===== *)
theory Cmd_Listener
  imports App_State Line_Reader
begin

text \<open>
  The command channel of \<^verbatim>\<open>host_interface.c\<close>: \<open>cmd_listener\<close> waits for the client, polls its
  descriptor, assembles lines from the bytes it reads and carries out the one command there
  is, \<^verbatim>\<open>SET FFT FILTER <number>\<close>.
\<close>

subsection \<open>The operations\<close>

definition FILTER_COMMAND :: string where
  "FILTER_COMMAND = ''SET FFT FILTER ''"

text \<open>
  What happens with a complete, non-empty line. Where \<open>sscanf\<close> converts nothing, the code
  goes on to pass a variable it never assigned.
\<close>

definition run_command :: "kernel \<Rightarrow> string \<Rightarrow> ('w app_world_scheme, unit) state" where
  "run_command K line =
     (if strncmp_eq line FILTER_COMMAND 15 then
        case sscanf_d (drop 15 (c_str line)) of
          None \<Rightarrow> raise_ub Uninitialised_read
        | Some v \<Rightarrow> enable_filter K (v \<noteq> 0)
      else ret ())"

definition cmd_char :: "kernel \<Rightarrow> char \<Rightarrow> ('w app_world_scheme, unit) state" where
  "cmd_char K c =
     (if c = CR then ret ()
      else do {
        ofs \<leftarrow> gets lineofs;
        check_ub (ofs < LINEBUF_SIZE) Buffer_overflow;
        if c = NL \<or> ofs \<ge> LINEBUF_SIZE - 1 then do {
          modify (\<lambda>s. s\<lparr>linebuf := (linebuf s)(ofs := NUL)\<rparr>);
          line \<leftarrow> gets (\<lambda>s. extent (linebuf s) LINEBUF_SIZE);
          (if ofs > 0 then run_command K (c_str line) else ret ());
          modify (\<lambda>s. s\<lparr>lineofs := 0\<rparr>) }
        else modify (\<lambda>s. s\<lparr>linebuf := (linebuf s)(ofs := c), lineofs := ofs + 1\<rparr>) })"

fun cmd_bytes :: "kernel \<Rightarrow> string \<Rightarrow> ('w app_world_scheme, unit) state" where
  "cmd_bytes K [] = ret ()"
| "cmd_bytes K (c # cs) = do { cmd_char K c; cmd_bytes K cs }"

text \<open>One turn of the loop: whether it goes on, and the timeout for the next turn.\<close>

definition cmd_poll :: "kernel \<Rightarrow> int \<Rightarrow> int \<Rightarrow> ('w app_world_scheme, bool \<times> int) state" where
  "cmd_poll K cmd_fd tv = do {
     a \<leftarrow> sys_select K cmd_fd tv;
     let (r, tv') = a;
     if r < 0 then ret (True, tv')
     else if r = 0 then ret (True, tv')
     else do {
       b \<leftarrow> sys_read K cmd_fd 255;
       let (n, bs) = b;
       if n \<le> 0 then do { sys_close cmd_fd; ret (False, tv') }
       else do { cmd_bytes K bs; ret (True, tv') } } }"

fun cmd_loop :: "kernel \<Rightarrow> int \<Rightarrow> int \<Rightarrow> nat \<Rightarrow> ('w app_world_scheme, unit) state" where
  "cmd_loop K cmd_fd tv 0 = ret ()"
| "cmd_loop K cmd_fd tv (Suc fuel) = do {
     a \<leftarrow> cmd_poll K cmd_fd tv;
     if fst a then cmd_loop K cmd_fd (snd a) fuel else ret () }"

text \<open>
  The thread, for at most \<open>fuel\<close> turns of its loop: until a client is connected it sleeps,
  which changes nothing.
\<close>

definition cmd_listener :: "kernel \<Rightarrow> nat \<Rightarrow> ('w app_world_scheme, unit) state" where
  "cmd_listener K fuel = do {
     connected \<leftarrow> gets isCmdConnected;
     if \<not> connected then ret ()
     else do {
       cmd_fd \<leftarrow> gets (\<lambda>s. if is_host_eth_iface (app_config s) then client_cmd_fd s else uart_fd s);
       cmd_loop K cmd_fd 100000 fuel } }"

subsection \<open>The line buffer as a line consumer\<close>

definition line_ok :: "'w host_world_scheme \<Rightarrow> bool" where
  "line_ok s \<longleftrightarrow> lineofs s < LINEBUF_SIZE"

definition held_text :: "'w host_world_scheme \<Rightarrow> string" where
  "held_text s = extent (linebuf s) (lineofs s)"

text \<open>Everything but the line buffer.\<close>

definition sans_line :: "'w host_world_scheme \<Rightarrow> 'w host_world_scheme" where
  "sans_line s = s\<lparr>linebuf := (\<lambda>_. NUL), lineofs := 0\<rparr>"

definition line_act :: "kernel \<Rightarrow> string \<Rightarrow> 'w app_world_scheme \<Rightarrow> 'w app_world_scheme" where
  "line_act K l s = (if l = [] then s else exec (run_command K (c_str l)) s)"

lemma extent_split: "i < n \<Longrightarrow> extent f n = extent f i @ f i # map f [Suc i..<n]"
  using upt_add_eq_append [of 0 i "n - i"] by (simp add: extent_def upt_conv_Cons)

lemma c_str_extent: "i < n \<Longrightarrow> f i = NUL \<Longrightarrow> c_str (extent f n) = c_str (extent f i)"
  by (simp add: extent_split)

lemma run_command_sans:
  "exec (run_command K l) (sans_line s) = sans_line (exec (run_command K l) s)"
  by (simp add: run_command_def run_enable_filter run_raise_ub sans_line_def mapped_def Let_def
      split: option.split)

lemma run_command_frame:
  "linebuf (exec (run_command K l) s) = linebuf s" "lineofs (exec (run_command K l) s) = lineofs s"
  by (simp_all add: run_command_def run_enable_filter run_raise_ub Let_def split: option.split)

lemma sans_line_upd:
  "sans_line (s\<lparr>linebuf := b\<rparr>) = sans_line s" "sans_line (s\<lparr>lineofs := n\<rparr>) = sans_line s"
  "sans_line (s\<lparr>linebuf := b, lineofs := n\<rparr>) = sans_line s"
  by (simp_all add: sans_line_def)

lemma run_cmd_char:
  assumes ok: "line_ok s"
  shows "exec (cmd_char K c) s =
     (if c = CR then s
      else if c = NL \<or> LINEBUF_SIZE - 1 \<le> lineofs s
      then (let s' = s\<lparr>linebuf := (linebuf s)(lineofs s := NUL)\<rparr>
            in (if lineofs s > 0 then exec (run_command K (c_str (held_text s))) s' else s')\<lparr>lineofs := 0\<rparr>)
      else s\<lparr>linebuf := (linebuf s)(lineofs s := c), lineofs := lineofs s + 1\<rparr>)"
proof (cases "c = CR \<or> \<not> (c = NL \<or> LINEBUF_SIZE - 1 \<le> lineofs s)")
  case True
  then show ?thesis
    using ok by (cases "c = CR") (simp_all add: cmd_char_def line_ok_def run_check_ub)
next
  case False
  have content: "c_str (extent ((linebuf s)(lineofs s := NUL)) LINEBUF_SIZE) = c_str (held_text s)"
    using c_str_extent [of "lineofs s" LINEBUF_SIZE "(linebuf s)(lineofs s := NUL)"] ok
      extent_cong [of "lineofs s" "(linebuf s)(lineofs s := NUL)" "linebuf s"]
    by (simp add: line_ok_def held_text_def)
  show ?thesis
    using False ok by (cases "0 < lineofs s") (simp_all add: cmd_char_def line_ok_def run_check_ub content split_beta Let_def)
qed

interpretation cmd: line_consumer
    "\<lambda>c. exec (cmd_char K c)" held_text sans_line "line_act K" line_ok "LINEBUF_SIZE - 1" for K
proof (unfold_locales, goal_cases)
  case (1 s c)
  then show ?case
    by (auto simp: run_cmd_char Let_def) (auto simp: line_ok_def LINEBUF_SIZE_def)
next
  case (2 s)
  then show ?case by (simp add: run_cmd_char)
next
  case (3 s c)
  then show ?case
    by (simp add: run_cmd_char sans_line_upd held_text_def extent_upd_Suc not_le)
next
  case (4 s c)
  have "held_text s = [] \<longleftrightarrow> lineofs s = 0"
    by (simp add: held_text_def extent_def)
  then show ?case
    using 4 by (auto simp: run_cmd_char Let_def sans_line_upd line_act_def run_command_sans [symmetric])
      (auto simp: held_text_def)
qed

lemma cmd_bytes_fold: "exec (cmd_bytes K cs) s = fold (\<lambda>c. exec (cmd_char K c)) cs s"
  by (induction cs arbitrary: s) (simp_all add: split_beta)

text \<open>One line, with the newlines after it, at the start of a line.\<close>

lemma cmd_line:
  assumes "line_ok s" and "held_text s = []" and "CR \<notin> set l" and "NL \<notin> set l"
    and "length l \<le> LINEBUF_SIZE - 1" and "set nls \<subseteq> {NL}"
  shows "sans_line (exec (cmd_bytes K (l @ NL # nls)) s) = line_act K l (sans_line s) \<and>
    held_text (exec (cmd_bytes K (l @ NL # nls)) s) = []"
proof -
  have "split_stream (LINEBUF_SIZE - 1) [] nls = (replicate (length nls) [], [])"
    using assms(6) by (induction nls) auto
  then have split: "split_stream (LINEBUF_SIZE - 1) (held_text s) (l @ NL # nls) = (l # replicate (length nls) [], [])"
    using split_stream_line [OF assms(3,4), of "[]" "LINEBUF_SIZE - 1" nls] assms(2,5) by simp
  have idle: "(line_act K [] ^^ n) t = t" for n t
    by (induction n) (simp_all add: line_act_def)
  show ?thesis
    using cmd.stream [OF assms(1) split, of K] by (simp add: cmd_bytes_fold idle)
qed

lemma filter_view_sans: "filter_view (sans_line s) = filter_view s"
  by (simp add: filter_view_def sans_line_def)

lemma filter_line_clean:
  assumes "CR \<notin> set arg" and "NL \<notin> set arg" and "NUL \<notin> set arg"
  shows "CR \<notin> set (FILTER_COMMAND @ arg)" "NL \<notin> set (FILTER_COMMAND @ arg)" "NUL \<notin> set (FILTER_COMMAND @ arg)"
  using assms by (auto simp: FILTER_COMMAND_def)

lemma line_act_filter:
  assumes "NUL \<notin> set arg"
  shows "line_act K (FILTER_COMMAND @ arg) s =
     exec (case sscanf_d arg of None \<Rightarrow> raise_ub Uninitialised_read | Some v \<Rightarrow> enable_filter K (v \<noteq> 0)) s"
  using assms by (simp add: line_act_def run_command_def strncmp_eq_def FILTER_COMMAND_def)

text \<open>The filter command with a number.\<close>

lemma filter_line:
  assumes "line_ok s" and "held_text s = []" and "is_int32 v" and "set nls \<subseteq> {NL}"
  shows "sans_line (exec (cmd_bytes K (''SET FFT FILTER '' @ show_int v @ NL # nls)) s) = exec (enable_filter K (v \<noteq> 0)) (sans_line s)"
    "held_text (exec (cmd_bytes K (''SET FFT FILTER '' @ show_int v @ NL # nls)) s) = []"
proof -
  define l where "l = FILTER_COMMAND @ show_int v"
  let ?t = "exec (cmd_bytes K (l @ NL # nls)) s"
  have digits: "c \<in> set (show_int v) \<Longrightarrow> c = CHR ''-'' \<or> isdigit c" for c
    using show_nat_digits by (auto simp: show_int_def split: if_splits)
  have digits_clean: "CR \<notin> set (show_int v)" "NL \<notin> set (show_int v)" "NUL \<notin> set (show_int v)"
    using digits [of CR] digits [of NL] digits [of NUL] by (auto simp: isdigit_def)
  have len: "length l \<le> LINEBUF_SIZE - 1"
    using length_show_int32 [of v] assms(3) by (simp add: l_def FILTER_COMMAND_def LINEBUF_SIZE_def)
  have t: "sans_line ?t = line_act K l (sans_line s)" "held_text ?t = []"
    using cmd_line [OF assms(1,2) filter_line_clean(1,2) [OF digits_clean] len [unfolded l_def] assms(4), of K]
    by (simp_all add: l_def)
  have "sscanf_d (show_int v) = Some v"
    using sscanf_d_show_int [of v "[]"] assms(3) by simp
  then have "line_act K l (sans_line s) = exec (enable_filter K (v \<noteq> 0)) (sans_line s)"
    by (simp add: l_def line_act_filter digits_clean)
  then show "sans_line (exec (cmd_bytes K (''SET FFT FILTER '' @ show_int v @ NL # nls)) s) = exec (enable_filter K (v \<noteq> 0)) (sans_line s)"
    "held_text (exec (cmd_bytes K (''SET FFT FILTER '' @ show_int v @ NL # nls)) s) = []"
    using t by (simp_all add: l_def FILTER_COMMAND_def)
qed

subsection \<open>Properties\<close>

text \<open>
  C9: the command channel works on lines, whatever chunks the bytes arrive in. Reading the
  bytes \<open>bs\<close> carries out, in order, the complete lines of the stream (carriage returns
  dropped, a line ended by a newline or by the character that no longer fits) and holds the
  rest back for the next read; apart from the line buffer the state changes by these commands
  only. The index never leaves the 512-byte buffer.
\<close>
theorem cmd_bytes_lines:
  assumes "line_ok s" and "split_stream (LINEBUF_SIZE - 1) (held_text s) bs = (ls, r)"
  shows "sans_line (exec (cmd_bytes K bs) s) = fold (line_act K) ls (sans_line s) \<and>
    held_text (exec (cmd_bytes K bs) s) = r \<and> line_ok (exec (cmd_bytes K bs) s)"
  unfolding cmd_bytes_fold by (rule cmd.stream [OF assms])

lemma zero_app_line: "line_ok zero_app" "held_text zero_app = []"
  by (simp_all add: line_ok_def held_text_def zero_app_def zero_host_def host_world.defs LINEBUF_SIZE_def)

theorem cmd_bytes_lines_witness:
  "held_text (exec (cmd_bytes sample_kernel (''HELLO'' @ [CR, NL] @ ''SE'')) zero_app) = ''SE''"
  using cmd_bytes_lines [OF zero_app_line(1), of "''HELLO'' @ [CR, NL] @ ''SE''" "[''HELLO'']" "''SE''" sample_kernel]
  by (simp add: zero_app_line(2) LINEBUF_SIZE_def)

text \<open>
  C10: the filter command of the host utility takes effect. The text \<^verbatim>\<open>SET FFT FILTER v\<close>
  with the two newlines the utility sends, for any \<open>int\<close> v, read at the start of a line, leaves
  the filter switch of the processing path in use on exactly if v is not 0, and the channel at
  the start of a line.
\<close>
theorem filter_command_roundtrip:
  assumes "line_ok s" and "held_text s = []" and "is_int32 v"
  shows "filter_view (exec (cmd_bytes K (''SET FFT FILTER '' @ show_int v @ [NL, NL])) s) = (v \<noteq> 0) \<and>
    held_text (exec (cmd_bytes K (''SET FFT FILTER '' @ show_int v @ [NL, NL])) s) = []"
proof -
  let ?t = "exec (cmd_bytes K (''SET FFT FILTER '' @ show_int v @ [NL, NL])) s"
  have t: "sans_line ?t = exec (enable_filter K (v \<noteq> 0)) (sans_line s)" "held_text ?t = []"
    using filter_line [OF assms, of "[NL]" K] by simp_all
  have "filter_view (sans_line ?t) = (v \<noteq> 0)"
    unfolding t(1) by (rule enable_filter_view)
  then show ?thesis
    using t(2) by (simp only: filter_view_sans)
qed

theorem filter_command_roundtrip_witness:
  "filter_view (exec (cmd_bytes sample_kernel (''SET FFT FILTER 1'' @ [NL, NL])) zero_app)"
proof -
  have "show_int 1 = ''1''" by code_simp
  then show ?thesis
    using filter_command_roundtrip [OF zero_app_line, of 1 sample_kernel] by simp
qed

text \<open>
  C39: a filter command without a number is undefined behaviour: \<open>sscanf\<close> stores nothing and
  \<open>cmd_listener\<close> passes the variable it never assigned to \<open>enable_filter\<close>.
\<close>
theorem filter_command_without_number:
  assumes "line_ok s" and "held_text s = []" and "fault s = None"
    and "sscanf_d arg = None" and "length arg \<le> 496" and "{CR, NL, NUL} \<inter> set arg = {}"
  shows "fault (exec (cmd_bytes K (''SET FFT FILTER '' @ arg @ [NL])) s) = Some Uninitialised_read"
proof -
  define l where "l = FILTER_COMMAND @ arg"
  let ?t = "exec (cmd_bytes K (l @ [NL])) s"
  have arg: "CR \<notin> set arg" "NL \<notin> set arg" "NUL \<notin> set arg"
    using assms(6) by auto
  have len: "length l \<le> LINEBUF_SIZE - 1"
    using assms(5) by (simp add: l_def FILTER_COMMAND_def LINEBUF_SIZE_def)
  have "sans_line ?t = line_act K l (sans_line s)"
    using cmd_line [OF assms(1,2) filter_line_clean(1,2) [OF arg] len [unfolded l_def], of "[]" K]
    by (simp add: l_def)
  also have "\<dots> = exec (raise_ub Uninitialised_read) (sans_line s)"
    using assms(4) by (simp add: l_def line_act_filter arg)
  finally have "fault (sans_line ?t) = Some Uninitialised_read"
    using assms(3) by (simp add: run_raise_ub sans_line_def)
  then have "fault ?t = Some Uninitialised_read"
    by (simp add: sans_line_def)
  then show ?thesis by (simp add: l_def FILTER_COMMAND_def)
qed

theorem filter_command_without_number_witness:
  "fault (exec (cmd_bytes sample_kernel (''SET FFT FILTER '' @ ''on'' @ [NL])) zero_app) = Some Uninitialised_read"
proof (rule filter_command_without_number [OF zero_app_line])
  show "fault zero_app = None" by (simp add: zero_app_def zero_host_def host_world.defs)
  show "sscanf_d ''on'' = None" by code_simp
qed simp_all

text \<open>The timeouts a history polled with.\<close>

fun poll_timeout :: "event \<Rightarrow> int list" where
  "poll_timeout (Ev_select _ tv _ _) = [tv]"
| "poll_timeout _ = []"

definition poll_timeouts :: "event list \<Rightarrow> int list" where
  "poll_timeouts evs = concat (map poll_timeout evs)"

text \<open>
  An idle command channel is polled without pause. Linux leaves the time that remained in
  the timeout of \<open>select\<close>, which is 0 after a timeout, and \<open>cmd_listener\<close> sets the timeout only
  once, before its loop: after the first timeout every further poll waits for 0 microseconds.
\<close>
theorem cmd_loop_busy:
  assumes "\<And>tr tv. k_select K tr cmd_fd tv = (0, 0)"
  shows "poll_timeouts (trace (exec (cmd_loop K cmd_fd tv (Suc fuel)) s)) =
    poll_timeouts (trace s) @ tv # replicate fuel 0"
proof (induction fuel arbitrary: tv s)
  case 0
  then show ?case using assms by (simp add: cmd_poll_def run_simps poll_timeouts_def)
next
  case (Suc fuel)
  have "run_state (cmd_poll K cmd_fd tv) s = ((True, 0), s\<lparr>trace := trace s @ [Ev_select cmd_fd tv 0 0]\<rparr>)"
    using assms by (simp add: cmd_poll_def run_simps)
  then have "exec (cmd_loop K cmd_fd tv (Suc (Suc fuel))) s =
      exec (cmd_loop K cmd_fd 0 (Suc fuel)) (s\<lparr>trace := trace s @ [Ev_select cmd_fd tv 0 0]\<rparr>)"
    by (subst cmd_loop.simps) (simp del: cmd_loop.simps)
  then show ?case
    using Suc.IH [of 0 "s\<lparr>trace := trace s @ [Ev_select cmd_fd tv 0 0]\<rparr>"]
    by (simp del: cmd_loop.simps) (simp add: poll_timeouts_def)
qed

theorem cmd_loop_busy_witness:
  "poll_timeouts (trace (exec (cmd_loop (sample_kernel\<lparr>k_select := \<lambda>tr fd tv. (0, 0)\<rparr>) 7 100000 3) zero_app)) = [100000, 0, 0]"
  using cmd_loop_busy [of "sample_kernel\<lparr>k_select := \<lambda>tr fd tv. (0, 0)\<rparr>" 7 100000 2 zero_app]
  by (simp add: numeral_3_eq_3 del: cmd_loop.simps)
    (simp add: poll_timeouts_def zero_app_def zero_host_def host_world.defs numeral_2_eq_2 del: cmd_loop.simps)

end
