(* ===== verification/Send_Channel.thy ===== *)
theory Send_Channel
  imports Main
begin

text \<open>
  The contract of a buffered sender: an item adds its bytes to what is pending, and when they
  no longer fit, what is pending goes out as one packet first. That nothing is lost, repeated
  or reordered, and that a packet never cuts an item in two, follows from the contract.
\<close>

locale send_channel =
  fixes put :: "'x \<Rightarrow> 's \<Rightarrow> 's"
    and bytes :: "'x \<Rightarrow> 'b list"
    and sent :: "'s \<Rightarrow> 'b list list"
    and pending :: "'s \<Rightarrow> 'b list"
    and invar :: "'s \<Rightarrow> bool"
    and valid :: "'x \<Rightarrow> bool"
    and cap :: nat
  assumes invar_put: "invar s \<Longrightarrow> valid x \<Longrightarrow> invar (put x s)"
    and pending_cap: "invar s \<Longrightarrow> length (pending s) \<le> cap"
    and put_room: "invar s \<Longrightarrow> valid x \<Longrightarrow> length (pending s) + length (bytes x) \<le> cap \<Longrightarrow>
        sent (put x s) = sent s \<and> pending (put x s) = pending s @ bytes x"
    and put_full: "invar s \<Longrightarrow> valid x \<Longrightarrow> cap < length (pending s) + length (bytes x) \<Longrightarrow>
        sent (put x s) = sent s @ [pending s] \<and> pending (put x s) = bytes x"
begin

abbreviation (input) sends :: "'x list \<Rightarrow> 's \<Rightarrow> 's" where
  "sends xs s \<equiv> fold put xs s"

lemma invar_sends: "invar s \<Longrightarrow> \<forall>x \<in> set xs. valid x \<Longrightarrow> invar (sends xs s)"
  by (induction xs arbitrary: s) (simp_all add: invar_put)

lemma put_stream:
  "invar s \<Longrightarrow> valid x \<Longrightarrow> concat (sent (put x s)) @ pending (put x s) = concat (sent s) @ pending s @ bytes x"
  using put_room [of s x] put_full [of s x] by (cases "length (pending s) + length (bytes x) \<le> cap") simp_all

lemma stream:
  "invar s \<Longrightarrow> \<forall>x \<in> set xs. valid x \<Longrightarrow>
     concat (sent (sends xs s)) @ pending (sends xs s) = concat (sent s) @ pending s @ concat (map bytes xs)"
proof (induction xs arbitrary: s)
  case Nil
  then show ?case by simp
next
  case (Cons x xs)
  then show ?case
    using Cons.IH [of "put x s"] put_stream [of s x] by (simp add: invar_put append_assoc [symmetric] del: append_assoc)
qed

text \<open>
  Items of one size: each packet is the bytes of as many items as fit the capacity, and the
  last of these is still pending.
\<close>

lemma uniform_packets:
  assumes n: "0 < n"
  shows "invar s \<Longrightarrow> \<forall>x \<in> set xs. valid x \<and> length (bytes x) = n \<Longrightarrow> length (pending s) = k * n \<Longrightarrow>
     \<exists>ps k'. sent (sends xs s) = sent s @ ps \<and> (\<forall>p \<in> set ps. length p = cap div n * n) \<and>
       length (pending (sends xs s)) = k' * n \<and> k + length xs = length ps * (cap div n) + k' \<and>
       (xs \<noteq> [] \<longrightarrow> 0 < k')"
proof (induction xs arbitrary: s k)
  case Nil
  then show ?case by simp
next
  case (Cons x xs)
  have x: "valid x" "length (bytes x) = n" using Cons.prems(2) by auto
  have inv: "invar (put x s)" using Cons.prems(1) x(1) by (rule invar_put)
  show ?case
  proof (cases "length (pending s) + length (bytes x) \<le> cap")
    case True
    then have p: "sent (put x s) = sent s" "length (pending (put x s)) = Suc k * n"
      using put_room [OF Cons.prems(1) x(1)] Cons.prems(3) x(2) by simp_all
    obtain ps k' where IH: "sent (sends xs (put x s)) = sent (put x s) @ ps"
        "\<forall>p \<in> set ps. length p = cap div n * n" "length (pending (sends xs (put x s))) = k' * n"
        "Suc k + length xs = length ps * (cap div n) + k'" "xs \<noteq> [] \<longrightarrow> 0 < k'"
      using Cons.IH [OF inv _ p(2)] Cons.prems(2) by auto
    have "0 < k'"
      using IH(3,5) p(2) n by (cases xs; cases k') auto
    then show ?thesis
      using IH p(1) by (intro exI [of _ ps] exI [of _ k']) simp
  next
    case False
    then have p: "sent (put x s) = sent s @ [pending s]" "length (pending (put x s)) = 1 * n"
      using put_full [OF Cons.prems(1) x(1)] x(2) by simp_all
    have "k * n \<le> cap" "cap < Suc k * n"
      using pending_cap [OF Cons.prems(1)] Cons.prems(3) False x(2) by simp_all
    then have k: "cap div n = k"
      by (intro div_nat_eqI) (simp_all add: mult.commute)
    then have full: "length (pending s) = cap div n * n"
      using Cons.prems(3) by simp
    obtain ps k' where IH: "sent (sends xs (put x s)) = sent (put x s) @ ps"
        "\<forall>p \<in> set ps. length p = cap div n * n" "length (pending (sends xs (put x s))) = k' * n"
        "1 + length xs = length ps * (cap div n) + k'" "xs \<noteq> [] \<longrightarrow> 0 < k'"
      using Cons.IH [OF inv _ p(2)] Cons.prems(2) by auto
    have "0 < k'"
      using IH(3,5) p(2) n by (cases xs; cases k') auto
    then show ?thesis
      using IH p(1) full k by (intro exI [of _ "pending s # ps"] exI [of _ k']) simp
  qed
qed

lemma uniform_sent:
  assumes "0 < n" and "n \<le> cap" and "invar s" and "\<forall>x \<in> set xs. valid x \<and> length (bytes x) = n"
    and "pending s = []" and "sent s = []"
  shows "concat (sent (sends xs s)) =
    concat (map bytes (take ((length xs - 1) div (cap div n) * (cap div n)) xs))"
proof -
  let ?m = "cap div n"
  obtain ps k' where ps: "sent (sends xs s) = ps" "\<forall>p \<in> set ps. length p = ?m * n"
      "length (pending (sends xs s)) = k' * n" "length xs = length ps * ?m + k'" "xs \<noteq> [] \<longrightarrow> 0 < k'"
    using uniform_packets [OF assms(1,3,4), of 0] assms(5,6) by auto
  have "k' * n \<le> cap"
    using pending_cap [OF invar_sends [OF assms(3)], of xs] assms(4) ps(3) by auto
  then have "k' \<le> ?m" using assms(1) by (simp add: less_eq_div_iff_mult_less_eq)
  moreover have "0 < ?m" using assms(1,2) by (simp add: div_greater_zero_iff)
  ultimately have count: "(length xs - 1) div ?m = length ps"
    using ps(4,5) by (cases "xs = []") (auto intro!: div_nat_eqI simp: algebra_simps)
  have len: "length (concat (map bytes ys)) = length ys * n" if "set ys \<subseteq> set xs" for ys
    using that assms(4) by (induction ys) auto
  have psl: "length (concat ps) = length ps * (?m * n)"
    using ps(2) by (induction ps) auto
  define ys where "ys = take (length ps * ?m) xs"
  define zs where "zs = drop (length ps * ?m) xs"
  have "concat ps @ pending (sends xs s) = concat (map bytes ys) @ concat (map bytes zs)"
    using stream [OF assms(3), of xs] assms(4-6) ps(1) unfolding ys_def zs_def
    by (simp flip: concat_append map_append)
  moreover have "length (concat (map bytes ys)) = length (concat ps)"
    using len [of ys] psl ps(4) by (simp add: ys_def set_take_subset)
  ultimately have "concat ps = concat (map bytes ys)"
    by simp
  then show ?thesis using ps(1) count by (simp add: ys_def)
qed

end

end
