(* ===== verification/Send_Buffer.thy ===== *)
theory Send_Buffer
  imports Host_State Descriptors Send_Channel
begin

text \<open>
  The data channels of \<^verbatim>\<open>host_interface.c\<close>: \<open>enqueue_input_buffer\<close> and
  \<open>enqueue_output_buffer\<close> collect blocks of samples, each behind a tag, in a buffer of 16 KiB
  that is sent to the client when the next block no longer fits. The blocks and buffers are
  bytes; a sample is stored little-endian, as on the target. The counts the callers pass are
  not negative, and the tag has an even length (stores of 16 bits are aligned).
\<close>

subsection \<open>Samples as bytes\<close>

definition le16 :: "int16 \<Rightarrow> string" where
  "le16 v = [char_of (unat v mod 256), char_of (unat v div 256)]"

lemma length_le16 [simp]: "length (le16 v) = 2"
  by (simp add: le16_def)

text \<open>The samples of channel \<open>ch\<close> of an interleaved buffer, and a block as it is sent.\<close>

definition channel_samples :: "int16 list \<Rightarrow> nat \<Rightarrow> nat \<Rightarrow> nat \<Rightarrow> int16 list" where
  "channel_samples buf num_frames num_channels ch = map (\<lambda>i. buf ! (i * num_channels + ch)) [0..<num_frames]"

datatype data_block = Block (block_tag: string) (block_samples: "int16 list")

definition block_bytes :: "data_block \<Rightarrow> string" where
  "block_bytes b = block_tag b @ concat (map le16 (block_samples b))"

subsection \<open>The operations\<close>

definition flush_send_input_buffer :: "kernel \<Rightarrow> ('w host_world_scheme, unit) state" where
  "flush_send_input_buffer K = do {
     fd \<leftarrow> gets client_indata_fd;
     eth \<leftarrow> gets (\<lambda>s. is_host_eth_iface (app_config s));
     if fd \<ge> 0 \<and> eth then do {
       ofs \<leftarrow> gets send_inoffset;
       if ofs > 0 then do {
         check_ub (ofs \<le> SEND_BUFFER_SIZE) Out_of_bounds_read;
         bs \<leftarrow> gets (\<lambda>s. extent (send_inbuffer s) ofs);
         _ \<leftarrow> sys_send K fd bs;
         modify (\<lambda>s. s\<lparr>send_inoffset := 0\<rparr>) }
       else ret () }
     else modify (\<lambda>s. s\<lparr>send_inoffset := 0\<rparr>) }"

text \<open>The loop over the frames from \<open>i\<close> on.\<close>

fun copy_input_samples ::
  "int16 list \<Rightarrow> nat \<Rightarrow> nat \<Rightarrow> nat \<Rightarrow> nat \<Rightarrow> ('w host_world_scheme, unit) state" where
  "copy_input_samples buf num_channels ch i 0 = ret ()"
| "copy_input_samples buf num_channels ch i (Suc n) = do {
     check_ub (i * num_channels + ch < length buf) Out_of_bounds_read;
     let v = buf ! (i * num_channels + ch);
     ofs \<leftarrow> gets send_inoffset;
     check_ub (ofs + 2 * i + 2 \<le> SEND_BUFFER_SIZE) Buffer_overflow;
     modify (\<lambda>s. s\<lparr>send_inbuffer := poke (send_inbuffer s) (ofs + 2 * i) (le16 v)\<rparr>);
     logging \<leftarrow> gets (\<lambda>s. enable_audio_logging (app_config s));
     fp \<leftarrow> gets fp_in;
     (if logging then case fp of None \<Rightarrow> ret () | Some path \<Rightarrow> emit (Ev_fprintf path (sint v)) else ret ());
     copy_input_samples buf num_channels ch (Suc i) n }"

definition enqueue_input_buffer ::
  "kernel \<Rightarrow> string \<Rightarrow> int16 list \<Rightarrow> nat \<Rightarrow> nat \<Rightarrow> nat \<Rightarrow> ('w host_world_scheme, unit) state" where
  "enqueue_input_buffer K tag buf num_frames num_channels ch = do {
     let tag_size = length tag;
     let size = num_frames * 2;
     ofs \<leftarrow> gets send_inoffset;
     (if ofs + tag_size + size > SEND_BUFFER_SIZE then flush_send_input_buffer K else ret ());
     ofs \<leftarrow> gets send_inoffset;
     check_ub (ofs + tag_size \<le> SEND_BUFFER_SIZE) Buffer_overflow;
     modify (\<lambda>s. s\<lparr>send_inbuffer := poke (send_inbuffer s) ofs tag\<rparr>);
     modify (\<lambda>s. s\<lparr>send_inoffset := send_inoffset s + tag_size\<rparr>);
     copy_input_samples buf num_channels ch 0 num_frames;
     modify (\<lambda>s. s\<lparr>send_inoffset := send_inoffset s + size\<rparr>) }"

definition flush_send_output_buffer :: "kernel \<Rightarrow> ('w host_world_scheme, unit) state" where
  "flush_send_output_buffer K = do {
     fd \<leftarrow> gets client_outdata_fd;
     eth \<leftarrow> gets (\<lambda>s. is_host_eth_iface (app_config s));
     if fd \<ge> 0 \<and> eth then do {
       ofs \<leftarrow> gets send_outoffset;
       if ofs > 0 then do {
         check_ub (ofs \<le> SEND_BUFFER_SIZE) Out_of_bounds_read;
         bs \<leftarrow> gets (\<lambda>s. extent (send_outbuffer s) ofs);
         _ \<leftarrow> sys_send K fd bs;
         modify (\<lambda>s. s\<lparr>send_outoffset := 0\<rparr>) }
       else ret () }
     else modify (\<lambda>s. s\<lparr>send_outoffset := 0\<rparr>) }"

text \<open>The loop over the frames from \<open>i\<close> on.\<close>

fun copy_output_samples ::
  "int16 list \<Rightarrow> nat \<Rightarrow> nat \<Rightarrow> nat \<Rightarrow> nat \<Rightarrow> ('w host_world_scheme, unit) state" where
  "copy_output_samples buf num_channels ch i 0 = ret ()"
| "copy_output_samples buf num_channels ch i (Suc n) = do {
     check_ub (i * num_channels + ch < length buf) Out_of_bounds_read;
     let v = buf ! (i * num_channels + ch);
     ofs \<leftarrow> gets send_outoffset;
     check_ub (ofs + 2 * i + 2 \<le> SEND_BUFFER_SIZE) Buffer_overflow;
     modify (\<lambda>s. s\<lparr>send_outbuffer := poke (send_outbuffer s) (ofs + 2 * i) (le16 v)\<rparr>);
     logging \<leftarrow> gets (\<lambda>s. enable_audio_logging (app_config s));
     fp \<leftarrow> gets fp_out;
     (if logging then case fp of None \<Rightarrow> ret () | Some path \<Rightarrow> emit (Ev_fprintf path (sint v)) else ret ());
     copy_output_samples buf num_channels ch (Suc i) n }"

definition enqueue_output_buffer ::
  "kernel \<Rightarrow> string \<Rightarrow> int16 list \<Rightarrow> nat \<Rightarrow> nat \<Rightarrow> nat \<Rightarrow> ('w host_world_scheme, unit) state" where
  "enqueue_output_buffer K tag buf num_frames num_channels ch = do {
     let tag_size = length tag;
     let size = num_frames * 2;
     ofs \<leftarrow> gets send_outoffset;
     (if ofs + tag_size + size > SEND_BUFFER_SIZE then flush_send_output_buffer K else ret ());
     ofs \<leftarrow> gets send_outoffset;
     check_ub (ofs + tag_size \<le> SEND_BUFFER_SIZE) Buffer_overflow;
     modify (\<lambda>s. s\<lparr>send_outbuffer := poke (send_outbuffer s) ofs tag\<rparr>);
     modify (\<lambda>s. s\<lparr>send_outoffset := send_outoffset s + tag_size\<rparr>);
     copy_output_samples buf num_channels ch 0 num_frames;
     modify (\<lambda>s. s\<lparr>send_outoffset := send_outoffset s + size\<rparr>) }"

subsection \<open>Lemmas\<close>

text \<open>What was sent on a descriptor, packet by packet.\<close>

fun sent_packet :: "int \<Rightarrow> event \<Rightarrow> string list" where
  "sent_packet fd (Ev_send fd' bs _) = (if fd' = fd then [bs] else [])"
| "sent_packet fd _ = []"

definition packets :: "int \<Rightarrow> event list \<Rightarrow> string list" where
  "packets fd evs = concat (map (sent_packet fd) evs)"

lemma packets_append [simp]: "packets fd (xs @ ys) = packets fd xs @ packets fd ys"
  by (simp add: packets_def)

lemma packets_Cons [simp]: "packets fd (e # evs) = sent_packet fd e @ packets fd evs"
  by (simp add: packets_def)

lemma packets_Nil [simp]: "packets fd [] = []"
  by (simp add: packets_def)

text \<open>The lines written to a capture file.\<close>

definition capture :: "bool \<Rightarrow> string option \<Rightarrow> int16 list \<Rightarrow> event list" where
  "capture logging fp vs =
     (if logging then case fp of None \<Rightarrow> [] | Some path \<Rightarrow> map (\<lambda>v. Ev_fprintf path (sint v)) vs else [])"

lemma capture_Nil [simp]: "capture l fp [] = []"
  by (simp add: capture_def split: option.split)

lemma capture_step: "capture l fp [v] @ capture l fp vs = capture l fp (v # vs)"
  by (simp add: capture_def split: option.split)

lemma packets_capture [simp]: "packets fd (capture l fp vs) = []"
proof -
  have "packets fd (map (\<lambda>v. Ev_fprintf path (sint v)) ws) = []" for path and ws :: "int16 list"
    by (induction ws) simp_all
  then show ?thesis by (simp add: capture_def split: option.split)
qed

lemma poke_append: "poke (poke f o1 xs) (o1 + length xs) ys = poke f o1 (xs @ ys)"
  by (rule ext) (auto simp: poke_def nth_append)

lemma poke_Nil [simp]: "poke f ofs [] = f"
  by (rule ext) (auto simp: poke_def)

text \<open>The samples of the frames from \<open>i\<close> on.\<close>

definition samples_from :: "int16 list \<Rightarrow> nat \<Rightarrow> nat \<Rightarrow> nat \<Rightarrow> nat \<Rightarrow> int16 list" where
  "samples_from buf num_channels ch i n = map (\<lambda>j. buf ! (j * num_channels + ch)) [i..<i + n]"

lemma samples_from_0: "samples_from buf num_channels ch i 0 = []"
  by (simp add: samples_from_def)

lemma length_samples_from [simp]: "length (samples_from buf num_channels ch i n) = n"
  by (simp add: samples_from_def)

lemma samples_from_Suc:
  "samples_from buf num_channels ch i (Suc n) =
     buf ! (i * num_channels + ch) # samples_from buf num_channels ch (Suc i) n"
  by (simp add: samples_from_def upt_conv_Cons del: upt_Suc)

lemma length_bytes [simp]: "length (concat (map le16 vs)) = 2 * length vs"
  by (induction vs) simp_all

definition enough :: "int16 list \<Rightarrow> nat \<Rightarrow> nat \<Rightarrow> nat \<Rightarrow> bool" where
  "enough buf num_channels ch n \<longleftrightarrow> (\<forall>i < n. i * num_channels + ch < length buf)"

lemma emit_capture:
  "run_state (if logging then case fp of None \<Rightarrow> ret () | Some path \<Rightarrow> emit (Ev_fprintf path (sint v)) else ret ()) s =
     ((), s\<lparr>trace := trace s @ capture logging fp [v]\<rparr>)"
  by (simp add: capture_def run_simps split: option.split)

lemma run_copy_input:
  "enough buf num_channels ch (i + n) \<Longrightarrow> send_inoffset s + 2 * (i + n) \<le> SEND_BUFFER_SIZE \<Longrightarrow>
   run_state (copy_input_samples buf num_channels ch i n) s =
     ((), s\<lparr>send_inbuffer := poke (send_inbuffer s) (send_inoffset s + 2 * i)
                (concat (map le16 (samples_from buf num_channels ch i n))),
            trace := trace s @ capture (enable_audio_logging (app_config s)) (fp_in s)
                (samples_from buf num_channels ch i n)\<rparr>)"
proof (induction n arbitrary: i s)
  case 0
  then show ?case by (simp add: samples_from_0)
next
  case (Suc n)
  let ?v = "buf ! (i * num_channels + ch)"
  let ?s = "s\<lparr>send_inbuffer := poke (send_inbuffer s) (send_inoffset s + 2 * i) (le16 ?v),
      trace := trace s @ capture (enable_audio_logging (app_config s)) (fp_in s) [?v]\<rparr>"
  have inb: "i * num_channels + ch < length buf" "send_inoffset s + 2 * i + 2 \<le> SEND_BUFFER_SIZE"
    using Suc.prems by (simp_all add: enough_def)
  have "run_state (copy_input_samples buf num_channels ch i (Suc n)) s =
      run_state (copy_input_samples buf num_channels ch (Suc i) n) ?s"
    using inb by (simp add: run_check_ub emit_capture Let_def)
  also have "\<dots> = ((), s\<lparr>send_inbuffer := poke (send_inbuffer s) (send_inoffset s + 2 * i)
                (concat (map le16 (samples_from buf num_channels ch i (Suc n)))),
            trace := trace s @ capture (enable_audio_logging (app_config s)) (fp_in s)
                (samples_from buf num_channels ch i (Suc n))\<rparr>)"
    using Suc.IH [of "Suc i" ?s] Suc.prems
      poke_append [of "send_inbuffer s" "send_inoffset s + 2 * i" "le16 ?v"]
    by (simp add: samples_from_Suc capture_step)
  finally show ?case .
qed

definition input_ready :: "'w host_world_scheme \<Rightarrow> bool" where
  "input_ready s \<longleftrightarrow> 0 \<le> client_indata_fd s \<and> is_host_eth_iface (app_config s) \<and>
     send_inoffset s \<le> SEND_BUFFER_SIZE"

definition input_pending :: "'w host_world_scheme \<Rightarrow> string" where
  "input_pending s = extent (send_inbuffer s) (send_inoffset s)"

definition input_packets :: "'w host_world_scheme \<Rightarrow> string list" where
  "input_packets s = packets (client_indata_fd s) (trace s)"

lemma run_flush_input:
  assumes "send_inoffset s \<le> SEND_BUFFER_SIZE"
  shows "exec (flush_send_input_buffer K) s =
     (if 0 \<le> client_indata_fd s \<and> is_host_eth_iface (app_config s) \<and> 0 < send_inoffset s
      then s\<lparr>trace := trace s @ [Ev_send (client_indata_fd s) (input_pending s)
                (k_send K (trace s) (client_indata_fd s) (input_pending s))], send_inoffset := 0\<rparr>
      else s\<lparr>send_inoffset := 0\<rparr>)"
  using assms by (auto simp: flush_send_input_buffer_def run_simps input_pending_def)

text \<open>Appending to a buffer with room, after the flush.\<close>

lemma run_enqueue_input:
  assumes "enough buf num_channels ch num_frames" and "length tag + 2 * num_frames \<le> SEND_BUFFER_SIZE"
    and "send_inoffset s \<le> SEND_BUFFER_SIZE"
    and "t = (if send_inoffset s + length tag + 2 * num_frames > SEND_BUFFER_SIZE
              then exec (flush_send_input_buffer K) s else s)"
  shows "exec (enqueue_input_buffer K tag buf num_frames num_channels ch) s =
     t\<lparr>send_inbuffer := poke (send_inbuffer t) (send_inoffset t)
          (block_bytes (Block tag (samples_from buf num_channels ch 0 num_frames))),
       send_inoffset := send_inoffset t + length tag + 2 * num_frames,
       trace := trace t @ capture (enable_audio_logging (app_config s)) (fp_in s)
          (samples_from buf num_channels ch 0 num_frames)\<rparr>"
proof -
  have t: "send_inoffset t + length tag + 2 * num_frames \<le> SEND_BUFFER_SIZE"
    "app_config t = app_config s" "fp_in t = fp_in s"
    using assms(2-4) by (auto simp: run_flush_input)
  let ?u = "t\<lparr>send_inbuffer := poke (send_inbuffer t) (send_inoffset t) tag,
      send_inoffset := send_inoffset t + length tag\<rparr>"
  have "exec (enqueue_input_buffer K tag buf num_frames num_channels ch) s =
      (let u = exec (copy_input_samples buf num_channels ch 0 num_frames) ?u
       in u\<lparr>send_inoffset := send_inoffset u + 2 * num_frames\<rparr>)"
    using t(1) assms(4)
    by (cases "send_inoffset s + length tag + 2 * num_frames > SEND_BUFFER_SIZE")
      (simp_all add: enqueue_input_buffer_def run_check_ub split_beta Let_def mult.commute)
  also have "exec (copy_input_samples buf num_channels ch 0 num_frames) ?u =
      ?u\<lparr>send_inbuffer := poke (send_inbuffer t) (send_inoffset t)
          (block_bytes (Block tag (samples_from buf num_channels ch 0 num_frames))),
        trace := trace t @ capture (enable_audio_logging (app_config s)) (fp_in s)
          (samples_from buf num_channels ch 0 num_frames)\<rparr>"
    using run_copy_input [of buf num_channels ch 0 num_frames ?u] assms(1) t
    by (simp add: poke_append block_bytes_def)
  finally show ?thesis by (simp add: Let_def)
qed

lemma run_copy_output:
  "enough buf num_channels ch (i + n) \<Longrightarrow> send_outoffset s + 2 * (i + n) \<le> SEND_BUFFER_SIZE \<Longrightarrow>
   run_state (copy_output_samples buf num_channels ch i n) s =
     ((), s\<lparr>send_outbuffer := poke (send_outbuffer s) (send_outoffset s + 2 * i)
                (concat (map le16 (samples_from buf num_channels ch i n))),
            trace := trace s @ capture (enable_audio_logging (app_config s)) (fp_out s)
                (samples_from buf num_channels ch i n)\<rparr>)"
proof (induction n arbitrary: i s)
  case 0
  then show ?case by (simp add: samples_from_0)
next
  case (Suc n)
  let ?v = "buf ! (i * num_channels + ch)"
  let ?s = "s\<lparr>send_outbuffer := poke (send_outbuffer s) (send_outoffset s + 2 * i) (le16 ?v),
      trace := trace s @ capture (enable_audio_logging (app_config s)) (fp_out s) [?v]\<rparr>"
  have inb: "i * num_channels + ch < length buf" "send_outoffset s + 2 * i + 2 \<le> SEND_BUFFER_SIZE"
    using Suc.prems by (simp_all add: enough_def)
  have "run_state (copy_output_samples buf num_channels ch i (Suc n)) s =
      run_state (copy_output_samples buf num_channels ch (Suc i) n) ?s"
    using inb by (simp add: run_check_ub emit_capture Let_def)
  also have "\<dots> = ((), s\<lparr>send_outbuffer := poke (send_outbuffer s) (send_outoffset s + 2 * i)
                (concat (map le16 (samples_from buf num_channels ch i (Suc n)))),
            trace := trace s @ capture (enable_audio_logging (app_config s)) (fp_out s)
                (samples_from buf num_channels ch i (Suc n))\<rparr>)"
    using Suc.IH [of "Suc i" ?s] Suc.prems
      poke_append [of "send_outbuffer s" "send_outoffset s + 2 * i" "le16 ?v"]
    by (simp add: samples_from_Suc capture_step)
  finally show ?case .
qed

definition output_ready :: "'w host_world_scheme \<Rightarrow> bool" where
  "output_ready s \<longleftrightarrow> 0 \<le> client_outdata_fd s \<and> is_host_eth_iface (app_config s) \<and>
     send_outoffset s \<le> SEND_BUFFER_SIZE"

definition output_pending :: "'w host_world_scheme \<Rightarrow> string" where
  "output_pending s = extent (send_outbuffer s) (send_outoffset s)"

definition output_packets :: "'w host_world_scheme \<Rightarrow> string list" where
  "output_packets s = packets (client_outdata_fd s) (trace s)"

lemma run_flush_output:
  assumes "send_outoffset s \<le> SEND_BUFFER_SIZE"
  shows "exec (flush_send_output_buffer K) s =
     (if 0 \<le> client_outdata_fd s \<and> is_host_eth_iface (app_config s) \<and> 0 < send_outoffset s
      then s\<lparr>trace := trace s @ [Ev_send (client_outdata_fd s) (output_pending s)
                (k_send K (trace s) (client_outdata_fd s) (output_pending s))], send_outoffset := 0\<rparr>
      else s\<lparr>send_outoffset := 0\<rparr>)"
  using assms by (auto simp: flush_send_output_buffer_def run_simps output_pending_def)

text \<open>Appending to a buffer with room, after the flush.\<close>

lemma run_enqueue_output:
  assumes "enough buf num_channels ch num_frames" and "length tag + 2 * num_frames \<le> SEND_BUFFER_SIZE"
    and "send_outoffset s \<le> SEND_BUFFER_SIZE"
    and "t = (if send_outoffset s + length tag + 2 * num_frames > SEND_BUFFER_SIZE
              then exec (flush_send_output_buffer K) s else s)"
  shows "exec (enqueue_output_buffer K tag buf num_frames num_channels ch) s =
     t\<lparr>send_outbuffer := poke (send_outbuffer t) (send_outoffset t)
          (block_bytes (Block tag (samples_from buf num_channels ch 0 num_frames))),
       send_outoffset := send_outoffset t + length tag + 2 * num_frames,
       trace := trace t @ capture (enable_audio_logging (app_config s)) (fp_out s)
          (samples_from buf num_channels ch 0 num_frames)\<rparr>"
proof -
  have t: "send_outoffset t + length tag + 2 * num_frames \<le> SEND_BUFFER_SIZE"
    "app_config t = app_config s" "fp_out t = fp_out s"
    using assms(2-4) by (auto simp: run_flush_output)
  let ?u = "t\<lparr>send_outbuffer := poke (send_outbuffer t) (send_outoffset t) tag,
      send_outoffset := send_outoffset t + length tag\<rparr>"
  have "exec (enqueue_output_buffer K tag buf num_frames num_channels ch) s =
      (let u = exec (copy_output_samples buf num_channels ch 0 num_frames) ?u
       in u\<lparr>send_outoffset := send_outoffset u + 2 * num_frames\<rparr>)"
    using t(1) assms(4)
    by (cases "send_outoffset s + length tag + 2 * num_frames > SEND_BUFFER_SIZE")
      (simp_all add: enqueue_output_buffer_def run_check_ub split_beta Let_def mult.commute)
  also have "exec (copy_output_samples buf num_channels ch 0 num_frames) ?u =
      ?u\<lparr>send_outbuffer := poke (send_outbuffer t) (send_outoffset t)
          (block_bytes (Block tag (samples_from buf num_channels ch 0 num_frames))),
        trace := trace t @ capture (enable_audio_logging (app_config s)) (fp_out s)
          (samples_from buf num_channels ch 0 num_frames)\<rparr>"
    using run_copy_output [of buf num_channels ch 0 num_frames ?u] assms(1) t
    by (simp add: poke_append block_bytes_def)
  finally show ?thesis by (simp add: Let_def)
qed

text \<open>A call of an enqueue operation: the tag, the interleaved buffer, its frames, its channels, the channel.\<close>

type_synonym block_call = "string \<times> int16 list \<times> nat \<times> nat \<times> nat"

fun call_block :: "block_call \<Rightarrow> data_block" where
  "call_block (tag, buf, num_frames, num_channels, ch) = Block tag (channel_samples buf num_frames num_channels ch)"

fun call_valid :: "block_call \<Rightarrow> bool" where
  "call_valid (tag, buf, num_frames, num_channels, ch) \<longleftrightarrow>
     enough buf num_channels ch num_frames \<and> length tag + 2 * num_frames \<le> SEND_BUFFER_SIZE"

lemma channel_samples_from: "channel_samples buf num_frames num_channels ch = samples_from buf num_channels ch 0 num_frames"
  by (simp add: channel_samples_def samples_from_def)

lemma length_channel_samples [simp]: "length (channel_samples buf num_frames num_channels ch) = num_frames"
  by (simp add: channel_samples_def)

lemma length_block_bytes [simp]: "length (block_bytes b) = length (block_tag b) + 2 * length (block_samples b)"
  by (simp add: block_bytes_def)

fun put_input :: "kernel \<Rightarrow> block_call \<Rightarrow> 'w host_world_scheme \<Rightarrow> 'w host_world_scheme" where
  "put_input K (tag, buf, num_frames, num_channels, ch) s =
     exec (enqueue_input_buffer K tag buf num_frames num_channels ch) s"

lemma run_put_input:
  assumes "send_inoffset s \<le> SEND_BUFFER_SIZE" and "call_valid c" and "bs = block_bytes (call_block c)"
    and "t = (if send_inoffset s + length bs > SEND_BUFFER_SIZE then exec (flush_send_input_buffer K) s else s)"
  shows "put_input K c s = t\<lparr>send_inbuffer := poke (send_inbuffer t) (send_inoffset t) bs, send_inoffset := send_inoffset t + length bs,
       trace := trace t @ capture (enable_audio_logging (app_config s)) (fp_in s) (block_samples (call_block c))\<rparr>"
proof (cases c)
  case (fields tag buf num_frames num_channels ch)
  have "length bs = length tag + 2 * num_frames" by (simp add: assms(3) fields)
  then show ?thesis
    using run_enqueue_input [of buf num_channels ch num_frames tag s t K] assms
    by (simp add: fields channel_samples_from add.assoc)
qed

lemma put_input_result:
  assumes "input_ready s" and "call_valid c"
  shows "input_ready (put_input K c s) \<and> fault (put_input K c s) = fault s \<and>
    (if length (input_pending s) + length (block_bytes (call_block c)) \<le> SEND_BUFFER_SIZE
     then input_packets (put_input K c s) = input_packets s \<and>
          input_pending (put_input K c s) = input_pending s @ block_bytes (call_block c)
     else input_packets (put_input K c s) = input_packets s @ [input_pending s] \<and>
          input_pending (put_input K c s) = block_bytes (call_block c))"
proof -
  define bs where "bs = block_bytes (call_block c)"
  define t where "t = (if send_inoffset s + length bs > SEND_BUFFER_SIZE then exec (flush_send_input_buffer K) s else s)"
  have ofs: "send_inoffset s \<le> SEND_BUFFER_SIZE" using assms(1) by (simp add: input_ready_def)
  have fits: "length bs \<le> SEND_BUFFER_SIZE" using assms(2) by (cases c) (simp add: bs_def)
  note run = run_put_input [OF ofs assms(2) bs_def t_def]
  show ?thesis
  proof (cases "send_inoffset s + length bs \<le> SEND_BUFFER_SIZE")
    case True
    then have "t = s" by (simp add: t_def)
    then show ?thesis
      using True assms(1) run
      by (simp add: input_ready_def input_pending_def input_packets_def extent_poke flip: bs_def)
  next
    case False
    then have "0 < send_inoffset s" using fits by simp
    then have "t = s\<lparr>trace := trace s @ [Ev_send (client_indata_fd s) (input_pending s)
        (k_send K (trace s) (client_indata_fd s) (input_pending s))], send_inoffset := 0\<rparr>"
      using False assms(1) ofs by (simp add: t_def run_flush_input input_ready_def)
    then show ?thesis
      using False assms(1) run fits ofs extent_poke [of "send_inbuffer s" 0 bs]
      by (simp add: input_ready_def input_pending_def input_packets_def flip: bs_def)
  qed
qed

interpretation indata: send_channel
    "put_input K" "\<lambda>c. block_bytes (call_block c)" input_packets input_pending input_ready call_valid SEND_BUFFER_SIZE for K
proof (unfold_locales, goal_cases)
  case (1 s x)
  then show ?case using put_input_result [of s x K] by blast
next
  case (2 s)
  then show ?case by (simp add: input_ready_def input_pending_def)
next
  case (3 s x)
  then show ?case using put_input_result [of s x K] by auto
next
  case (4 s x)
  then show ?case using put_input_result [of s x K] by auto
qed

fun put_output :: "kernel \<Rightarrow> block_call \<Rightarrow> 'w host_world_scheme \<Rightarrow> 'w host_world_scheme" where
  "put_output K (tag, buf, num_frames, num_channels, ch) s =
     exec (enqueue_output_buffer K tag buf num_frames num_channels ch) s"

lemma run_put_output:
  assumes "send_outoffset s \<le> SEND_BUFFER_SIZE" and "call_valid c" and "bs = block_bytes (call_block c)"
    and "t = (if send_outoffset s + length bs > SEND_BUFFER_SIZE then exec (flush_send_output_buffer K) s else s)"
  shows "put_output K c s = t\<lparr>send_outbuffer := poke (send_outbuffer t) (send_outoffset t) bs, send_outoffset := send_outoffset t + length bs,
       trace := trace t @ capture (enable_audio_logging (app_config s)) (fp_out s) (block_samples (call_block c))\<rparr>"
proof (cases c)
  case (fields tag buf num_frames num_channels ch)
  have "length bs = length tag + 2 * num_frames" by (simp add: assms(3) fields)
  then show ?thesis
    using run_enqueue_output [of buf num_channels ch num_frames tag s t K] assms
    by (simp add: fields channel_samples_from add.assoc)
qed

lemma put_output_result:
  assumes "output_ready s" and "call_valid c"
  shows "output_ready (put_output K c s) \<and> fault (put_output K c s) = fault s \<and>
    (if length (output_pending s) + length (block_bytes (call_block c)) \<le> SEND_BUFFER_SIZE
     then output_packets (put_output K c s) = output_packets s \<and>
          output_pending (put_output K c s) = output_pending s @ block_bytes (call_block c)
     else output_packets (put_output K c s) = output_packets s @ [output_pending s] \<and>
          output_pending (put_output K c s) = block_bytes (call_block c))"
proof -
  define bs where "bs = block_bytes (call_block c)"
  define t where "t = (if send_outoffset s + length bs > SEND_BUFFER_SIZE then exec (flush_send_output_buffer K) s else s)"
  have ofs: "send_outoffset s \<le> SEND_BUFFER_SIZE" using assms(1) by (simp add: output_ready_def)
  have fits: "length bs \<le> SEND_BUFFER_SIZE" using assms(2) by (cases c) (simp add: bs_def)
  note run = run_put_output [OF ofs assms(2) bs_def t_def]
  show ?thesis
  proof (cases "send_outoffset s + length bs \<le> SEND_BUFFER_SIZE")
    case True
    then have "t = s" by (simp add: t_def)
    then show ?thesis
      using True assms(1) run
      by (simp add: output_ready_def output_pending_def output_packets_def extent_poke flip: bs_def)
  next
    case False
    then have "0 < send_outoffset s" using fits by simp
    then have "t = s\<lparr>trace := trace s @ [Ev_send (client_outdata_fd s) (output_pending s)
        (k_send K (trace s) (client_outdata_fd s) (output_pending s))], send_outoffset := 0\<rparr>"
      using False assms(1) ofs by (simp add: t_def run_flush_output output_ready_def)
    then show ?thesis
      using False assms(1) run fits ofs extent_poke [of "send_outbuffer s" 0 bs]
      by (simp add: output_ready_def output_pending_def output_packets_def flip: bs_def)
  qed
qed

interpretation outdata: send_channel
    "put_output K" "\<lambda>c. block_bytes (call_block c)" output_packets output_pending output_ready call_valid SEND_BUFFER_SIZE for K
proof (unfold_locales, goal_cases)
  case (1 s x)
  then show ?case using put_output_result [of s x K] by blast
next
  case (2 s)
  then show ?case by (simp add: output_ready_def output_pending_def)
next
  case (3 s x)
  then show ?case using put_output_result [of s x K] by auto
next
  case (4 s x)
  then show ?case using put_output_result [of s x K] by auto
qed

subsection \<open>The reader of the data channels\<close>

text \<open>
  The host utility (\<open>read_input_audio_samples\<close> and \<open>read_output_audio_samples\<close> of
  \<^verbatim>\<open>audmon.py\<close>) reads four bytes, skips them when they are not the tag of its channel, and
  otherwise takes the next 512 bytes as 256 little-endian samples.
\<close>

fun unle16 :: "string \<Rightarrow> int list" where
  "unle16 (lo # hi # bs) = sint (word_of_nat (of_char lo + 256 * of_char hi) :: int16) # unle16 bs"
| "unle16 _ = []"

function read_audio_samples :: "string \<Rightarrow> string \<Rightarrow> int list" where
  "read_audio_samples tag stream =
     (if length stream < 4 then []
      else if take 4 stream \<noteq> tag then read_audio_samples tag (drop 4 stream)
      else if length stream < 516 then []
      else unle16 (take 512 (drop 4 stream)) @ read_audio_samples tag (drop 516 stream))"
  by auto
termination
  by (relation "measure (\<lambda>(tag, stream). length stream)") auto

declare read_audio_samples.simps [simp del]

lemma unle16_le16: "unle16 (concat (map le16 vs)) = map sint vs"
proof (induction vs)
  case Nil
  then show ?case by simp
next
  case (Cons v vs)
  have "unat v < 2 ^ 16" using unsigned_less [of v] by simp
  then have "unat v div 256 < 256" by simp
  then have "of_char (char_of (unat v mod 256) :: char) + 256 * of_char (char_of (unat v div 256) :: char) = unat v"
    by (simp add: of_char_of)
  then show ?case using Cons by (simp add: le16_def)
qed

text \<open>The blocks of the audio path: a tag of four bytes and 256 samples.\<close>

fun audio_block :: "string \<Rightarrow> data_block \<Rightarrow> bool" where
  "audio_block tag (Block t vs) \<longleftrightarrow> t = tag \<and> length vs = 256"

lemma read_block:
  assumes "audio_block tag b" and "length tag = 4"
  shows "read_audio_samples tag (block_bytes b @ stream) = map sint (block_samples b) @ read_audio_samples tag stream"
proof (cases b)
  case (Block t vs)
  then have b: "t = tag" "length vs = 256" "length (concat (map le16 vs)) = 512"
    using assms(1) by simp_all
  have "read_audio_samples tag (tag @ concat (map le16 vs) @ stream) =
      unle16 (concat (map le16 vs)) @ read_audio_samples tag stream"
    using b assms(2) by (subst read_audio_samples.simps) simp
  then show ?thesis
    using Block b(1) by (simp add: block_bytes_def unle16_le16)
qed

lemma read_blocks:
  "length tag = 4 \<Longrightarrow> \<forall>b \<in> set bs. audio_block tag b \<Longrightarrow>
     read_audio_samples tag (concat (map block_bytes bs)) = concat (map (map sint \<circ> block_samples) bs)"
  by (induction bs) (simp_all add: read_block, simp add: read_audio_samples.simps)

text \<open>Sending audio blocks from empty buffers, and what the reader of the channel gets.\<close>

lemma block_size: "audio_block tag b \<Longrightarrow> length tag = 4 \<Longrightarrow> length (block_bytes b) = 516"
  by (cases b) auto

lemma read_sent:
  assumes "concat ps = concat (map (\<lambda>c. block_bytes (call_block c)) (take n cs))"
    and "\<forall>c \<in> set cs. audio_block tag (call_block c)" and "length tag = 4"
  shows "read_audio_samples tag (concat ps) = concat (map (\<lambda>c. map sint (block_samples (call_block c))) (take n cs))"
proof -
  have "\<forall>b \<in> set (map call_block (take n cs)). audio_block tag b"
    using assms(2) by (auto dest: in_set_takeD)
  from read_blocks [OF assms(3) this] show ?thesis
    by (simp add: assms(1) comp_def)
qed

lemma blocks_per_buffer: "SEND_BUFFER_SIZE div 516 = 31"
  by (simp add: SEND_BUFFER_SIZE_def)

lemma blocks_fit: "516 \<le> SEND_BUFFER_SIZE"
  by (simp add: SEND_BUFFER_SIZE_def)

lemma audio_calls:
  "\<forall>c \<in> set cs. audio_block tag (call_block c) \<Longrightarrow> length tag = 4 \<Longrightarrow> \<forall>c \<in> set cs. call_valid c \<Longrightarrow>
     \<forall>c \<in> set cs. call_valid c \<and> length (block_bytes (call_block c)) = 516"
  by (blast intro: block_size)

subsection \<open>Properties\<close>

text \<open>
  C7: neither data channel loses, repeats or reorders a byte while its client is connected:
  whatever blocks are enqueued, the packets sent so far followed by the bytes still in the
  buffer are what was there before followed by the blocks in order. The buffer is never
  overrun and the calls add no undefined behaviour, for every block that fits the
  buffer and every answer of the network.
\<close>
theorem data_channel_stream:
  assumes "\<forall>c \<in> set cs. call_valid c"
  shows "(input_ready s \<longrightarrow>
      input_ready (fold (put_input K) cs s) \<and> fault (fold (put_input K) cs s) = fault s \<and>
      concat (input_packets (fold (put_input K) cs s)) @ input_pending (fold (put_input K) cs s) =
        concat (input_packets s) @ input_pending s @ concat (map (\<lambda>c. block_bytes (call_block c)) cs)) \<and>
    (output_ready s \<longrightarrow>
      output_ready (fold (put_output K) cs s) \<and> fault (fold (put_output K) cs s) = fault s \<and>
      concat (output_packets (fold (put_output K) cs s)) @ output_pending (fold (put_output K) cs s) =
        concat (output_packets s) @ output_pending s @ concat (map (\<lambda>c. block_bytes (call_block c)) cs))"
proof -
  have puts: "input_ready (put_input K c u) \<and> fault (put_input K c u) = fault u" if "input_ready u" "call_valid c"
    for c and u :: "'a host_world_scheme"
    using put_input_result that by blast
  have puts_out: "output_ready (put_output K c u) \<and> fault (put_output K c u) = fault u" if "output_ready u" "call_valid c"
    for c and u :: "'a host_world_scheme"
    using put_output_result that by blast
  have "input_ready s \<Longrightarrow> fault (fold (put_input K) cs s) = fault s"
    using assms by (induction cs arbitrary: s) (simp_all add: puts del: put_input.simps)
  moreover have "output_ready s \<Longrightarrow> fault (fold (put_output K) cs s) = fault s"
    using assms by (induction cs arbitrary: s) (simp_all add: puts_out del: put_output.simps)
  ultimately show ?thesis
    using indata.invar_sends indata.stream outdata.invar_sends outdata.stream assms by blast
qed

definition connected_host :: host_world where
  "connected_host = zero_host\<lparr>client_indata_fd := 5, client_outdata_fd := 6,
     app_config := zero_config\<lparr>is_host_eth_iface := True\<rparr>\<rparr>"

lemma connected_host_ready:
  "input_ready connected_host" "output_ready connected_host"
  "input_packets connected_host = []" "output_packets connected_host = []"
  "input_pending connected_host = []" "output_pending connected_host = []"
  by (simp_all add: connected_host_def zero_host_def input_ready_def output_ready_def input_packets_def
      output_packets_def input_pending_def output_pending_def)

abbreviation small_call :: block_call where
  "small_call \<equiv> (''T'', [1, 2, 0x8001, 4], 2, 2, 0)"

theorem data_channel_stream_witness:
  "concat (input_packets (put_input sample_kernel small_call connected_host)) @
     input_pending (put_input sample_kernel small_call connected_host) =
   block_bytes (Block ''T'' [1, 0x8001])"
proof -
  have v: "\<forall>c \<in> set [small_call]. call_valid c"
    by (auto simp: enough_def SEND_BUFFER_SIZE_def less_2_cases_iff)
  have b: "call_block small_call = Block ''T'' [1, 0x8001]"
    by (simp add: channel_samples_def numeral_2_eq_2)
  show ?thesis
    using conjunct2 [OF conjunct2 [OF mp [OF conjunct1 [OF data_channel_stream [OF v, of connected_host sample_kernel]] connected_host_ready(1)]]]
    by (simp only: list.map concat.simps fold_simps b connected_host_ready append_Nil append_Nil2)
qed

text \<open>
  C17: what the host utility reads. When blocks of 256 samples are enqueued from the start, the
  reader of either channel, applied to everything that was sent, yields exactly the samples
  enqueued, up to a multiple of 31 blocks: a packet is 31 whole blocks, sent when the next
  block arrives. The blocks after the last full packet (at least one, up to 31) stay in the
  buffer, which nothing flushes at the end of the audio.
\<close>
theorem data_reader_roundtrip:
  assumes "\<forall>c \<in> set cs. call_valid c"
  shows "(input_ready s \<and> input_pending s = [] \<and> input_packets s = [] \<and>
       (\<forall>c \<in> set cs. audio_block ''INPT'' (call_block c)) \<longrightarrow>
      read_audio_samples ''INPT'' (concat (input_packets (fold (put_input K) cs s))) =
        concat (map (\<lambda>c. map sint (block_samples (call_block c))) (take ((length cs - 1) div 31 * 31) cs))) \<and>
    (output_ready s \<and> output_pending s = [] \<and> output_packets s = [] \<and>
       (\<forall>c \<in> set cs. audio_block ''OUTP'' (call_block c)) \<longrightarrow>
      read_audio_samples ''OUTP'' (concat (output_packets (fold (put_output K) cs s))) =
        concat (map (\<lambda>c. map sint (block_samples (call_block c))) (take ((length cs - 1) div 31 * 31) cs)))"
proof (intro conjI impI; elim conjE)
  assume *: "input_ready s" "input_pending s = []" "input_packets s = []"
    "\<forall>c \<in> set cs. audio_block ''INPT'' (call_block c)"
  show "read_audio_samples ''INPT'' (concat (input_packets (fold (put_input K) cs s))) =
      concat (map (\<lambda>c. map sint (block_samples (call_block c))) (take ((length cs - 1) div 31 * 31) cs))"
    by (rule read_sent [OF _ *(4)])
      (use indata.uniform_sent [OF _ blocks_fit *(1) audio_calls [OF *(4) _ assms] *(2,3), of K]
       in \<open>simp_all add: blocks_per_buffer\<close>)
next
  assume *: "output_ready s" "output_pending s = []" "output_packets s = []"
    "\<forall>c \<in> set cs. audio_block ''OUTP'' (call_block c)"
  show "read_audio_samples ''OUTP'' (concat (output_packets (fold (put_output K) cs s))) =
      concat (map (\<lambda>c. map sint (block_samples (call_block c))) (take ((length cs - 1) div 31 * 31) cs))"
    by (rule read_sent [OF _ *(4)])
      (use outdata.uniform_sent [OF _ blocks_fit *(1) audio_calls [OF *(4) _ assms] *(2,3), of K]
       in \<open>simp_all add: blocks_per_buffer\<close>)
qed

text \<open>32 blocks: the first 31 arrive.\<close>

lemma concat_replicates: "concat (replicate m (replicate n x)) = replicate (m * n) x"
  by (induction m) (simp_all add: replicate_add)

abbreviation sample_call :: block_call where
  "sample_call \<equiv> (''INPT'', replicate 2048 7, 256, 8, 0)"

theorem data_reader_roundtrip_witness:
  "read_audio_samples ''INPT'' (concat (input_packets (fold (put_input sample_kernel) (replicate 32 sample_call) connected_host))) =
     replicate 7936 7"
proof -
  have block: "call_block sample_call = Block ''INPT'' (replicate 256 7)"
    by (auto simp: channel_samples_def intro!: nth_equalityI)
  have "call_valid sample_call"
    by (auto simp: enough_def SEND_BUFFER_SIZE_def)
  then have "\<forall>c \<in> set (replicate 32 sample_call). call_valid c" by (simp del: call_valid.simps)
  from data_reader_roundtrip [OF this, of connected_host sample_kernel]
  have "read_audio_samples ''INPT'' (concat (input_packets (fold (put_input sample_kernel) (replicate 32 sample_call) connected_host))) =
      concat (map (\<lambda>c. map sint (block_samples (call_block c))) (take ((length (replicate 32 sample_call) - 1) div 31 * 31) (replicate 32 sample_call)))"
    using connected_host_ready block by (simp del: put_input.simps call_block.simps)
  also have "\<dots> = concat (replicate 31 (replicate 256 7))"
    by (simp add: block map_replicate del: call_block.simps)
  finally show ?thesis
    by (simp add: concat_replicates)
qed

end
