(* ===== verification/Devices.thy ===== *)
theory Devices
  imports App_State Send_Buffer
begin

text \<open>
  The libraries of the audio example that are not part of the repository, as a second record
  of parameters: libsndfile, ALSA, the monotonic clock, FFTW, the program on the remote
  processor, and the rounding of the floating-point unit. A \<open>float\<close> or \<open>double\<close> is the
  rational number it stands for: every operation is the exact one followed by \<open>rnd32\<close> or
  \<open>rnd64\<close>. Infinities, NaN and the sign of zero are left out.
\<close>

record devices =
  d_sf_open :: "event list \<Rightarrow> string \<Rightarrow> (int \<times> int) option"   \<comment> \<open>channels, sample rate\<close>
  d_sf_readf :: "event list \<Rightarrow> nat \<Rightarrow> int \<times> int16 list"         \<comment> \<open>frames read, their samples\<close>
  d_pcm_open :: "event list \<Rightarrow> string \<Rightarrow> int"
  d_pcm_set_params :: "event list \<Rightarrow> nat \<Rightarrow> nat \<Rightarrow> int"
  d_pcm_writei :: "event list \<Rightarrow> int16 list \<Rightarrow> int"
  d_clock :: "event list \<Rightarrow> int \<times> int"
  d_r2c :: "rat list \<Rightarrow> (rat \<times> rat) list"    \<comment> \<open>transform of n reals: n/2 + 1 bins\<close>
  d_c2r :: "(rat \<times> rat) list \<Rightarrow> rat list"    \<comment> \<open>its unnormalised inverse\<close>
  d_dsp_data :: "event list \<Rightarrow> (nat \<Rightarrow> int16) \<Rightarrow> nat \<Rightarrow> int16"  \<comment> \<open>the data buffer after the remote processor replied\<close>
  d_dsp_load :: "event list \<Rightarrow> rat"
  rnd32 :: "rat \<Rightarrow> rat"
  rnd64 :: "rat \<Rightarrow> rat"

text \<open>
  What FFTW documents of a transform of \<open>n\<close> reals and back: it has \<open>n div 2 + 1\<close> bins, and the
  inverse of the transform is \<open>n\<close> times the input, up to an error of \<open>e\<close> on the scale of the
  samples.
\<close>

definition fft_contract :: "devices \<Rightarrow> nat \<Rightarrow> rat \<Rightarrow> bool" where
  "fft_contract D n e \<longleftrightarrow>
     (\<forall>xs. length xs = n \<longrightarrow> length (d_r2c D xs) = n div 2 + 1 \<and>
        (\<forall>i < n. \<bar>d_c2r D (d_r2c D xs) ! i / of_nat n - xs ! i\<bar> \<le> e)) \<and>
     (\<forall>sp. length sp = n div 2 + 1 \<longrightarrow> length (d_c2r D sp) = n)"

text \<open>
  IEEE arithmetic: rounding is monotone, exact on the integers of the significand, and so is
  the division of a result of the transform by a power of two.
\<close>

definition float_contract :: "devices \<Rightarrow> bool" where
  "float_contract D \<longleftrightarrow> mono (rnd32 D) \<and> mono (rnd64 D) \<and>
     (\<forall>k. \<bar>k\<bar> \<le> 2 ^ 24 \<longrightarrow> rnd32 D (of_int k) = of_int k) \<and>
     (\<forall>k. \<bar>k\<bar> \<le> 2 ^ 53 \<longrightarrow> rnd64 D (of_int k) = of_int k) \<and>
     (\<forall>sp. \<forall>y \<in> set (d_c2r D sp). rnd64 D (y / of_nat NUM_FRAMES) = y / of_nat NUM_FRAMES)"

text \<open>\<open>sf_readf_short\<close> reads at most the frames asked for, and stores that many.\<close>

definition sndfile_contract :: "devices \<Rightarrow> bool" where
  "sndfile_contract D \<longleftrightarrow>
     (\<forall>tr n k vs. d_sf_readf D tr n = (k, vs) \<longrightarrow> 0 \<le> k \<and> k \<le> int n \<and> length vs = nat k * CHANNELS)"

subsection \<open>Calls\<close>

definition audio :: "audio_event \<Rightarrow> ('w world_scheme, unit) state" where
  "audio e = emit (Ev_audio e)"

definition sf_open :: "devices \<Rightarrow> string \<Rightarrow> ('w world_scheme, (int \<times> int) option) state" where
  "sf_open D path = do {
     r \<leftarrow> gets (\<lambda>s. d_sf_open D (trace s) path);
     audio (Sf_open path r);
     ret r }"

definition sf_readf :: "devices \<Rightarrow> nat \<Rightarrow> ('w world_scheme, int \<times> int16 list) state" where
  "sf_readf D n = do {
     r \<leftarrow> gets (\<lambda>s. d_sf_readf D (trace s) n);
     audio (Sf_readf n (fst r));
     ret r }"

definition sf_close :: "('w world_scheme, unit) state" where
  "sf_close = audio Sf_close"

definition snd_pcm_open :: "devices \<Rightarrow> string \<Rightarrow> ('w world_scheme, int) state" where
  "snd_pcm_open D dev = do {
     r \<leftarrow> gets (\<lambda>s. d_pcm_open D (trace s) dev);
     audio (Pcm_open dev r);
     ret r }"

definition snd_pcm_set_params :: "devices \<Rightarrow> nat \<Rightarrow> nat \<Rightarrow> ('w world_scheme, int) state" where
  "snd_pcm_set_params D channels rate = do {
     r \<leftarrow> gets (\<lambda>s. d_pcm_set_params D (trace s) channels rate);
     audio (Pcm_set_params channels rate r);
     ret r }"

definition snd_pcm_writei :: "devices \<Rightarrow> int16 list \<Rightarrow> ('w world_scheme, int) state" where
  "snd_pcm_writei D vs = do {
     r \<leftarrow> gets (\<lambda>s. d_pcm_writei D (trace s) vs);
     audio (Pcm_writei vs r);
     ret r }"

definition snd_pcm_close :: "('w world_scheme, unit) state" where
  "snd_pcm_close = audio Pcm_close"

definition clock_gettime :: "devices \<Rightarrow> ('w world_scheme, int \<times> int) state" where
  "clock_gettime D = do {
     a \<leftarrow> gets (\<lambda>s. d_clock D (trace s));
     audio (Clock_gettime (fst a) (snd a));
     ret a }"

lemmas device_defs [run_simps] =
  audio_def sf_open_def sf_readf_def sf_close_def snd_pcm_open_def snd_pcm_set_params_def
  snd_pcm_writei_def snd_pcm_close_def clock_gettime_def

subsection \<open>Concrete devices\<close>

text \<open>
  A file of three frames' worth of calls: two full reads, then the end. The transform is the
  pairing of neighbours, which keeps the documented contract and can be evaluated.
\<close>

definition toy_r2c :: "rat list \<Rightarrow> (rat \<times> rat) list" where
  "toy_r2c xs = map (\<lambda>i. (xs ! (2 * i), xs ! (2 * i + 1))) [0..<length xs div 2] @ [(0, 0)]"

definition toy_c2r :: "(rat \<times> rat) list \<Rightarrow> rat list" where
  "toy_c2r sp = map (\<lambda>i. 2 * of_nat (length sp - 1) * (if even i then fst (sp ! (i div 2)) else snd (sp ! (i div 2))))
     [0..<2 * (length sp - 1)]"

definition sample_devices :: devices where
  "sample_devices = \<lparr>
     d_sf_open = (\<lambda>tr path. Some (8, 48000)),
     d_sf_readf = (\<lambda>tr n. let k = length (filter (\<lambda>e. case e of Ev_audio (Sf_readf _ _) \<Rightarrow> True | _ \<Rightarrow> False) tr)
        in if k < 2 then (int n, replicate (n * CHANNELS) 5) else (0, [])),
     d_pcm_open = (\<lambda>tr dev. 0),
     d_pcm_set_params = (\<lambda>tr ch rate. 0),
     d_pcm_writei = (\<lambda>tr vs. int (length vs div CHANNELS)),
     d_clock = (\<lambda>tr. (int (length tr), 0)),
     d_r2c = toy_r2c,
     d_c2r = toy_c2r,
     d_dsp_data = (\<lambda>tr m. m),
     d_dsp_load = (\<lambda>tr. 12),
     rnd32 = (\<lambda>x. x), rnd64 = (\<lambda>x. x)\<rparr>"

lemma toy_fft:
  assumes "even (length xs)"
  shows "toy_c2r (toy_r2c xs) = map (\<lambda>x. of_nat (length xs) * x) xs"
proof (rule nth_equalityI)
  have len: "2 * (length xs div 2) = length xs" using assms by simp
  then show "length (toy_c2r (toy_r2c xs)) = length (map (\<lambda>x. of_nat (length xs) * x) xs)"
    by (simp add: toy_c2r_def toy_r2c_def)
  fix i assume "i < length (toy_c2r (toy_r2c xs))"
  then have i: "i < length xs" using len by (simp add: toy_c2r_def toy_r2c_def)
  then have "i div 2 < length xs div 2" using len by linarith
  then show "toy_c2r (toy_r2c xs) ! i = map (\<lambda>x. of_nat (length xs) * x) xs ! i"
    using i len by (auto simp: toy_c2r_def toy_r2c_def nth_append simp flip: of_nat_mult)
qed

lemma sample_devices_contracts:
  "even n \<Longrightarrow> fft_contract sample_devices n 0" "sndfile_contract sample_devices" "float_contract sample_devices"
proof -
  show "fft_contract sample_devices n 0" if "even n"
    using that by (auto simp: fft_contract_def sample_devices_def toy_fft) (simp_all add: toy_r2c_def toy_c2r_def)
  show "sndfile_contract sample_devices"
    by (auto simp: sndfile_contract_def sample_devices_def Let_def split: if_splits)
  show "float_contract sample_devices"
    by (simp add: float_contract_def sample_devices_def mono_def)
qed

end
