(* ===== verification/Metrics.thy ===== *)
theory Metrics
  imports Devices Log_Queue
begin

text \<open>
  Measurements and their log lines, \<^verbatim>\<open>example/audio_offload/src/metrics.c\<close>. The four static
  counters of \<open>get_cpu_load\<close> extend the state. The running totals and extremes, local
  variables of the audio thread, are passed in and returned.
\<close>

subsection \<open>The load of the CPU\<close>

record metrics_world = app_world +
  last_user :: int
  last_nice :: int
  last_system :: int
  last_idle :: int

text \<open>One \<open>%ld\<close> conversion and the text after it; the values \<open>n\<close> of them assign.\<close>

definition scan_ld :: "string \<Rightarrow> (int \<times> string) option" where
  "scan_ld str =
     (let (neg, u) = scan_sign (dropWhile isspace str);
          ds = takeWhile isdigit u
      in if ds = [] then None
         else Some (clamp64 (if neg then - digits_val ds else digits_val ds), dropWhile isdigit u))"

fun scan_lds :: "nat \<Rightarrow> string \<Rightarrow> int list" where
  "scan_lds 0 str = []"
| "scan_lds (Suc n) str = (case scan_ld str of None \<Rightarrow> [] | Some (v, rest) \<Rightarrow> v # scan_lds n rest)"

text \<open>\<open>fscanf(fp, "cpu %ld %ld %ld %ld", ...)\<close>\<close>

definition scan_stat :: "string \<Rightarrow> int list" where
  "scan_stat content = (if take 3 content = ''cpu'' then scan_lds 4 (drop 3 content) else [])"

definition is_long :: "int \<Rightarrow> bool" where
  "is_long v \<longleftrightarrow> - (2 ^ 63) \<le> v \<and> v < 2 ^ 63"

definition get_cpu_load :: "kernel \<Rightarrow> devices \<Rightarrow> ('w metrics_world_scheme, rat) state" where
  "get_cpu_load K D = do {
     fp \<leftarrow> fopen_r K ''/proc/stat'';
     case fp of None \<Rightarrow> ret (-1)
     | Some content \<Rightarrow> do {
         emit (Ev_fclose ''/proc/stat'');
         case scan_stat content of
           [user, nice, system, idle] \<Rightarrow> do {
             du \<leftarrow> gets (\<lambda>s. user - last_user s);
             dn \<leftarrow> gets (\<lambda>s. nice - last_nice s);
             ds \<leftarrow> gets (\<lambda>s. system - last_system s);
             di \<leftarrow> gets (\<lambda>s. idle - last_idle s);
             let total = du + dn + ds;
             let total_all = total + di;
             check_ub (list_all is_long [du, dn, du + dn, ds, total, di, total_all]) Signed_overflow;
             modify (\<lambda>s. s\<lparr>last_user := user, last_nice := nice, last_system := system, last_idle := idle\<rparr>);
             ret (if total_all \<noteq> 0
                  then rnd32 D (rnd32 D (100 * rnd32 D (of_int total)) / rnd32 D (of_int total_all)) else 0) }
         | _ \<Rightarrow> do { raise_ub Uninitialised_read; ret 0 } } }"

subsection \<open>Running totals and extremes\<close>

record metric =
  total :: rat
  least :: rat
  greatest :: rat

record metrics =
  m_latency :: metric
  m_amp :: metric
  m_cpu :: metric
  m_dsp :: metric

definition update_metric :: "devices \<Rightarrow> rat \<Rightarrow> metric \<Rightarrow> metric" where
  "update_metric D v m =
     \<lparr>total = rnd64 D (total m + v),
      least = (if v < least m then v else least m),
      greatest = (if v > greatest m then v else greatest m)\<rparr>"

definition update_metrics :: "devices \<Rightarrow> rat \<Rightarrow> rat \<Rightarrow> rat \<Rightarrow> rat \<Rightarrow> metrics \<Rightarrow> metrics" where
  "update_metrics D lat amp cpu dsp m =
     \<lparr>m_latency = update_metric D lat (m_latency m),
      m_amp = update_metric D amp (m_amp m),
      m_cpu = update_metric D cpu (m_cpu m),
      m_dsp = update_metric D dsp (m_dsp m)\<rparr>"

text \<open>The initial values in \<open>run_audio_processing_thread\<close>.\<close>

definition zero_metrics :: metrics where
  "zero_metrics =
     \<lparr>m_latency = \<lparr>total = 0, least = 1000000, greatest = 0\<rparr>,
      m_amp = \<lparr>total = 0, least = 1000000000, greatest = -1000000000\<rparr>,
      m_cpu = \<lparr>total = 0, least = 1000000000, greatest = -1000000000\<rparr>,
      m_dsp = \<lparr>total = 0, least = 1000000000, greatest = -1000000000\<rparr>\<rparr>"

subsection \<open>Printing numbers\<close>

definition round_half_even :: "rat \<Rightarrow> int" where
  "round_half_even x =
     (let f = \<lfloor>x\<rfloor>; d = x - of_int f
      in if d < 1/2 then f else if d > 1/2 then f + 1 else if even f then f else f + 1)"

text \<open>The conversion \<open>%.<d>f\<close>, for \<open>d > 0\<close>.\<close>

definition show_fixed :: "nat \<Rightarrow> rat \<Rightarrow> string" where
  "show_fixed d x =
     (let n = nat (round_half_even (\<bar>x\<bar> * 10 ^ d)); frac = show_nat (n mod 10 ^ d)
      in (if x < 0 then ''-'' else []) @ show_nat (n div 10 ^ d) @ ''.'' @ replicate (d - length frac) CHR ''0'' @ frac)"

subsection \<open>Log lines\<close>

definition frame_line :: "ExecMode \<Rightarrow> int \<Rightarrow> rat \<Rightarrow> rat \<Rightarrow> rat \<Rightarrow> rat \<Rightarrow> string" where
  "frame_line exec_mode frames amp lat cpu dsp =
     ''Frame '' @ show_int frames @ '': AvgAmp='' @ show_fixed 2 amp @ '', Latency='' @ show_fixed 2 lat @
     ''ms, Mode='' @ (if exec_mode = EXEC_ARM then ''CPU'' else ''DSP'') @
     '' CPULoad='' @ show_fixed 1 cpu @ ''% DSPLoad='' @ show_fixed 1 dsp @ ''%''"

definition log_frame_metrics ::
  "ExecMode \<Rightarrow> int \<Rightarrow> rat \<Rightarrow> rat \<Rightarrow> rat \<Rightarrow> rat \<Rightarrow> ('w host_world_scheme, unit) state" where
  "log_frame_metrics exec_mode frames amp lat cpu dsp =
     enqueue_log (bounded_copy 256 (frame_line exec_mode frames amp lat cpu dsp))"

definition summary_line :: "devices \<Rightarrow> string \<Rightarrow> nat \<Rightarrow> int \<Rightarrow> metric \<Rightarrow> string" where
  "summary_line D label digits frames m =
     ''[Live Summary] '' @ label @ '': Min: '' @ show_fixed digits (least m) @ '', Max: '' @ show_fixed digits (greatest m) @
     '', Avg: '' @ show_fixed digits (rnd64 D (total m / of_int frames))"

definition log_summary :: "devices \<Rightarrow> int \<Rightarrow> metrics \<Rightarrow> ('w host_world_scheme, unit) state" where
  "log_summary D frames m = do {
     enqueue_log (bounded_copy 256 (''[Live Summary] Frames: '' @ show_int frames));
     enqueue_log (bounded_copy 256 (summary_line D ''Latency (ms)'' 2 frames (m_latency m)));
     enqueue_log (bounded_copy 256 (summary_line D ''Amp'' 2 frames (m_amp m)));
     enqueue_log (bounded_copy 256 (summary_line D ''CPU Load (%)'' 1 frames (m_cpu m)));
     enqueue_log (bounded_copy 256 (summary_line D ''DSP Load (%)'' 1 frames (m_dsp m))) }"

subsection \<open>Samples for the host\<close>

text \<open>
  The byte count is an \<open>int16_t\<close>; the copy it sizes holds that many samples, of which the
  first half is filled: reading beyond it would read uninitialised memory.
\<close>

definition block_size :: "nat \<Rightarrow> nat \<Rightarrow> int" where
  "block_size num_frames num_channels = sint (word_of_nat (num_frames * num_channels * 2) :: int16)"

definition log_input_audio ::
  "kernel \<Rightarrow> int16 list \<Rightarrow> nat \<Rightarrow> nat \<Rightarrow> nat \<Rightarrow> ('w host_world_scheme, unit) state" where
  "log_input_audio K buf num_frames num_channels ch = do {
     let size = block_size num_frames num_channels;
     check_ub (0 < size \<and> nat size \<le> 2 * length buf) Out_of_bounds_read;
     let inbuf = take (nat size div 2) buf;
     enqueue_input_buffer K ''INPT'' inbuf num_frames num_channels ch }"

definition log_output_audio ::
  "kernel \<Rightarrow> int16 list \<Rightarrow> nat \<Rightarrow> nat \<Rightarrow> nat \<Rightarrow> ('w host_world_scheme, unit) state" where
  "log_output_audio K buf num_frames num_channels ch = do {
     let size = block_size num_frames num_channels;
     check_ub (0 < size \<and> nat size \<le> 2 * length buf) Out_of_bounds_read;
     let outbuf = take (nat size div 2) buf;
     enqueue_output_buffer K ''OUTP'' outbuf num_frames num_channels ch }"

subsection \<open>Lemmas\<close>

lemma scan_ld_show:
  assumes "0 \<le> v" and "v < 2 ^ 63" and "t = [] \<or> \<not> isdigit (hd t)"
  shows "scan_ld (show_int v @ t) = Some (v, t)"
proof -
  have "takeWhile isdigit (show_nat (nat v) @ t) = show_nat (nat v)" "dropWhile isdigit (show_nat (nat v) @ t) = t"
    using assms(3) show_nat_digits by (cases t; auto simp: takeWhile_append dropWhile_append)+
  then show ?thesis
    using assms(1,2) by (simp add: scan_ld_def scan_sign_show_int digits_val_show_nat clamp64_def)
qed

lemma scan_ld_blanks: "list_all isspace ws \<Longrightarrow> scan_ld (ws @ t) = scan_ld t"
  by (simp add: scan_ld_def dropWhile_append list_all_iff flip: dropWhile_eq_Nil_conv)

definition stat_line :: "string \<Rightarrow> int \<Rightarrow> int \<Rightarrow> int \<Rightarrow> int \<Rightarrow> string \<Rightarrow> string" where
  "stat_line ws user nice system idle rest =
     ''cpu'' @ ws @ show_int user @ '' '' @ show_int nice @ '' '' @ show_int system @ '' '' @ show_int idle @ rest"

lemma scan_stat_line:
  assumes "list_all isspace ws" and "0 \<le> a" "0 \<le> b" "0 \<le> c" "0 \<le> d" and "a < 2 ^ 63" "b < 2 ^ 63" "c < 2 ^ 63" "d < 2 ^ 63"
    and "rest = [] \<or> \<not> isdigit (hd rest)"
  shows "scan_stat (stat_line ws a b c d rest) = [a, b, c, d]"
proof -
  have blank: "list_all isspace '' ''" "\<not> isdigit (CHR '' '')"
    by (simp_all add: isspace_def isdigit_def)
  show ?thesis
    using assms blank scan_ld_blanks [OF blank(1)]
    by (simp add: scan_stat_def stat_line_def scan_ld_blanks scan_ld_show numeral_eq_Suc)
qed

lemma update_metric_extremes:
  "least (update_metric D v m) = min v (least m)" "greatest (update_metric D v m) = max v (greatest m)"
  by (auto simp: update_metric_def min_def max_def)

lemma fold_update_metric:
  "least (fold (update_metric D) vs m) = fold min vs (least m)"
  "greatest (fold (update_metric D) vs m) = fold max vs (greatest m)"
  by (induction vs arbitrary: m) (simp_all add: update_metric_extremes)

lemma fold_update_metrics:
  "fold (\<lambda>(lat, amp, cpu, dsp). update_metrics D lat amp cpu dsp) fs m =
     \<lparr>m_latency = fold (update_metric D) (map fst fs) (m_latency m),
      m_amp = fold (update_metric D) (map (fst \<circ> snd) fs) (m_amp m),
      m_cpu = fold (update_metric D) (map (fst \<circ> snd \<circ> snd) fs) (m_cpu m),
      m_dsp = fold (update_metric D) (map (snd \<circ> snd \<circ> snd) fs) (m_dsp m)\<rparr>"
  by (induction fs arbitrary: m) (auto simp: update_metrics_def)

text \<open>An initial value outside the range of the values does not matter.\<close>

lemma fold_min_image:
  assumes "xs \<noteq> []" and "\<And>x. x \<in> set xs \<Longrightarrow> f x \<le> (c :: rat)"
  shows "fold min (map f xs) c = Min (f ` set xs)"
proof -
  have "fold min (map f xs) c = min c (Min (f ` set xs))"
    using Min.set_eq_fold [of c "map f xs"] assms(1) by simp
  moreover have "Min (f ` set xs) \<le> c"
    using assms by (auto simp: Min_le_iff neq_Nil_conv)
  ultimately show ?thesis by simp
qed

lemma fold_max_image:
  assumes "xs \<noteq> []" and "\<And>x. x \<in> set xs \<Longrightarrow> (c :: rat) \<le> f x"
  shows "fold max (map f xs) c = Max (f ` set xs)"
proof -
  have "fold max (map f xs) c = max c (Max (f ` set xs))"
    using Max.set_eq_fold [of c "map f xs"] assms(1) by simp
  moreover have "c \<le> Max (f ` set xs)"
    using assms by (auto simp: Max_ge_iff neq_Nil_conv)
  ultimately show ?thesis by simp
qed

lemma bounded_copy_idem [simp]: "bounded_copy n (bounded_copy n m) = bounded_copy n m"
proof -
  have "NUL \<notin> set (take (n - 1) (c_str m))" using c_str_clean [of m] by (auto dest: in_set_takeD)
  then show ?thesis by (simp add: bounded_copy_def)
qed

text \<open>A block of the audio thread, as the caller passes it.\<close>

lemma log_audio_put:
  assumes "2048 \<le> length buf" and "ch < 8"
  shows "exec (log_input_audio K buf 256 8 ch) s = put_input K (''INPT'', take 2048 buf, 256, 8, ch) s"
    and "exec (log_output_audio K buf 256 8 ch) s = put_output K (''OUTP'', take 2048 buf, 256, 8, ch) s"
    and "call_valid (tag, take 2048 buf, 256, 8, ch) \<longleftrightarrow> length tag + 512 \<le> SEND_BUFFER_SIZE"
    and "call_block (tag, take 2048 buf, 256, 8, ch) = Block tag (map (\<lambda>i. buf ! (i * 8 + ch)) [0..<256])"
proof -
  have "block_size 256 8 = 4096" by (simp add: block_size_def)
  then show "exec (log_input_audio K buf 256 8 ch) s = put_input K (''INPT'', take 2048 buf, 256, 8, ch) s"
    "exec (log_output_audio K buf 256 8 ch) s = put_output K (''OUTP'', take 2048 buf, 256, 8, ch) s"
    using assms(1) by (simp_all add: log_input_audio_def log_output_audio_def run_check_ub split_beta)
  show "call_valid (tag, take 2048 buf, 256, 8, ch) \<longleftrightarrow> length tag + 512 \<le> SEND_BUFFER_SIZE"
    using assms by (auto simp: enough_def)
  show "call_block (tag, take 2048 buf, 256, 8, ch) = Block tag (map (\<lambda>i. buf ! (i * 8 + ch)) [0..<256])"
    using assms(2) by (auto simp: channel_samples_def)
qed

subsection \<open>Properties\<close>

text \<open>
  \<open>get_cpu_load\<close> on a well-formed first line of \<^verbatim>\<open>/proc/stat\<close>. Whatever blanks
  follow \<^verbatim>\<open>cpu\<close> and whatever follows the fourth number, the load is 100 times the busy
  share of the ticks since the previous call (0 when no tick has passed), the static counters
  hold the new readings, the file is closed, and no \<open>long\<close> overflows as long as the counters
  of either reading sum to one.
\<close>
theorem get_cpu_load_functional:
  assumes "k_fopen_r K (trace s) ''/proc/stat'' = Some (stat_line ws u n sy i rest)"
    and "list_all isspace ws" and "rest = [] \<or> \<not> isdigit (hd rest)"
    and "0 \<le> u" "0 \<le> n" "0 \<le> sy" "0 \<le> i" "u + n + sy + i < 2 ^ 63"
    and "0 \<le> last_user s" "0 \<le> last_nice s" "0 \<le> last_system s" "0 \<le> last_idle s"
      "last_user s + last_nice s + last_system s + last_idle s < 2 ^ 63"
    and "busy = (u + n + sy) - (last_user s + last_nice s + last_system s)"
    and "passed = busy + (i - last_idle s)"
  shows "run_state (get_cpu_load K D) s =
    (if passed = 0 then 0 else rnd32 D (rnd32 D (100 * rnd32 D (of_int busy)) / rnd32 D (of_int passed)),
     s\<lparr>trace := trace s @ [Ev_fopen_r ''/proc/stat'' (Some (stat_line ws u n sy i rest)), Ev_fclose ''/proc/stat''],
       last_user := u, last_nice := n, last_system := sy, last_idle := i\<rparr>)"
proof -
  have scan: "scan_stat (stat_line ws u n sy i rest) = [u, n, sy, i]"
    using assms(2-8) by (intro scan_stat_line) simp_all
  have b: "busy = u - last_user s + (n - last_nice s) + (sy - last_system s)"
    using assms(14) by simp
  have long: "is_long (u - last_user s)" "is_long (n - last_nice s)" "is_long (u - last_user s + (n - last_nice s))"
    "is_long (sy - last_system s)" "is_long busy" "is_long (i - last_idle s)" "is_long passed"
    using assms(4-15) by (simp_all add: is_long_def)
  show ?thesis
    using long assms(15)
    by (simp add: get_cpu_load_def run_simps assms(1) scan flip: b)
qed

definition start_metrics :: metrics_world where
  "start_metrics = app_world.extend zero_app \<lparr>last_user = 0, last_nice = 0, last_system = 0, last_idle = 0\<rparr>"

theorem get_cpu_load_functional_witness:
  "result (get_cpu_load (sample_kernel\<lparr>k_fopen_r := \<lambda>tr path. Some (stat_line '' '' 30 0 20 50 '' 7'')\<rparr>) sample_devices) start_metrics = 50"
  by (subst get_cpu_load_functional [of _ _ "'' ''" 30 0 20 50 "'' 7''", OF _ _ _ _ _ _ _ _ _ _ _ _ _ refl refl])
    (simp_all add: start_metrics_def app_world.defs zero_app_def host_world.defs isspace_def isdigit_def sample_devices_def)

text \<open>
  C32: the extremes are the extremes. After any positive number of frames, with latencies up to
  the initial 1000 seconds and the other values within a thousand million of 0, the eight
  running extremes of \<open>update_metrics\<close> are the minimum and the maximum of the values of the
  frames, whatever the rounding of the totals.
\<close>
theorem metrics_extremes:
  assumes "frames \<noteq> []"
    and "\<forall>(lat, amp, cpu, dsp) \<in> set frames. 0 \<le> lat \<and> lat \<le> 10 ^ 6 \<and> \<bar>amp\<bar> \<le> 10 ^ 9 \<and> \<bar>cpu\<bar> \<le> 10 ^ 9 \<and> \<bar>dsp\<bar> \<le> 10 ^ 9"
    and "m = fold (\<lambda>(lat, amp, cpu, dsp). update_metrics D lat amp cpu dsp) frames zero_metrics"
  shows "least (m_latency m) = Min (fst ` set frames) \<and> greatest (m_latency m) = Max (fst ` set frames) \<and>
    least (m_amp m) = Min ((fst \<circ> snd) ` set frames) \<and> greatest (m_amp m) = Max ((fst \<circ> snd) ` set frames) \<and>
    least (m_cpu m) = Min ((fst \<circ> snd \<circ> snd) ` set frames) \<and> greatest (m_cpu m) = Max ((fst \<circ> snd \<circ> snd) ` set frames) \<and>
    least (m_dsp m) = Min ((snd \<circ> snd \<circ> snd) ` set frames) \<and> greatest (m_dsp m) = Max ((snd \<circ> snd \<circ> snd) ` set frames)"
  unfolding assms(3) fold_update_metrics zero_metrics_def metrics.select_convs metric.select_convs fold_update_metric
  by (intro conjI fold_min_image fold_max_image assms(1); use assms(2) in \<open>force simp: abs_le_iff\<close>)

theorem metrics_extremes_witness:
  "least (m_latency (fold (\<lambda>(lat, amp, cpu, dsp). update_metrics sample_devices lat amp cpu dsp)
     [(4, 1, 50, 10), (2, 3, 60, 11)] zero_metrics)) = 2"
  using metrics_extremes [OF _ _ refl, of "[(4, 1, 50, 10), (2, 3, 60, 11)]" sample_devices] by simp

text \<open>
  The log lines of the metrics. With room in the queue, \<open>log_frame_metrics\<close> appends its one
  line and \<open>log_summary\<close> its five, in order and cut to 255 characters, and nothing else is
  queued.
\<close>
theorem metrics_log_lines:
  assumes "queue_ok s" and "length (pending_log s) + 5 < LOG_QUEUE_SIZE"
  shows "pending_log (exec (log_frame_metrics mode n amp lat cpu dsp) s) =
      pending_log s @ [bounded_copy 256 (frame_line mode n amp lat cpu dsp)] \<and>
    pending_log (exec (log_summary D n m) s) = pending_log s @ map (bounded_copy 256)
      [''[Live Summary] Frames: '' @ show_int n,
       summary_line D ''Latency (ms)'' 2 n (m_latency m), summary_line D ''Amp'' 2 n (m_amp m),
       summary_line D ''CPU Load (%)'' 1 n (m_cpu m), summary_line D ''DSP Load (%)'' 1 n (m_dsp m)]"
proof -
  let ?lines = "map (bounded_copy 256) [''[Live Summary] Frames: '' @ show_int n,
       summary_line D ''Latency (ms)'' 2 n (m_latency m), summary_line D ''Amp'' 2 n (m_amp m),
       summary_line D ''CPU Load (%)'' 1 n (m_cpu m), summary_line D ''DSP Load (%)'' 1 n (m_dsp m)]"
  have "exec (log_summary D n m) s = fold (\<lambda>m. exec (enqueue_log m)) ?lines s"
    by (simp add: log_summary_def split_beta)
  moreover have "length (pending_log s) + length ?lines \<le> LOG_QUEUE_SIZE - 1" using assms(2) by simp
  note logq.enq_many [OF assms(1) this]
  moreover have "pending_log (exec (log_frame_metrics mode n amp lat cpu dsp) s) =
      pending_log s @ [bounded_copy 256 (frame_line mode n amp lat cpu dsp)]"
    using logq.items_enq [OF assms(1)] assms(2) by (simp add: log_frame_metrics_def)
  ultimately show ?thesis by simp
qed

theorem metrics_log_lines_witness:
  "pending_log (exec (log_frame_metrics EXEC_ARM 1 (5/2) 3 50 0) zero_host) =
     [''Frame 1: AvgAmp=2.50, Latency=3.00ms, Mode=CPU CPULoad=50.0% DSPLoad=0.0%'']"
proof -
  have ok: "queue_ok zero_host" "pending_log zero_host = []"
    by (simp_all add: queue_ok_def zero_host_def pending_log_def ring_empty)
  moreover have "bounded_copy 256 (frame_line EXEC_ARM 1 (5/2) 3 50 0) =
      ''Frame 1: AvgAmp=2.50, Latency=3.00ms, Mode=CPU CPULoad=50.0% DSPLoad=0.0%''"
    by code_simp
  ultimately show ?thesis
    using metrics_log_lines [OF ok(1), of EXEC_ARM 1 "5/2" 3 50 0 sample_devices zero_metrics]
    by (simp add: LOG_QUEUE_SIZE_def)
qed

text \<open>
  The audio thread's blocks. For its 256 frames of 8 channels, \<open>log_input_audio\<close> and
  \<open>log_output_audio\<close> enqueue exactly one valid block each: the tag of the channel and the
  samples of the chosen channel. The byte count still fits its \<open>int16_t\<close>; from 2048 frames on
  it would not.
\<close>
theorem log_audio_blocks:
  assumes "2048 \<le> length buf" and "ch < 8"
  shows "exec (log_input_audio K buf 256 8 ch) s = put_input K (''INPT'', take 2048 buf, 256, 8, ch) s \<and>
    exec (log_output_audio K buf 256 8 ch) s = put_output K (''OUTP'', take 2048 buf, 256, 8, ch) s \<and>
    (\<forall>tag. length tag = 4 \<longrightarrow> call_valid (tag, take 2048 buf, 256, 8, ch) \<and>
      call_block (tag, take 2048 buf, 256, 8, ch) = Block tag (map (\<lambda>i. buf ! (i * 8 + ch)) [0..<256]) \<and>
      audio_block tag (call_block (tag, take 2048 buf, 256, 8, ch))) \<and>
    block_size 256 8 = 4096 \<and> block_size 2047 8 = 32752 \<and> block_size 2048 8 < 0"
proof (intro conjI)
  show "\<forall>tag. length tag = 4 \<longrightarrow> call_valid (tag, take 2048 buf, 256, 8, ch) \<and>
      call_block (tag, take 2048 buf, 256, 8, ch) = Block tag (map (\<lambda>i. buf ! (i * 8 + ch)) [0..<256]) \<and>
      audio_block tag (call_block (tag, take 2048 buf, 256, 8, ch))"
    using log_audio_put(3,4) [OF assms]
    by (simp add: SEND_BUFFER_SIZE_def del: call_valid.simps call_block.simps)
  show "block_size 256 8 = 4096" "block_size 2047 8 = 32752" "block_size 2048 8 < 0"
    by (simp_all add: block_size_def)
qed (rule log_audio_put [OF assms])+

theorem log_audio_blocks_witness:
  "exec (log_input_audio sample_kernel (replicate 4096 7) 256 8 0) connected_host =
     put_input sample_kernel (''INPT'', take 2048 (replicate 4096 7), 256, 8, 0) connected_host"
  using log_audio_blocks [of "replicate 4096 7" 0 sample_kernel connected_host]
  by (simp del: put_input.simps put_output.simps call_valid.simps call_block.simps)

end
