(* ===== verification/Audio.thy ===== *)
theory Audio
  imports Devices
begin

text \<open>
  The processing of a block of 256 frames in \<^verbatim>\<open>rpmsg_audio_example.c\<close>: on the ARM
  (\<open>process_on_arm\<close>, a transform, an optional cut and the transform back, per channel) or on
  the remote processor (\<open>process_on_dsp\<close>, a message and its reply), the set-up of the message
  (\<open>init_rpmsg_buffer\<close>) and the amplitude of a block.
\<close>

subsection \<open>The data buffer\<close>

text \<open>The bytes from the start of the data buffer that an access needs.\<close>

definition data_access :: "nat \<Rightarrow> 'w app_world_scheme \<Rightarrow> bool" where
  "data_access n s \<longleftrightarrow> mapped s (lb_data_buf (lbuf s)) \<and> int n \<le> lb_data_size (lbuf s)"

definition load_sample :: "nat \<Rightarrow> ('w app_world_scheme, int16) state" where
  "load_sample j = do {
     ok \<leftarrow> gets (data_access (2 * (j + 1)));
     check_ub ok Out_of_bounds_read;
     gets (\<lambda>s. data_mem s j) }"

definition store_sample :: "nat \<Rightarrow> int16 \<Rightarrow> ('w app_world_scheme, unit) state" where
  "store_sample j v = do {
     ok \<leftarrow> gets (data_access (2 * (j + 1)));
     check_ub ok Buffer_overflow;
     modify (\<lambda>s. s\<lparr>data_mem := (data_mem s)(j := v)\<rparr>) }"

subsection \<open>Processing on the ARM\<close>

fun load_channel :: "nat \<Rightarrow> nat list \<Rightarrow> ('w app_world_scheme, rat list) state" where
  "load_channel ch [] = ret []"
| "load_channel ch (i # is) = do {
     v \<leftarrow> load_sample (i * CHANNELS + ch);
     vs \<leftarrow> load_channel ch is;
     ret (of_int (sint v) # vs) }"

definition bin_freq :: "devices \<Rightarrow> nat \<Rightarrow> rat" where
  "bin_freq D i = rnd32 D (of_nat (i * SAMPLE_RATE div NUM_FRAMES))"

definition cut_bins :: "devices \<Rightarrow> (rat \<times> rat) list \<Rightarrow> (rat \<times> rat) list" where
  "cut_bins D spectrum =
     map (\<lambda>i. if i < NUM_FRAMES div 2 + 1 \<and> bin_freq D i \<ge> 5000 then (0, 0) else spectrum ! i) [0..<length spectrum]"

text \<open>The conversion of a \<open>double\<close> to an integer drops the fraction.\<close>

definition trunc :: "rat \<Rightarrow> int" where
  "trunc x = (if 0 \<le> x then \<lfloor>x\<rfloor> else \<lceil>x\<rceil>)"

definition clamp16 :: "int16 \<Rightarrow> int16" where
  "clamp16 val =
     (let val = (if sint val > 32767 then 32767 else val)
      in if sint val < - 32768 then - 32768 else val)"

definition store_output :: "devices \<Rightarrow> nat \<Rightarrow> rat list \<Rightarrow> nat \<Rightarrow> ('w app_world_scheme, unit) state" where
  "store_output D ch output i = do {
     let x = trunc (rnd64 D (output ! i / of_nat NUM_FRAMES));
     check_ub (- 32768 \<le> x \<and> x \<le> 32767) Conversion_overflow;
     store_sample (i * CHANNELS + ch) (clamp16 (word_of_int x)) }"

fun store_channel :: "devices \<Rightarrow> nat \<Rightarrow> rat list \<Rightarrow> nat list \<Rightarrow> ('w app_world_scheme, unit) state" where
  "store_channel D ch output [] = ret ()"
| "store_channel D ch output (i # is) = do { store_output D ch output i; store_channel D ch output is }"

definition process_channel :: "devices \<Rightarrow> nat \<Rightarrow> ('w app_world_scheme, unit) state" where
  "process_channel D ch = do {
     input \<leftarrow> load_channel ch [0..<NUM_FRAMES];
     let spectrum = d_r2c D input;
     filtering \<leftarrow> gets filter_enabled;
     let spectrum = (if filtering then cut_bins D spectrum else spectrum);
     let output = d_c2r D spectrum;
     store_channel D ch output [0..<NUM_FRAMES] }"

fun process_channels :: "devices \<Rightarrow> nat list \<Rightarrow> ('w app_world_scheme, unit) state" where
  "process_channels D [] = ret ()"
| "process_channels D (ch # chs) = do { process_channel D ch; process_channels D chs }"

definition process_on_arm :: "devices \<Rightarrow> ('w app_world_scheme, unit) state" where
  "process_on_arm D = process_channels D [0..<CHANNELS]"

subsection \<open>Messages to the remote processor\<close>

definition le32 :: "u32 \<Rightarrow> string" where
  "le32 w = [char_of (unat w mod 256), char_of (unat w div 256 mod 256),
     char_of (unat w div 65536 mod 256), char_of (unat w div 16777216 mod 256)]"

definition unle32 :: "string \<Rightarrow> u32" where
  "unle32 bs = word_of_nat (of_char (bs ! 0) + of_char (bs ! 1) * 256 + of_char (bs ! 2) * 65536 + of_char (bs ! 3) * 16777216)"

text \<open>The packed struct as the bytes of its five words, and back.\<close>

definition ipc_bytes :: "ipc_msg_buf_t \<Rightarrow> string" where
  "ipc_bytes m = le32 (ib_data_buffer m) @ le32 (ib_params_buffer m) @ le32 (ib_data_size m) @
     le32 (ib_params_size m) @ le32 (ib_graph_id m)"

definition ipc_of_bytes :: "string \<Rightarrow> ipc_msg_buf_t" where
  "ipc_of_bytes bs =
     \<lparr>ib_data_buffer = unle32 bs, ib_params_buffer = unle32 (drop 4 bs), ib_data_size = unle32 (drop 8 bs),
      ib_params_size = unle32 (drop 12 bs), ib_graph_id = unle32 (drop 16 bs)\<rparr>"

definition IPC_SIZE :: nat where "IPC_SIZE = 20"

definition init_rpmsg_buffer :: "int \<Rightarrow> ('w app_world_scheme, unit) state" where
  "init_rpmsg_buffer graph_id = do {
     d \<leftarrow> gets data_params;
     p \<leftarrow> gets options_params;
     modify (\<lambda>s. s\<lparr>lbuf := \<lparr>lb_data_buf = kern_addr d, lb_params_buf = kern_addr p,
                           lb_data_size = buf_size d, lb_params_size = buf_size p\<rparr>,
                  ibuf := \<lparr>ib_data_buffer = ucast (phys_addr d), ib_params_buffer = ucast (phys_addr p),
                           ib_data_size = word_of_int (buf_size d), ib_params_size = word_of_int (buf_size p),
                           ib_graph_id = word_of_int graph_id\<rparr>\<rparr>);
     modify (\<lambda>s. s\<lparr>dspParams := lb_params_buf (lbuf s)\<rparr>) }"

text \<open>
  What the remote processor does once it has the message: it rewrites the data buffer and the
  load it reports.
\<close>

definition dsp_turn :: "devices \<Rightarrow> ('w app_world_scheme, unit) state" where
  "dsp_turn D = modify (\<lambda>s. s\<lparr>data_mem := d_dsp_data D (trace s) (data_mem s),
     params_mem := (params_mem s)\<lparr>dsp_load := d_dsp_load D (trace s)\<rparr>\<rparr>)"

definition process_on_dsp :: "kernel \<Rightarrow> devices \<Rightarrow> ('w app_world_scheme, unit) state" where
  "process_on_dsp K D = do {
     let packet_len = int IPC_SIZE;
     fd \<leftarrow> gets rpmsg_fd;
     msg \<leftarrow> gets (\<lambda>s. ipc_bytes (ibuf s));
     r \<leftarrow> send_msg K fd msg (int IPC_SIZE);
     if r < 0 then ret ()
     else if r \<noteq> packet_len then ret ()
     else do {
       dsp_turn D;
       msg \<leftarrow> gets (\<lambda>s. ipc_bytes (ibuf s));
       a \<leftarrow> recv_msg K fd 256 msg packet_len;
       modify (\<lambda>s. s\<lparr>ibuf := ipc_of_bytes (fst (snd a))\<rparr>) } }"

subsection \<open>The amplitude of a block\<close>

text \<open>
  \<open>lbuf.data_buf\<close> is a pointer to 32-bit words: element \<open>j\<close> lies at byte \<open>4 * j\<close>, across two
  samples.
\<close>

definition word_at :: "(nat \<Rightarrow> int16) \<Rightarrow> nat \<Rightarrow> u32" where
  "word_at m j = word_cat (m (2 * j + 1)) (m (2 * j))"

definition word_access :: "nat \<Rightarrow> 'w app_world_scheme \<Rightarrow> bool" where
  "word_access j = data_access (4 * (j + 1))"

definition load_word :: "nat \<Rightarrow> ('w app_world_scheme, u32) state" where
  "load_word j = do {
     ok \<leftarrow> gets (word_access j);
     check_ub ok Out_of_bounds_read;
     gets (\<lambda>s. word_at (data_mem s) j) }"

fun sum_abs :: "nat list \<Rightarrow> int \<Rightarrow> ('w app_world_scheme, int) state" where
  "sum_abs [] acc = ret acc"
| "sum_abs (i # is) acc = do {
     channel \<leftarrow> gets current_channel;
     w \<leftarrow> load_word (i * CHANNELS + channel);
     check_ub (sint w \<noteq> - (2 ^ 31)) Signed_overflow;
     sum_abs is (acc + \<bar>sint w\<bar>) }"

definition block_amplitude :: "devices \<Rightarrow> ('w app_world_scheme, rat) state" where
  "block_amplitude D = do {
     acc \<leftarrow> sum_abs [0..<NUM_FRAMES] 0;
     ret (rnd32 D (of_int (acc div int (NUM_FRAMES * CHANNELS)))) }"

definition time_diff_ms :: "devices \<Rightarrow> int \<times> int \<Rightarrow> int \<times> int \<Rightarrow> rat" where
  "time_diff_ms D a b =
     rnd64 D (rnd64 D (rnd64 D (of_int (fst b - fst a)) * 1000) + rnd64 D (rnd64 D (of_int (snd b - snd a)) / 1000000))"

subsection \<open>Lemmas: the ARM path\<close>

lemma data_access_mono: "data_access n s \<Longrightarrow> m \<le> n \<Longrightarrow> data_access m s"
  by (auto simp: data_access_def)

lemma data_access_frame [simp]: "data_access n (s\<lparr>data_mem := m\<rparr>) = data_access n s"
  by (simp add: data_access_def mapped_def)

lemma run_load_channel:
  "(\<And>i. i \<in> set is \<Longrightarrow> data_access (2 * (i * CHANNELS + ch + 1)) s) \<Longrightarrow>
   run_state (load_channel ch is) s = (map (\<lambda>i. of_int (sint (data_mem s (i * CHANNELS + ch)))) is, s)"
  by (induction "is") (simp_all add: load_sample_def run_check_ub)

text \<open>A block, as the rational samples of each channel.\<close>

definition channel_input :: "(nat \<Rightarrow> int16) \<Rightarrow> nat \<Rightarrow> rat list" where
  "channel_input m ch = map (\<lambda>i. of_int (sint (m (i * CHANNELS + ch)))) [0..<NUM_FRAMES]"

definition channel_output :: "devices \<Rightarrow> bool \<Rightarrow> rat list \<Rightarrow> rat list" where
  "channel_output D filtering xs = d_c2r D (if filtering then cut_bins D (d_r2c D xs) else d_r2c D xs)"

definition sample_value :: "devices \<Rightarrow> rat list \<Rightarrow> nat \<Rightarrow> int" where
  "sample_value D output i = trunc (rnd64 D (output ! i / of_nat NUM_FRAMES))"

definition fits_int16 :: "int \<Rightarrow> bool" where
  "fits_int16 x \<longleftrightarrow> - 32768 \<le> x \<and> x \<le> 32767"

lemma sint_int16: "fits_int16 x \<Longrightarrow> sint (word_of_int x :: int16) = x"
  by (simp add: fits_int16_def sint_sbintrunc' signed_take_bit_int_eq_self)

text \<open>The clamp comes after the conversion and never changes anything.\<close>

lemma clamp16_id [simp]: "clamp16 v = v"
  using sint_lt [of v] sint_ge [of v] by (simp add: clamp16_def Let_def)

text \<open>The state with the undefined behaviour \<open>u\<close> noted, unless a condition holds.\<close>

definition flag :: "bool \<Rightarrow> ub \<Rightarrow> 'w world_scheme \<Rightarrow> 'w world_scheme" where
  "flag ok u s = (if ok \<or> fault s \<noteq> None then s else s\<lparr>fault := Some u\<rparr>)"

lemma flag_True [simp]: "flag True u s = s"
  by (simp add: flag_def)

lemma flag_flag [simp]: "flag a u (flag b u s) = flag (b \<and> a) u s"
  by (simp add: flag_def)

lemma flag_view [simp]:
  "data_mem (flag ok u s) = data_mem s" "filter_enabled (flag ok u s) = filter_enabled s"
  "data_access n (flag ok u s) = data_access n s"
  by (simp_all add: flag_def data_access_def mapped_def)

lemma flag_update [simp]: "(flag ok u s)\<lparr>data_mem := m\<rparr> = flag ok u (s\<lparr>data_mem := m\<rparr>)"
  by (simp add: flag_def)

text \<open>One sample of a channel replaced.\<close>

definition put_frame :: "nat \<Rightarrow> (nat \<Rightarrow> int16) \<Rightarrow> nat \<Rightarrow> (nat \<Rightarrow> int16) \<Rightarrow> nat \<Rightarrow> int16" where
  "put_frame ch f i m = m(i * CHANNELS + ch := f i)"

lemma run_store_output:
  assumes "data_access (2 * (i * CHANNELS + ch + 1)) s"
  shows "run_state (store_output D ch output i) s =
     ((), flag (fits_int16 (sample_value D output i)) Conversion_overflow
        (s\<lparr>data_mem := put_frame ch (\<lambda>i. word_of_int (sample_value D output i)) i (data_mem s)\<rparr>))"
proof -
  have "trunc (rnd64 D (output ! i / of_nat NUM_FRAMES)) = sample_value D output i"
    by (simp add: sample_value_def)
  then show ?thesis
    using assms
    by (simp add: store_output_def store_sample_def run_check_ub put_frame_def flag_def fits_int16_def data_access_def mapped_def Let_def)
qed

lemma run_store_channel:
  "(\<And>i. i \<in> set is \<Longrightarrow> data_access (2 * (i * CHANNELS + ch + 1)) s) \<Longrightarrow>
   run_state (store_channel D ch output is) s =
     ((), flag (\<forall>i \<in> set is. fits_int16 (sample_value D output i)) Conversion_overflow
        (s\<lparr>data_mem := fold (put_frame ch (\<lambda>i. word_of_int (sample_value D output i))) is (data_mem s)\<rparr>))"
proof (induction "is" arbitrary: s)
  case Nil
  then show ?case by simp
next
  case (Cons i "is")
  let ?f = "put_frame ch (\<lambda>i. word_of_int (sample_value D output i))"
  let ?s = "flag (fits_int16 (sample_value D output i)) Conversion_overflow (s\<lparr>data_mem := ?f i (data_mem s)\<rparr>)"
  have "run_state (store_output D ch output i) s = ((), ?s)"
    using Cons.prems by (intro run_store_output) simp
  moreover have "run_state (store_channel D ch output is) ?s =
      ((), flag (\<forall>i \<in> set is. fits_int16 (sample_value D output i)) Conversion_overflow
        (?s\<lparr>data_mem := fold ?f is (data_mem ?s)\<rparr>))"
    using Cons.prems by (intro Cons.IH) simp
  ultimately show ?case by simp
qed

text \<open>The samples of one channel replaced, for the first \<open>n\<close> frames.\<close>

definition set_channel :: "nat \<Rightarrow> nat \<Rightarrow> (nat \<Rightarrow> int16) \<Rightarrow> (nat \<Rightarrow> int16) \<Rightarrow> nat \<Rightarrow> int16" where
  "set_channel n ch f m = (\<lambda>j. if j mod CHANNELS = ch \<and> j div CHANNELS < n then f (j div CHANNELS) else m j)"

lemma fold_set_channel:
  assumes "ch < CHANNELS"
  shows "fold (put_frame ch f) [0..<n] m = set_channel n ch f m"
proof (induction n)
  case 0
  then show ?case by (simp add: set_channel_def)
next
  case (Suc n)
  have "j = n * CHANNELS + ch \<longleftrightarrow> j mod CHANNELS = ch \<and> j div CHANNELS = n" for j
    using assms by (metis add.commute div_mult_mod_eq div_mult_self3 div_less add.right_neutral mod_less mod_mult_self3 not_less_zero)
  then show ?case
    by (simp add: Suc.IH) (rule ext, auto simp: put_frame_def set_channel_def less_Suc_eq)
qed

text \<open>The block after the first \<open>c\<close> channels.\<close>

definition arm_block :: "devices \<Rightarrow> bool \<Rightarrow> nat \<Rightarrow> (nat \<Rightarrow> int16) \<Rightarrow> nat \<Rightarrow> int16" where
  "arm_block D filtering c m =
     (\<lambda>j. if j < NUM_FRAMES * CHANNELS \<and> j mod CHANNELS < c
          then word_of_int (sample_value D (channel_output D filtering (channel_input m (j mod CHANNELS))) (j div CHANNELS))
          else m j)"

definition arm_fits :: "devices \<Rightarrow> bool \<Rightarrow> nat list \<Rightarrow> (nat \<Rightarrow> int16) \<Rightarrow> bool" where
  "arm_fits D filtering chs m \<longleftrightarrow>
     (\<forall>ch \<in> set chs. \<forall>i < NUM_FRAMES. fits_int16 (sample_value D (channel_output D filtering (channel_input m ch)) i))"

lemma channel_input_arm: "ch \<ge> c \<Longrightarrow> ch < CHANNELS \<Longrightarrow> channel_input (arm_block D filtering c m) ch = channel_input m ch"
  by (simp add: channel_input_def arm_block_def CHANNELS_def)

lemma arm_block_Suc:
  assumes "c < CHANNELS"
  shows "set_channel NUM_FRAMES c (\<lambda>i. word_of_int (sample_value D (channel_output D filtering (channel_input m c)) i))
      (arm_block D filtering c m) = arm_block D filtering (Suc c) m"
proof (rule ext)
  fix j
  have "j div CHANNELS < NUM_FRAMES \<longleftrightarrow> j < NUM_FRAMES * CHANNELS"
    by (simp add: CHANNELS_def div_less_iff_less_mult)
  then show "set_channel NUM_FRAMES c (\<lambda>i. word_of_int (sample_value D (channel_output D filtering (channel_input m c)) i))
      (arm_block D filtering c m) j = arm_block D filtering (Suc c) m j"
    by (auto simp: set_channel_def arm_block_def less_Suc_eq)
qed

lemma run_process_channel:
  assumes "ch < CHANNELS" and "data_access (2 * (NUM_FRAMES * CHANNELS)) s"
  shows "run_state (process_channel D ch) s =
     ((), flag (arm_fits D (filter_enabled s) [ch] (data_mem s)) Conversion_overflow
        (s\<lparr>data_mem := set_channel NUM_FRAMES ch
          (\<lambda>i. word_of_int (sample_value D (channel_output D (filter_enabled s) (channel_input (data_mem s) ch)) i)) (data_mem s)\<rparr>))"
proof -
  have acc: "data_access (2 * (i * CHANNELS + ch + 1)) s" if "i < NUM_FRAMES" for i
    using that assms(1) by (intro data_access_mono [OF assms(2)]) (simp add: CHANNELS_def)
  have "run_state (load_channel ch [0..<NUM_FRAMES]) s = (channel_input (data_mem s) ch, s)"
    using acc by (subst run_load_channel) (simp_all add: channel_input_def)
  moreover have "run_state (store_channel D ch (channel_output D (filter_enabled s) (channel_input (data_mem s) ch)) [0..<NUM_FRAMES]) s =
      ((), flag (arm_fits D (filter_enabled s) [ch] (data_mem s)) Conversion_overflow
        (s\<lparr>data_mem := set_channel NUM_FRAMES ch
          (\<lambda>i. word_of_int (sample_value D (channel_output D (filter_enabled s) (channel_input (data_mem s) ch)) i)) (data_mem s)\<rparr>))"
    using acc by (subst run_store_channel) (simp_all add: fold_set_channel [OF assms(1)] arm_fits_def Ball_def)
  ultimately show ?thesis
    by (cases "filter_enabled s") (simp_all add: process_channel_def channel_output_def Let_def)
qed

lemma run_process_channels:
  assumes "data_access (2 * (NUM_FRAMES * CHANNELS)) s"
  shows "c + k = CHANNELS \<Longrightarrow>
    run_state (process_channels D [c..<CHANNELS])
       (flag (arm_fits D (filter_enabled s) [0..<c] (data_mem s)) Conversion_overflow
          (s\<lparr>data_mem := arm_block D (filter_enabled s) c (data_mem s)\<rparr>)) =
     ((), flag (arm_fits D (filter_enabled s) [0..<CHANNELS] (data_mem s)) Conversion_overflow
        (s\<lparr>data_mem := arm_block D (filter_enabled s) CHANNELS (data_mem s)\<rparr>))"
proof (induction k arbitrary: c)
  case 0
  then show ?case by simp
next
  case (Suc k)
  then have c: "c < CHANNELS" by simp
  let ?t = "\<lambda>c. flag (arm_fits D (filter_enabled s) [0..<c] (data_mem s)) Conversion_overflow
      (s\<lparr>data_mem := arm_block D (filter_enabled s) c (data_mem s)\<rparr>)"
  have input: "channel_input (arm_block D (filter_enabled s) c (data_mem s)) c = channel_input (data_mem s) c"
    using c by (simp add: channel_input_arm)
  then have fits: "arm_fits D (filter_enabled s) [c] (arm_block D (filter_enabled s) c (data_mem s)) =
      arm_fits D (filter_enabled s) [c] (data_mem s)"
    by (simp add: arm_fits_def)
  have all: "arm_fits D (filter_enabled s) [0..<Suc c] (data_mem s) \<longleftrightarrow>
      arm_fits D (filter_enabled s) [0..<c] (data_mem s) \<and> arm_fits D (filter_enabled s) [c] (data_mem s)"
    by (auto simp: arm_fits_def less_Suc_eq)
  have "run_state (process_channel D c) (?t c) = ((), ?t (Suc c))"
    using c assms by (subst run_process_channel) (simp_all add: input fits all arm_block_Suc del: upt_Suc)
  then show ?case
    using Suc.IH [of "Suc c"] Suc.prems c by (simp add: upt_conv_Cons del: upt_Suc)
qed

lemma run_process_on_arm:
  assumes "data_access (2 * (NUM_FRAMES * CHANNELS)) s"
  shows "run_state (process_on_arm D) s =
    ((), flag (arm_fits D (filter_enabled s) [0..<CHANNELS] (data_mem s)) Conversion_overflow
       (s\<lparr>data_mem := arm_block D (filter_enabled s) CHANNELS (data_mem s)\<rparr>))"
proof -
  have "arm_fits D (filter_enabled s) [0..<0] (data_mem s)" "arm_block D (filter_enabled s) 0 (data_mem s) = data_mem s"
    by (simp_all add: arm_fits_def arm_block_def)
  then show ?thesis
    using run_process_channels [OF assms, of 0 CHANNELS D] by (simp add: process_on_arm_def)
qed

subsection \<open>Lemmas: numbers\<close>

lemma trunc_of_int [simp]: "trunc (of_int k) = k"
  by (simp add: trunc_def)

lemma trunc_signed [simp]: "trunc (signed w) = sint w"
  by (metis of_int_sint trunc_of_int)

lemma trunc_near:
  assumes "\<bar>x - of_int k\<bar> < 1"
  shows "\<bar>trunc x - k\<bar> \<le> 1" and "fits_int16 k \<Longrightarrow> fits_int16 (trunc x)"
proof -
  have x: "of_int k - 1 < x" "x < of_int k + 1"
    using assms by linarith+
  show "\<bar>trunc x - k\<bar> \<le> 1"
    using x unfolding trunc_def by (cases "0 \<le> x") (simp_all, linarith+)
  show "fits_int16 (trunc x)" if "fits_int16 k"
  proof -
    have "- 32768 \<le> (of_int k :: rat)" "(of_int k :: rat) \<le> 32767"
      using that of_int_le_iff [of "- 32768" k] of_int_le_iff [of k 32767] by (simp_all add: fits_int16_def)
    then have "- 32769 < x" "x < 32768" using x by linarith+
    then show ?thesis
      unfolding trunc_def fits_int16_def by (cases "0 \<le> x"; auto; linarith)
  qed
qed

lemma rnd64_scale:
  "float_contract D \<Longrightarrow> y \<in> set (d_c2r D sp) \<Longrightarrow> rnd64 D (y / of_nat NUM_FRAMES) = y / of_nat NUM_FRAMES"
  unfolding float_contract_def by blast

lemma fits_sint: "fits_int16 (sint (w :: int16))"
  using sint_lt [of w] sint_ge [of w] by (simp add: fits_int16_def)

text \<open>The bins from the 27th on lie at 5062 Hz and above.\<close>

lemma cut_bins_27:
  assumes "float_contract D" and "length sp = 129"
  shows "cut_bins D sp = take 27 sp @ replicate 102 (0, 0)"
proof (rule nth_equalityI)
  show "length (cut_bins D sp) = length (take 27 sp @ replicate 102 (0, 0))"
    using assms(2) by (simp add: cut_bins_def)
  fix i assume "i < length (cut_bins D sp)"
  then have i: "i < 129" using assms(2) by (simp add: cut_bins_def)
  have rnd: "\<And>k. \<bar>k\<bar> \<le> 2 ^ 24 \<Longrightarrow> rnd32 D (of_int k) = of_int k"
    using assms(1) by (simp add: float_contract_def)
  have "bin_freq D i = of_nat (i * 48000 div 256)"
    using rnd [of "int (i * 48000 div 256)"] i by (simp add: bin_freq_def SAMPLE_RATE_def NUM_FRAMES_def)
  moreover have "5000 \<le> i * 48000 div 256 \<longleftrightarrow> 27 \<le> i"
    by (simp add: less_eq_div_iff_mult_less_eq) presburger
  then have "(5000 :: rat) \<le> of_nat (i * 48000 div 256) \<longleftrightarrow> 27 \<le> i"
    by (metis of_nat_le_iff of_nat_numeral)
  ultimately show "cut_bins D sp ! i = (take 27 sp @ replicate 102 (0, 0)) ! i"
    using i assms(2) by (simp add: cut_bins_def NUM_FRAMES_def nth_append)
qed

subsection \<open>Lemmas: messages\<close>

lemma length_le32 [simp]: "length (le32 w) = 4"
  by (simp add: le32_def)

lemma unle32_le32 [simp]: "unle32 (le32 w @ bs) = w"
proof -
  define x where "x = unat w"
  define a b c where "a = x div 256" and "b = a div 256" and "c = b div 256"
  define p q r where "p = x mod 256" and "q = a mod 256" and "r = b mod 256"
  have "x < 2 ^ 32" using unsigned_less [of w] by (simp add: x_def)
  then have "c < 256" by (simp add: a_def b_def c_def flip: div_mult2_eq)
  then have c: "c mod 256 = c" by simp
  have "x = a * 256 + p" "a = b * 256 + q" "b = c * 256 + r"
    by (simp_all add: a_def b_def c_def p_def q_def r_def)
  then have "p + q * 256 + r * 65536 + c * 16777216 = x" by simp
  moreover have "x div 65536 = b" "x div 16777216 = c"
    by (simp_all add: a_def b_def c_def flip: div_mult2_eq)
  ultimately have sum: "x mod 256 + x div 256 mod 256 * 256 + x div 65536 mod 256 * 65536 + x div 16777216 mod 256 * 16777216 = x"
    by (simp only: c flip: a_def p_def q_def r_def)
  have bytes: "(of_char ((le32 w @ bs) ! 0) :: nat) = x mod 256" "(of_char ((le32 w @ bs) ! 1) :: nat) = x div 256 mod 256"
    "(of_char ((le32 w @ bs) ! 2) :: nat) = x div 65536 mod 256" "(of_char ((le32 w @ bs) ! 3) :: nat) = x div 16777216 mod 256"
    by (simp_all add: le32_def of_char_of x_def)
  have "unle32 (le32 w @ bs) = word_of_nat x"
    by (simp only: unle32_def bytes sum)
  then show ?thesis by (simp add: x_def)
qed

lemma length_ipc_bytes [simp]: "length (ipc_bytes m) = 20"
  by (simp add: ipc_bytes_def)

lemma ipc_roundtrip [simp]: "ipc_of_bytes (ipc_bytes m) = m"
  using unle32_le32 [of "ib_graph_id m" "[]"] by (simp add: ipc_of_bytes_def ipc_bytes_def)

lemma run_load_word:
  "run_state (load_word j) s = (word_at (data_mem s) j, flag (word_access j s) Out_of_bounds_read s)"
  by (simp add: load_word_def run_check_ub flag_def)

lemma flag_word [simp]:
  "word_access j (flag ok u s) = word_access j s" "current_channel (flag ok u s) = current_channel s"
  by (simp_all add: word_access_def) (simp add: flag_def)

text \<open>The word read for frame \<open>i\<close>; \<open>abs\<close> is undefined at the least \<open>int\<close>.\<close>

definition no_int_min :: "(nat \<Rightarrow> int16) \<Rightarrow> bool" where
  "no_int_min m \<longleftrightarrow> (\<forall>j. sint (word_at m j) \<noteq> - (2 ^ 31))"

lemma run_sum_abs:
  "no_int_min (data_mem s) \<Longrightarrow> run_state (sum_abs is acc) s =
     (acc + (\<Sum>i \<leftarrow> is. \<bar>sint (word_at (data_mem s) (i * CHANNELS + current_channel s))\<bar>),
      flag (\<forall>i \<in> set is. word_access (i * CHANNELS + current_channel s) s) Out_of_bounds_read s)"
proof (induction "is" arbitrary: s acc)
  case Nil
  then show ?case by simp
next
  case (Cons i "is")
  let ?j = "i * CHANNELS + current_channel s"
  let ?s = "flag (word_access ?j s) Out_of_bounds_read s"
  have "sint (word_at (data_mem s) ?j) \<noteq> - (2 ^ 31)"
    using Cons.prems by (simp add: no_int_min_def)
  then have "run_state (sum_abs (i # is) acc) s = run_state (sum_abs is (acc + \<bar>sint (word_at (data_mem s) ?j)\<bar>)) ?s"
    by (simp add: run_check_ub run_load_word)
  then show ?case
    using Cons.IH [of ?s "acc + \<bar>sint (word_at (data_mem s) ?j)\<bar>"] Cons.prems by simp
qed

subsection \<open>Properties\<close>

text \<open>
  C18: without the filter, processing on the ARM keeps the audio. With a transform whose way
  forth and back errs by less than one sample step, the block is processed without undefined
  behaviour, nothing but the 2048 samples of the data buffer changes, and no sample changes by
  more than one; with an exact transform none changes. (The conversion drops the fraction, so
  an error of any size can cost a whole step.)
\<close>
theorem process_on_arm_passthrough:
  assumes "data_access 4096 s" and "\<not> filter_enabled s"
    and "float_contract D" and "fft_contract D 256 e" and "e < 1"
    and "t = exec (process_on_arm D) s"
  shows "t = s\<lparr>data_mem := data_mem t\<rparr> \<and>
    (\<forall>j. \<bar>sint (data_mem t j) - sint (data_mem s j)\<bar> \<le> 1) \<and>
    (\<forall>j \<ge> 2048. data_mem t j = data_mem s j) \<and>
    (e = 0 \<longrightarrow> data_mem t = data_mem s)"
proof -
  define x where "x ch i = d_c2r D (d_r2c D (channel_input (data_mem s) ch)) ! i / 256" for ch i
  have val: "sample_value D (channel_output D False (channel_input (data_mem s) ch)) i = trunc (x ch i)"
    and near: "\<bar>x ch i - of_int (sint (data_mem s (i * CHANNELS + ch)))\<bar> \<le> e" if "i < 256" for ch i
  proof -
    have len: "length (channel_input (data_mem s) ch) = 256" by (simp add: channel_input_def NUM_FRAMES_def)
    then have "length (d_c2r D (d_r2c D (channel_input (data_mem s) ch))) = 256"
      using assms(4) by (simp add: fft_contract_def)
    then have r: "rnd64 D (x ch i) = x ch i"
      using rnd64_scale [OF assms(3) nth_mem, of i] that by (simp add: x_def NUM_FRAMES_def)
    show "sample_value D (channel_output D False (channel_input (data_mem s) ch)) i = trunc (x ch i)"
      by (simp only: sample_value_def channel_output_def if_False NUM_FRAMES_def of_nat_numeral r [unfolded x_def] x_def)
    have "\<bar>d_c2r D (d_r2c D (channel_input (data_mem s) ch)) ! i / 256 - channel_input (data_mem s) ch ! i\<bar> \<le> e"
      using assms(4) len that by (auto simp: fft_contract_def)
    then show "\<bar>x ch i - of_int (sint (data_mem s (i * CHANNELS + ch)))\<bar> \<le> e"
      using that by (simp add: x_def channel_input_def NUM_FRAMES_def)
  qed
  have fits: "fits_int16 (trunc (x ch i))" and step: "\<bar>trunc (x ch i) - sint (data_mem s (i * CHANNELS + ch))\<bar> \<le> 1"
    and same: "e = 0 \<Longrightarrow> trunc (x ch i) = sint (data_mem s (i * CHANNELS + ch))" if "i < 256" for ch i
    using trunc_near [of "x ch i" "sint (data_mem s (i * CHANNELS + ch))"] near [OF that, of ch] assms(5) fits_sint
    by auto
  have "arm_fits D (filter_enabled s) [0..<CHANNELS] (data_mem s)"
    using assms(2) fits by (simp add: arm_fits_def val NUM_FRAMES_def)
  then have t: "t = s\<lparr>data_mem := arm_block D False CHANNELS (data_mem s)\<rparr>"
    using run_process_on_arm [of s D] assms(1,2,6) by (simp add: NUM_FRAMES_def CHANNELS_def)
  have block: "sint (data_mem t j) = trunc (x (j mod 8) (j div 8))" if "j < 2048" for j
  proof -
    have i: "j div 8 < 256" using that by simp
    show ?thesis
      using that sint_int16 [OF fits [OF i]] by (simp add: t arm_block_def NUM_FRAMES_def CHANNELS_def val)
  qed
  have rest: "data_mem t j = data_mem s j" if "2048 \<le> j" for j
    using that by (simp add: t arm_block_def NUM_FRAMES_def CHANNELS_def)
  have index: "j div 8 * CHANNELS + j mod 8 = j" "j < 2048 \<Longrightarrow> j div 8 < 256" for j
    by (simp_all add: CHANNELS_def)
  show ?thesis
  proof (intro conjI allI impI)
    show "t = s\<lparr>data_mem := data_mem t\<rparr>" by (simp add: t)
    show "\<bar>sint (data_mem t j) - sint (data_mem s j)\<bar> \<le> 1" for j
      using block [of j] step [OF index(2), of j "j mod 8"] rest [of j] by (cases "j < 2048") (simp_all add: index)
    show "data_mem t j = data_mem s j" if "2048 \<le> j" for j using rest [OF that] .
    show "data_mem t = data_mem s" if "e = 0"
    proof (rule ext)
      fix j
      have "sint (data_mem t j) = sint (data_mem s j)"
        using block [of j] same [OF index(2) that, of j "j mod 8"] rest [of j] by (cases "j < 2048") (simp_all add: index)
      then show "data_mem t j = data_mem s j" by (rule signed_word_eqI)
    qed
  qed
qed

text \<open>A state of the example with both buffers mapped.\<close>

definition ready_app :: app_world where
  "ready_app = zero_app
     \<lparr>trace := [Ev_mmap 4096 70 0x7000, Ev_mmap 4096 71 0x9000],
      lbuf := \<lparr>lb_data_buf = 0x7000, lb_params_buf = 0x9000, lb_data_size = 4096, lb_params_size = 4096\<rparr>,
      dspParams := 0x9000, rpmsg_fd := 90, data_mem := (\<lambda>j. word_of_nat j)\<rparr>"

lemma ready_app_access: "data_access 4096 ready_app" "fault ready_app = None" "\<not> filter_enabled ready_app"
  by (simp_all add: ready_app_def zero_app_def zero_host_def host_world.defs data_access_def mapped_def live_maps_def)

theorem process_on_arm_passthrough_witness:
  "data_mem (exec (process_on_arm sample_devices) ready_app) = data_mem ready_app"
  using process_on_arm_passthrough [OF ready_app_access(1,3) sample_devices_contracts(3,1) _ refl] by simp

text \<open>
  C19: with the filter on, processing on the ARM is a low-pass: of the 129 bins of each channel
  the first 27 (up to 4875 Hz) go back through the inverse transform unchanged and the others
  as zero, whatever the transform; a sample of the result is its value divided by 256, the
  fraction dropped. Where some value is outside the range of \<open>int16_t\<close> the conversion is
  undefined behaviour: the clamp comes too late. In both cases nothing outside the block changes.
\<close>
theorem process_on_arm_low_pass:
  assumes "data_access 4096 s" and "filter_enabled s"
    and "float_contract D" and "fft_contract D 256 e"
    and "value = (\<lambda>ch i. trunc (d_c2r D (take 27 (d_r2c D (channel_input (data_mem s) ch)) @ replicate 102 (0, 0)) ! i / 256))"
    and "t = exec (process_on_arm D) s"
  shows "data_mem t = (\<lambda>j. if j < 2048 then word_of_int (value (j mod 8) (j div 8)) else data_mem s j) \<and>
    (if \<forall>ch < 8. \<forall>i < 256. - 32768 \<le> value ch i \<and> value ch i \<le> 32767 then t = s\<lparr>data_mem := data_mem t\<rparr>
     else fault s = None \<longrightarrow> fault t = Some Conversion_overflow)"
proof -
  have val: "sample_value D (channel_output D True (channel_input (data_mem s) ch)) i = value ch i" if "i < 256" for ch i
  proof -
    have "length (channel_input (data_mem s) ch) = 256" by (simp add: channel_input_def NUM_FRAMES_def)
    then have len: "length (d_r2c D (channel_input (data_mem s) ch)) = 129"
      using assms(4) by (simp add: fft_contract_def)
    define sp where "sp = take 27 (d_r2c D (channel_input (data_mem s) ch)) @ replicate 102 (0, 0)"
    have cut: "cut_bins D (d_r2c D (channel_input (data_mem s) ch)) = sp"
      by (simp add: cut_bins_27 [OF assms(3) len] sp_def)
    have "length (d_c2r D sp) = 256"
      using assms(4) len by (simp add: fft_contract_def sp_def)
    then have "rnd64 D (d_c2r D sp ! i / of_nat NUM_FRAMES) = d_c2r D sp ! i / of_nat NUM_FRAMES"
      using that by (intro rnd64_scale [OF assms(3) nth_mem]) simp
    then show ?thesis
      by (simp only: sample_value_def channel_output_def if_True cut assms(5) flip: sp_def) (simp add: NUM_FRAMES_def)
  qed
  have t: "t = flag (arm_fits D True [0..<CHANNELS] (data_mem s)) Conversion_overflow
      (s\<lparr>data_mem := arm_block D True CHANNELS (data_mem s)\<rparr>)"
    using run_process_on_arm [of s D] assms(1,2,6) by (simp add: NUM_FRAMES_def CHANNELS_def)
  have fits: "arm_fits D True [0..<CHANNELS] (data_mem s) \<longleftrightarrow> (\<forall>ch < 8. \<forall>i < 256. - 32768 \<le> value ch i \<and> value ch i \<le> 32767)"
    by (auto simp: arm_fits_def CHANNELS_def NUM_FRAMES_def val fits_int16_def)
  have "arm_block D True CHANNELS (data_mem s) = (\<lambda>j. if j < 2048 then word_of_int (value (j mod 8) (j div 8)) else data_mem s j)"
    by (rule ext) (simp add: arm_block_def CHANNELS_def NUM_FRAMES_def val)
  then show ?thesis
    by (simp add: t flip: fits) (simp add: flag_def)
qed

theorem process_on_arm_low_pass_witness:
  "data_mem (exec (process_on_arm sample_devices) (ready_app\<lparr>filter_enabled := True\<rparr>)) 2047 = 0"
proof -
  have "data_access 4096 (ready_app\<lparr>filter_enabled := True\<rparr>)"
    using ready_app_access(1) by (simp add: data_access_def mapped_def)
  from process_on_arm_low_pass [OF this _ sample_devices_contracts(3,1) refl refl]
  have "data_mem (exec (process_on_arm sample_devices) (ready_app\<lparr>filter_enabled := True\<rparr>)) 2047 =
      word_of_int (trunc (toy_c2r (take 27 (toy_r2c (channel_input (data_mem ready_app) 7)) @ replicate 102 (0, 0)) ! 255 / 256))"
    by (simp add: sample_devices_def)
  also have "toy_c2r (take 27 (toy_r2c (channel_input (data_mem ready_app) 7)) @ replicate 102 (0, 0)) ! 255 = 0"
    by (simp add: toy_c2r_def toy_r2c_def channel_input_def NUM_FRAMES_def nth_append)
  finally show ?thesis by (simp add: trunc_def)
qed

text \<open>
  C40: what the remote processor is told. The message \<open>init_rpmsg_buffer\<close> prepares is 20 bytes
  that decode to its fields; its addresses are the device addresses of the two buffers modulo
  2 to the 32, so the processor gets the right address exactly when the buffer lies below 4 GiB.
  The local descriptor and \<open>dspParams\<close> point to the mappings.
\<close>
theorem init_rpmsg_buffer_message:
  "let t = exec (init_rpmsg_buffer graph_id) s; m = ibuf t
   in length (ipc_bytes m) = 20 \<and> ipc_of_bytes (ipc_bytes m) = m \<and>
      unat (ib_data_buffer m) = unat (phys_addr (data_params s)) mod 2 ^ 32 \<and>
      unat (ib_params_buffer m) = unat (phys_addr (options_params s)) mod 2 ^ 32 \<and>
      (ucast (ib_data_buffer m) = phys_addr (data_params s) \<longleftrightarrow> phys_addr (data_params s) < 2 ^ 32) \<and>
      ib_graph_id m = word_of_int graph_id \<and> ib_data_size m = word_of_int (buf_size (data_params s)) \<and>
      lb_data_buf (lbuf t) = kern_addr (data_params s) \<and> dspParams t = kern_addr (options_params s) \<and>
      trace t = trace s \<and> fault t = fault s"
proof -
  have mod: "unat (ucast (w :: u64) :: u32) = unat w mod 2 ^ 32" for w
    by (simp add: unsigned_ucast_eq take_bit_eq_mod)
  have "(ucast (ucast (w :: u64) :: u32) :: u64) = w \<longleftrightarrow> w < 2 ^ 32" for w
  proof -
    have "(ucast (ucast w :: u32) :: u64) = w \<longleftrightarrow> unat w mod 2 ^ 32 = unat w"
      using mod [of w] by (simp add: word_unat_eq_iff unsigned_ucast_eq take_bit_eq_mod unat_mod_distrib)
    also have "\<dots> \<longleftrightarrow> w < 2 ^ 32"
      by (simp add: word_less_nat_alt mod_eq_self_iff_div_eq_0 div_eq_0_iff)
    finally show ?thesis .
  qed
  then show ?thesis by (simp add: init_rpmsg_buffer_def mod)
qed

text \<open>
  C33: a turn of the remote processor. Only when the whole message was written is a reply awaited
  and the data buffer the processor's; otherwise nothing but the history changes. A reply of at
  most 20 bytes replaces the front of the message structure. The read allows 256 bytes into
  that structure of 20, so a longer reply overruns it, whatever the processor sends; when the
  read fails the structure is as before.
\<close>
theorem process_on_dsp_outcome:
  fixes s :: "'w app_world_scheme"
  assumes "linux_uapi K" and "fd = rpmsg_fd s" and "msg = ipc_bytes (ibuf s)"
    and "t1 = trace s @ [Ev_dma_sync fd 3 (k_dma_sync K (trace s) fd 3)]"
    and "w = k_write K t1 fd msg" and "t2 = t1 @ [Ev_write fd msg w]"
    and "t3 = t2 @ [Ev_dma_sync fd 3 (k_dma_sync K t2 fd 3)]"
    and "t4 = t3 @ [Ev_dma_sync fd 3 (k_dma_sync K t3 fd 3)]"
    and "k_read K t4 fd 256 = (k, reply)"
    and "t = exec (process_on_dsp K D) s"
  shows "if w \<noteq> 20 then t = s\<lparr>trace := trace t\<rparr> \<and> trace t = (if w < 0 then t2 else t3)
    else data_mem t = d_dsp_data D t3 (data_mem s) \<and> dsp_load (params_mem t) = d_dsp_load D t3 \<and>
      (if k < 0 then ibuf t = ibuf s \<and> fault t = fault s
       else if length reply \<le> 20 then ibuf t = ipc_of_bytes (reply @ drop (length reply) msg) \<and> fault t = fault s
       else fault s = None \<longrightarrow> fault t = Some Buffer_overflow)"
proof -
  let ?s3 = "s\<lparr>trace := t3, data_mem := d_dsp_data D t3 (data_mem s),
      params_mem := (params_mem s)\<lparr>dsp_load := d_dsp_load D t3\<rparr>\<rparr>"
  have sync: "run_state (dmabuf_sync K fd v) u = (k_dma_sync K (trace u) fd 3, u\<lparr>trace := trace u @ [Ev_dma_sync fd 3 (k_dma_sync K (trace u) fd 3)]\<rparr>)"
    if "v = 0 \<or> v = 1" for v and u :: "'w app_world_scheme"
    using that assms(1) by (auto simp: linux_uapi_def run_simps)
  have msg: "length msg = 20" by (simp add: assms(3))
  have send: "run_state (send_msg K fd msg 20) s = (if w < 0 then (-1, s\<lparr>trace := t2\<rparr>) else (w, s\<lparr>trace := t3\<rparr>))"
    using msg by (simp add: send_msg_def sync sys_write_def run_emit run_check_ub assms(4-7))
  have recv: "run_state (recv_msg K fd 256 msg 20) ?s3 =
      (if k < 0 then ((-1, msg, 20), ?s3\<lparr>trace := t4 @ [Ev_read fd 256 k reply]\<rparr>)
       else ((0, store msg reply, k), let u = flag (length reply \<le> 20) Buffer_overflow (?s3\<lparr>trace := t4 @ [Ev_read fd 256 k reply]\<rparr>)
          in u\<lparr>trace := trace u @ [Ev_dma_sync fd 3 (k_dma_sync K (trace u) fd 3)]\<rparr>))"
    using msg by (simp add: recv_msg_def sync sys_read_def run_emit run_check_ub assms(9) flag_def flip: assms(8))
  have run: "t = (if w < 0 then s\<lparr>trace := t2\<rparr> else if w \<noteq> 20 then s\<lparr>trace := t3\<rparr>
      else let (a, u) = run_state (recv_msg K fd 256 msg 20) ?s3 in u\<lparr>ibuf := ipc_of_bytes (fst (snd a))\<rparr>)"
    using send by (simp add: assms(10) process_on_dsp_def dsp_turn_def IPC_SIZE_def split_beta flip: assms(2,3))
  show ?thesis
  proof (cases "w = 20")
    case False
    then show ?thesis by (simp add: run)
  next
    case True
    then show ?thesis
      using msg by (simp add: run recv Let_def store_fits) (simp add: flag_def assms(3))
  qed
qed

theorem process_on_dsp_outcome_witness:
  "fault (exec (process_on_dsp (sample_kernel\<lparr>k_read := \<lambda>tr fd n. (24, replicate 24 NUL)\<rparr>) sample_devices) ready_app) = Some Buffer_overflow"
  using process_on_dsp_outcome [OF _ refl refl refl refl refl refl refl _ refl,
      of "sample_kernel\<lparr>k_read := \<lambda>tr fd n. (24, replicate 24 NUL)\<rparr>" ready_app 24 "replicate 24 NUL" sample_devices]
    ready_app_access(2)
  by (simp add: sample_kernel_def linux_uapi_def)

text \<open>
  C34: the amplitude reads the wrong elements. The buffer is read as 32-bit words, of which word
  \<open>8 * i + channel\<close> for frame \<open>i\<close> covers two samples of frame \<open>2 * i\<close>; the sum is divided by
  the 2048 samples of all channels. The last words lie far outside the 4096 bytes that the
  buffer has, so every block read in full leads to an access out of bounds; a buffer of
  8164 bytes would be needed for channel 0.
\<close>
theorem block_amplitude_out_of_bounds:
  assumes "no_int_min (data_mem s)" and "current_channel s < 8" and "mapped s (lb_data_buf (lbuf s))"
  shows "result (block_amplitude D) s =
      rnd32 D (of_int ((\<Sum>i \<leftarrow> [0..<256]. \<bar>sint (word_at (data_mem s) (i * 8 + current_channel s))\<bar>) div 2048)) \<and>
    (if 4 * (2041 + int (current_channel s)) \<le> lb_data_size (lbuf s) then exec (block_amplitude D) s = s
     else fault s = None \<longrightarrow> exec (block_amplitude D) s = s\<lparr>fault := Some Out_of_bounds_read\<rparr>) \<and>
    (fault s = None \<and> lb_data_size (lbuf s) = int DATA_BUFFER_SIZE \<longrightarrow>
      fault (exec (block_amplitude D) s) = Some Out_of_bounds_read)"
proof -
  let ?w = "\<lambda>i. word_access (i * CHANNELS + current_channel s) s"
  have all: "(\<forall>i \<in> set [0..<NUM_FRAMES]. ?w i) \<longleftrightarrow> 4 * (2041 + int (current_channel s)) \<le> lb_data_size (lbuf s)"
  proof
    assume "\<forall>i \<in> set [0..<NUM_FRAMES]. ?w i"
    then have "?w 255" by (simp add: NUM_FRAMES_def)
    then show "4 * (2041 + int (current_channel s)) \<le> lb_data_size (lbuf s)"
      by (simp add: word_access_def data_access_def CHANNELS_def)
  next
    assume "4 * (2041 + int (current_channel s)) \<le> lb_data_size (lbuf s)"
    then show "\<forall>i \<in> set [0..<NUM_FRAMES]. ?w i"
      using assms(3) by (auto simp: word_access_def data_access_def CHANNELS_def NUM_FRAMES_def)
  qed
  have "run_state (block_amplitude D) s =
     (rnd32 D (of_int ((\<Sum>i \<leftarrow> [0..<256]. \<bar>sint (word_at (data_mem s) (i * 8 + current_channel s))\<bar>) div 2048)),
      flag (4 * (2041 + int (current_channel s)) \<le> lb_data_size (lbuf s)) Out_of_bounds_read s)"
    unfolding block_amplitude_def all [symmetric]
    by (simp add: run_sum_abs [OF assms(1)] del: set_upt) (simp add: NUM_FRAMES_def CHANNELS_def)
  then show ?thesis
    by (simp add: flag_def DATA_BUFFER_SIZE_def FRAME_SIZE_def CHANNELS_def BITS_PER_SAMPLE_def NUM_FRAMES_def)
qed

theorem block_amplitude_out_of_bounds_witness:
  "fault (exec (block_amplitude sample_devices) (ready_app\<lparr>data_mem := \<lambda>_. 0\<rparr>)) = Some Out_of_bounds_read"
proof -
  have "word_at (\<lambda>_. 0) j = 0" for j
    by (simp add: word_at_def word_cat_eq)
  then have "no_int_min (data_mem (ready_app\<lparr>data_mem := \<lambda>_. 0\<rparr>))"
    by (simp add: no_int_min_def)
  from block_amplitude_out_of_bounds [OF this, of sample_devices] show ?thesis
    using ready_app_access
    by (simp add: ready_app_def zero_app_def zero_host_def host_world.defs data_access_def mapped_def
        DATA_BUFFER_SIZE_def FRAME_SIZE_def CHANNELS_def BITS_PER_SAMPLE_def NUM_FRAMES_def)
qed

end

