(* ===== verification/Host_Init.thy ===== *)
theory Host_Init
  imports App_State
begin

text \<open>
  Setting up the host interface, the first part of \<^verbatim>\<open>host_interface.c\<close>: one listening socket
  per channel with a thread that waits for its client, or the serial line, and the threads of
  the log and of the commands. The threads that wait are operations of their own; which of
  them runs when is up to the scheduler.
\<close>

subsection \<open>The operations\<close>

definition LOG_PORT :: nat where "LOG_PORT = 8888"
definition CMD_PORT :: nat where "CMD_PORT = 8889"
definition INDATA_PORT :: nat where "INDATA_PORT = 8890"
definition OUTDATA_PORT :: nat where "OUTDATA_PORT = 8891"

definition wait_for_indata_client :: "kernel \<Rightarrow> ('w host_world_scheme, unit) state" where
  "wait_for_indata_client K = do {
     server \<leftarrow> gets server_indata_fd;
     emit (Ev_net (Net_listen server));
     fd \<leftarrow> sys_accept K server;
     modify (\<lambda>s. s\<lparr>client_indata_fd := fd\<rparr>) }"

definition wait_for_outdata_client :: "kernel \<Rightarrow> ('w host_world_scheme, unit) state" where
  "wait_for_outdata_client K = do {
     server \<leftarrow> gets server_outdata_fd;
     emit (Ev_net (Net_listen server));
     fd \<leftarrow> sys_accept K server;
     modify (\<lambda>s. s\<lparr>client_outdata_fd := fd\<rparr>) }"

definition wait_for_log_client :: "kernel \<Rightarrow> ('w host_world_scheme, unit) state" where
  "wait_for_log_client K = do {
     server \<leftarrow> gets server_log_fd;
     emit (Ev_net (Net_listen server));
     fd \<leftarrow> sys_accept K server;
     modify (\<lambda>s. s\<lparr>client_log_fd := fd\<rparr>) }"

definition wait_for_cmd_client :: "kernel \<Rightarrow> ('w host_world_scheme, unit) state" where
  "wait_for_cmd_client K = do {
     server \<leftarrow> gets server_cmd_fd;
     emit (Ev_net (Net_listen server));
     fd \<leftarrow> sys_accept K server;
     modify (\<lambda>s. s\<lparr>client_cmd_fd := fd\<rparr>);
     modify (\<lambda>s. s\<lparr>isCmdConnected := True\<rparr>) }"

definition init_indata_interface :: "kernel \<Rightarrow> ('w host_world_scheme, int) state" where
  "init_indata_interface K = do {
     fd \<leftarrow> sys_socket K;
     modify (\<lambda>s. s\<lparr>server_indata_fd := fd\<rparr>);
     emit (Ev_net (Net_reuseaddr fd));
     emit (Ev_net (Net_bind fd INDATA_PORT));
     _ \<leftarrow> pthread_create K Thread_wait_indata;
     ret 0 }"

definition init_outdata_interface :: "kernel \<Rightarrow> ('w host_world_scheme, int) state" where
  "init_outdata_interface K = do {
     fd \<leftarrow> sys_socket K;
     modify (\<lambda>s. s\<lparr>server_outdata_fd := fd\<rparr>);
     emit (Ev_net (Net_reuseaddr fd));
     emit (Ev_net (Net_bind fd OUTDATA_PORT));
     _ \<leftarrow> pthread_create K Thread_wait_outdata;
     ret 0 }"

definition init_log_interface :: "kernel \<Rightarrow> ('w host_world_scheme, int) state" where
  "init_log_interface K = do {
     fd \<leftarrow> sys_socket K;
     modify (\<lambda>s. s\<lparr>server_log_fd := fd\<rparr>);
     emit (Ev_net (Net_reuseaddr fd));
     emit (Ev_net (Net_bind fd LOG_PORT));
     _ \<leftarrow> pthread_create K Thread_wait_log;
     ret 0 }"

definition init_cmd_interface :: "kernel \<Rightarrow> ('w host_world_scheme, int) state" where
  "init_cmd_interface K = do {
     fd \<leftarrow> sys_socket K;
     modify (\<lambda>s. s\<lparr>server_cmd_fd := fd\<rparr>);
     emit (Ev_net (Net_reuseaddr fd));
     emit (Ev_net (Net_bind fd CMD_PORT));
     _ \<leftarrow> pthread_create K Thread_wait_cmd;
     ret 0 }"

text \<open>
  The serial line: 115200 baud, 8 data bits, no parity, 1 stop bit, no flow control, raw. The
  flags are those of \<^verbatim>\<open>termios.h\<close> on Linux; the speeds, which Linux keeps in further bits of the
  flags, are fields of their own. Where \<open>tcgetattr\<close> fails the code goes on with the
  settings it never got.
\<close>

definition CSIZE :: u32 where "CSIZE = 0x30"
definition CS8 :: u32 where "CS8 = 0x30"
definition CSTOPB :: u32 where "CSTOPB = 0x40"
definition CREAD :: u32 where "CREAD = 0x80"
definition PARENB :: u32 where "PARENB = 0x100"
definition CLOCAL :: u32 where "CLOCAL = 0x800"
definition CRTSCTS :: u32 where "CRTSCTS = 0x80000000"

definition serial_cflag :: "u32 \<Rightarrow> u32" where
  "serial_cflag c =
     (let c = c OR (CLOCAL OR CREAD);
          c = c AND NOT CSIZE;
          c = c OR CS8
      in c AND (NOT PARENB AND NOT CSTOPB AND NOT CRTSCTS))"

definition serial_settings :: "termios \<Rightarrow> termios" where
  "serial_settings tty = Termios (serial_cflag (c_cflag tty)) 0 0 115200 115200 1"

definition init_serial :: "kernel \<Rightarrow> int \<Rightarrow> ('w world_scheme, unit) state" where
  "init_serial K fd = do {
     tty \<leftarrow> tcgetattr K fd;
     case tty of None \<Rightarrow> raise_ub Uninitialised_read
     | Some tty \<Rightarrow> emit (Ev_tcsetattr fd (serial_settings tty)) }"

text \<open>The end of the set-up: the two threads and the capture files.\<close>

definition start_threads :: "kernel \<Rightarrow> ('w host_world_scheme, int option) state" where
  "start_threads K = do {
     _ \<leftarrow> pthread_create K Thread_log;
     _ \<leftarrow> pthread_create K Thread_cmd;
     logging \<leftarrow> gets (\<lambda>s. enable_audio_logging (app_config s));
     (if logging then do {
        f \<leftarrow> fopen_w K ''/tmp/wave_in_ch0.txt'';
        modify (\<lambda>s. s\<lparr>fp_in := f\<rparr>);
        g \<leftarrow> fopen_w K ''/tmp/wave_out_ch0.txt'';
        modify (\<lambda>s. s\<lparr>fp_out := g\<rparr>) }
      else ret ());
     ret None }"

text \<open>The result is the status of an \<open>exit\<close>, or \<open>None\<close> where the function returns.\<close>

definition init_host_interface :: "kernel \<Rightarrow> ('w host_world_scheme, int option) state" where
  "init_host_interface K = do {
     eth \<leftarrow> gets (\<lambda>s. is_host_eth_iface (app_config s));
     stop \<leftarrow> (if eth then do {
         _ \<leftarrow> init_log_interface K;
         _ \<leftarrow> init_cmd_interface K;
         _ \<leftarrow> init_indata_interface K;
         _ \<leftarrow> init_outdata_interface K;
         ret False }
       else do {
         p \<leftarrow> gets (\<lambda>s. uart_device (app_config s));
         dev \<leftarrow> c_string p;
         fd \<leftarrow> sys_open K dev [O_RDWR, O_NOCTTY];
         modify (\<lambda>s. s\<lparr>uart_fd := fd\<rparr>);
         if fd < 0 then ret True
         else do {
           init_serial K fd;
           modify (\<lambda>s. s\<lparr>isCmdConnected := True\<rparr>);
           ret False } });
     if stop then ret (Some 1)
     else start_threads K }"

lemmas host_init_defs =
  init_log_interface_def init_cmd_interface_def init_indata_interface_def init_outdata_interface_def

subsection \<open>What the set-up leaves behind\<close>

text \<open>The threads a history creates, and the sockets it binds with their ports.\<close>

fun thread_of :: "event \<Rightarrow> thread list" where
  "thread_of (Ev_thread th _) = [th]"
| "thread_of _ = []"

definition threads :: "event list \<Rightarrow> thread list" where
  "threads evs = concat (map thread_of evs)"

fun bind_of :: "event \<Rightarrow> (int \<times> nat) list" where
  "bind_of (Ev_net (Net_bind fd port)) = [(fd, port)]"
| "bind_of _ = []"

definition binds :: "event list \<Rightarrow> (int \<times> nat) list" where
  "binds evs = concat (map bind_of evs)"

lemma threads_simps [simp]:
  "threads [] = []" "threads (e # es) = thread_of e @ threads es" "threads (es @ es') = threads es @ threads es'"
  by (simp_all add: threads_def)

lemma binds_simps [simp]:
  "binds [] = []" "binds (e # es) = bind_of e @ binds es" "binds (es @ es') = binds es @ binds es'"
  by (simp_all add: binds_def)

text \<open>What each step leaves alone, and what it adds to the history.\<close>

definition adds :: "(int \<times> nat) list \<Rightarrow> thread list \<Rightarrow> 'w host_world_scheme \<Rightarrow> 'w host_world_scheme \<Rightarrow> bool" where
  "adds bs ths s t \<longleftrightarrow> binds (trace t) = binds (trace s) @ bs \<and> threads (trace t) = threads (trace s) @ ths \<and>
     fault t = fault s \<and> app_config t = app_config s \<and> isCmdConnected t = isCmdConnected s"

lemma addsD:
  "adds bs ths s t \<Longrightarrow> binds (trace t) = binds (trace s) @ bs" "adds bs ths s t \<Longrightarrow> threads (trace t) = threads (trace s) @ ths"
  "adds bs ths s t \<Longrightarrow> fault t = fault s" "adds bs ths s t \<Longrightarrow> app_config t = app_config s"
  "adds bs ths s t \<Longrightarrow> isCmdConnected t = isCmdConnected s"
  by (simp_all add: adds_def)

lemma init_interfaces:
  "adds [(server_log_fd (exec (init_log_interface K) s), 8888)] [Thread_wait_log] s (exec (init_log_interface K) s)"
  "adds [(server_cmd_fd (exec (init_cmd_interface K) s), 8889)] [Thread_wait_cmd] s (exec (init_cmd_interface K) s)"
  "adds [(server_indata_fd (exec (init_indata_interface K) s), 8890)] [Thread_wait_indata] s (exec (init_indata_interface K) s)"
  "adds [(server_outdata_fd (exec (init_outdata_interface K) s), 8891)] [Thread_wait_outdata] s (exec (init_outdata_interface K) s)"
  by (simp_all add: adds_def host_init_defs run_simps LOG_PORT_def CMD_PORT_def INDATA_PORT_def OUTDATA_PORT_def)

lemma init_interfaces_frame:
  "server_log_fd (exec (init_cmd_interface K) s) = server_log_fd s"
  "server_log_fd (exec (init_indata_interface K) s) = server_log_fd s"
  "server_cmd_fd (exec (init_indata_interface K) s) = server_cmd_fd s"
  "server_log_fd (exec (init_outdata_interface K) s) = server_log_fd s"
  "server_cmd_fd (exec (init_outdata_interface K) s) = server_cmd_fd s"
  "server_indata_fd (exec (init_outdata_interface K) s) = server_indata_fd s"
  by (simp_all add: host_init_defs run_simps)

lemma init_listeners:
  assumes "t = exec (init_outdata_interface K) (exec (init_indata_interface K) (exec (init_cmd_interface K) (exec (init_log_interface K) s)))"
  shows "adds [(server_log_fd t, 8888), (server_cmd_fd t, 8889), (server_indata_fd t, 8890), (server_outdata_fd t, 8891)]
    [Thread_wait_log, Thread_wait_cmd, Thread_wait_indata, Thread_wait_outdata] s t"
proof -
  define t1 where "t1 = exec (init_log_interface K) s"
  define t2 where "t2 = exec (init_cmd_interface K) t1"
  define t3 where "t3 = exec (init_indata_interface K) t2"
  have t: "t = exec (init_outdata_interface K) t3"
    by (simp add: assms t1_def t2_def t3_def)
  have adds: "adds [(server_log_fd t1, 8888)] [Thread_wait_log] s t1" "adds [(server_cmd_fd t2, 8889)] [Thread_wait_cmd] t1 t2"
      "adds [(server_indata_fd t3, 8890)] [Thread_wait_indata] t2 t3" "adds [(server_outdata_fd t, 8891)] [Thread_wait_outdata] t3 t"
    unfolding t t3_def t2_def t1_def by (rule init_interfaces)+
  have fds: "server_log_fd t = server_log_fd t1" "server_cmd_fd t = server_cmd_fd t2" "server_indata_fd t = server_indata_fd t3"
    unfolding t t3_def t2_def by (simp_all only: init_interfaces_frame)
  show ?thesis
    using adds by (simp add: adds_def fds)
qed

lemma start_threads_adds:
  "adds [] [Thread_log, Thread_cmd] s (exec (start_threads K) s)" "result (start_threads K) s = None"
  "server_log_fd (exec (start_threads K) s) = server_log_fd s" "server_cmd_fd (exec (start_threads K) s) = server_cmd_fd s"
  "server_indata_fd (exec (start_threads K) s) = server_indata_fd s" "server_outdata_fd (exec (start_threads K) s) = server_outdata_fd s"
  "uart_fd (exec (start_threads K) s) = uart_fd s"
  by (simp_all add: start_threads_def adds_def run_simps)

lemma init_host_interface_eth:
  assumes "is_host_eth_iface (app_config s)"
  shows "run_state (init_host_interface K) s = run_state (start_threads K)
    (exec (init_outdata_interface K) (exec (init_indata_interface K) (exec (init_cmd_interface K) (exec (init_log_interface K) s))))"
  using assms by (simp add: init_host_interface_def split_beta)

lemma init_host_interface_uart:
  assumes "\<not> is_host_eth_iface (app_config s)" and "deref (heap s) (uart_device (app_config s)) = Some dev"
    and "fd = k_open K (trace s) dev [O_RDWR, O_NOCTTY]"
    and "k_tcgetattr K (trace s @ [Ev_open dev [O_RDWR, O_NOCTTY] fd]) fd = Some tty"
  shows "run_state (init_host_interface K) s =
    (if fd < 0 then (Some 1, s\<lparr>uart_fd := fd, trace := trace s @ [Ev_open dev [O_RDWR, O_NOCTTY] fd]\<rparr>)
     else run_state (start_threads K) (s\<lparr>uart_fd := fd,
       trace := trace s @ [Ev_open dev [O_RDWR, O_NOCTTY] fd, Ev_tcgetattr fd (Some tty), Ev_tcsetattr fd (serial_settings tty)], isCmdConnected := True\<rparr>))"
  using assms by (simp add: init_host_interface_def run_c_string sys_open_def init_serial_def tcgetattr_def run_emit split_beta)

subsection \<open>Properties\<close>

text \<open>What the flags of the serial line are, whatever they were.\<close>

lemma serial_flags:
  "serial_cflag c AND (CSIZE OR PARENB OR CSTOPB OR CRTSCTS) = CS8"
  "serial_cflag c AND (CLOCAL OR CREAD) = CLOCAL OR CREAD"
proof -
  have sets: "CS8 AND PARENB = 0" "CS8 AND CSTOPB = 0" "CS8 AND CRTSCTS = 0" "CS8 AND NOT CSIZE = 0"
    "(CLOCAL OR CREAD) AND (CSIZE OR PARENB OR CSTOPB OR CRTSCTS) = 0"
    by (simp_all add: CSIZE_def CS8_def CSTOPB_def CREAD_def PARENB_def CLOCAL_def CRTSCTS_def)
  have bits: "\<not> (bit CS8 n \<and> bit PARENB n)" "\<not> (bit CS8 n \<and> bit CSTOPB n)" "\<not> (bit CS8 n \<and> bit CRTSCTS n)"
    "bit CS8 n \<Longrightarrow> bit CSIZE n" if "n < 32" for n
    using sets(1-4) [THEN arg_cong, of "\<lambda>w. bit w n"] that by (auto simp: bit_simps)
  have flags: "\<not> ((bit CLOCAL n \<or> bit CREAD n) \<and> (bit CSIZE n \<or> bit PARENB n \<or> bit CSTOPB n \<or> bit CRTSCTS n))" for n
    using sets(5) [THEN arg_cong, of "\<lambda>w. bit w n"] by (simp add: bit_simps)
  have "bit (serial_cflag c AND (CSIZE OR PARENB OR CSTOPB OR CRTSCTS)) n = bit CS8 n \<and>
      bit (serial_cflag c AND (CLOCAL OR CREAD)) n = bit (CLOCAL OR CREAD) n" if "n < 32" for n
    using bits [OF that] flags [of n] that by (simp add: serial_cflag_def Let_def bit_simps) blast
  then show "serial_cflag c AND (CSIZE OR PARENB OR CSTOPB OR CRTSCTS) = CS8"
    "serial_cflag c AND (CLOCAL OR CREAD) = CLOCAL OR CREAD"
    by (auto intro!: bit_word_eqI)
qed



end
