(* ===== verification/Audio_Thread.thy ===== *)
theory Audio_Thread
  imports Audio Metrics
begin

text \<open>
  The audio thread of \<^verbatim>\<open>rpmsg_audio_example.c\<close>, \<open>run_audio_processing_thread\<close>: it opens the
  file and the sound device, then reads, processes, plays and reports block after block until
  the file ends. The loop is a turn that can be run on its own; \<open>fuel\<close> bounds the number of
  turns, and with a file of \<open>n\<close> blocks \<open>n + 1\<close> turns are enough.
\<close>

subsection \<open>The operations\<close>

definition request :: "play_state \<Rightarrow> ('w app_world_scheme, unit) state" where
  "request p = modify (\<lambda>s. s\<lparr>start_requested := p\<rparr>)"

text \<open>The way into the loop: whether it is entered. Every failure asks the main loop to end.\<close>

definition audio_open :: "devices \<Rightarrow> string \<Rightarrow> ('w app_world_scheme, bool) state" where
  "audio_open D input_file = do {
     infile \<leftarrow> sf_open D input_file;
     case infile of
       None \<Rightarrow> do { request EXIT_PLAY; ret False }
     | Some (channels, samplerate) \<Rightarrow>
         if channels \<noteq> int CHANNELS \<or> samplerate \<noteq> int SAMPLE_RATE
         then do { sf_close; request EXIT_PLAY; ret False }
         else do {
           rc \<leftarrow> snd_pcm_open D ''default'';
           if rc < 0 then do { sf_close; request EXIT_PLAY; ret False }
           else do {
             rc \<leftarrow> snd_pcm_set_params D CHANNELS SAMPLE_RATE;
             if rc < 0 then do { snd_pcm_close; sf_close; request EXIT_PLAY; ret False }
             else ret True } } }"

definition sync_data :: "kernel \<Rightarrow> (kernel \<Rightarrow> int) \<Rightarrow> ('w app_world_scheme, unit) state" where
  "sync_data K which = do {
     fd \<leftarrow> gets (\<lambda>s. dma_buf_fd (data_params s));
     _ \<leftarrow> dmabuf_sync K fd (which K);
     ret () }"

definition sync_options :: "kernel \<Rightarrow> (kernel \<Rightarrow> int) \<Rightarrow> ('w app_world_scheme, unit) state" where
  "sync_options K which = do {
     fd \<leftarrow> gets (\<lambda>s. dma_buf_fd (options_params s));
     _ \<leftarrow> dmabuf_sync K fd (which K);
     ret () }"

text \<open>Reading a block into the data buffer: the number of frames read.\<close>

definition read_block :: "kernel \<Rightarrow> devices \<Rightarrow> ('w app_world_scheme, int) state" where
  "read_block K D = do {
     modify (\<lambda>s. s\<lparr>inputbuf := (\<lambda>_. 0), outputbuf := (\<lambda>_. 0)\<rparr>);
     sync_data K DMA_BUF_SYNC_START;
     a \<leftarrow> sf_readf D NUM_FRAMES;
     let (frames_read, vs) = a;
     ok \<leftarrow> gets (data_access (2 * length vs));
     check_ub ok Buffer_overflow;
     modify (\<lambda>s. s\<lparr>data_mem := poke (data_mem s) 0 vs\<rparr>);
     ret frames_read }"

text \<open>The samples of the block in the data buffer.\<close>

definition block_samples_now :: "('w app_world_scheme, int16 list) state" where
  "block_samples_now = do {
     ok \<leftarrow> gets (data_access (2 * (NUM_FRAMES * CHANNELS)));
     check_ub ok Out_of_bounds_read;
     gets (\<lambda>s. extent (data_mem s) (NUM_FRAMES * CHANNELS)) }"

definition read_dsp_load :: "('w app_world_scheme, rat) state" where
  "read_dsp_load = do {
     mode \<leftarrow> gets current_mode;
     if mode = EXEC_DSP then do {
       ok \<leftarrow> gets (\<lambda>s. mapped s (dspParams s));
       check_ub ok Invalid_pointer;
       gets (\<lambda>s. dsp_load (params_mem s)) }
     else ret 0 }"

definition process_mode :: "kernel \<Rightarrow> devices \<Rightarrow> ('w app_world_scheme, unit) state" where
  "process_mode K D = do {
     mode \<leftarrow> gets current_mode;
     if mode = EXEC_DSP then process_on_dsp K D else process_on_arm D }"

text \<open>The capture of the block, the processing, and the time it took.\<close>

definition transform_block :: "kernel \<Rightarrow> devices \<Rightarrow> ('w app_world_scheme, rat) state" where
  "transform_block K D = do {
     vs \<leftarrow> block_samples_now;
     modify (\<lambda>s. s\<lparr>inputbuf := poke (inputbuf s) 0 vs\<rparr>);
     sync_data K DMA_BUF_SYNC_END;
     t1 \<leftarrow> clock_gettime D;
     process_mode K D;
     t2 \<leftarrow> clock_gettime D;
     ret (time_diff_ms D t1 t2) }"

text \<open>The measurements of the block, into the running ones and the log.\<close>

definition measure_block ::
  "kernel \<Rightarrow> devices \<Rightarrow> rat \<Rightarrow> int \<times> metrics \<Rightarrow> ('w metrics_world_scheme, int \<times> metrics) state" where
  "measure_block K D lat fm = do {
     amp \<leftarrow> block_amplitude D;
     cpu \<leftarrow> get_cpu_load K D;
     dsp \<leftarrow> read_dsp_load;
     let m = update_metrics D (rnd32 D lat) amp cpu dsp (snd fm);
     let frames = fst fm + 1;
     check_ub (frames < 2 ^ 31) Signed_overflow;
     mode \<leftarrow> gets current_mode;
     log_frame_metrics mode frames amp (rnd32 D lat) cpu dsp;
     ret (frames, m) }"

text \<open>Playing the block, and the blocks for the host.\<close>

definition play_block :: "kernel \<Rightarrow> devices \<Rightarrow> ('w app_world_scheme, unit) state" where
  "play_block K D = do {
     vs \<leftarrow> block_samples_now;
     _ \<leftarrow> snd_pcm_writei D vs;
     vs \<leftarrow> block_samples_now;
     modify (\<lambda>s. s\<lparr>outputbuf := poke (outputbuf s) 0 vs\<rparr>);
     channel \<leftarrow> gets current_channel;
     ins \<leftarrow> gets (\<lambda>s. extent (inputbuf s) DATA_BUFFER_SIZE);
     log_input_audio K ins NUM_FRAMES CHANNELS channel;
     outs \<leftarrow> gets (\<lambda>s. extent (outputbuf s) DATA_BUFFER_SIZE);
     log_output_audio K outs NUM_FRAMES CHANNELS channel }"

definition process_block ::
  "kernel \<Rightarrow> devices \<Rightarrow> int \<times> metrics \<Rightarrow> ('w metrics_world_scheme, int \<times> metrics) state" where
  "process_block K D fm = do {
     lat \<leftarrow> transform_block K D;
     sync_data K DMA_BUF_SYNC_START;
     sync_options K DMA_BUF_SYNC_START;
     fm \<leftarrow> measure_block K D lat fm;
     play_block K D;
     sync_options K DMA_BUF_SYNC_END;
     sync_data K DMA_BUF_SYNC_END;
     (if fst fm mod 10 = 0 then log_summary D (fst fm) (snd fm) else ret ());
     ret fm }"

text \<open>One turn of the loop: \<open>None\<close> where it leaves the loop.\<close>

definition audio_turn ::
  "kernel \<Rightarrow> devices \<Rightarrow> int \<times> metrics \<Rightarrow> ('w metrics_world_scheme, (int \<times> metrics) option) state" where
  "audio_turn K D fm = do {
     frames_read \<leftarrow> read_block K D;
     if frames_read \<noteq> int NUM_FRAMES then ret None
     else do { fm \<leftarrow> process_block K D fm; ret (Some fm) } }"

fun audio_loop :: "kernel \<Rightarrow> devices \<Rightarrow> int \<times> metrics \<Rightarrow> nat \<Rightarrow> ('w metrics_world_scheme, bool) state" where
  "audio_loop K D fm 0 = ret False"
| "audio_loop K D fm (Suc fuel) = do {
     r \<leftarrow> audio_turn K D fm;
     case r of None \<Rightarrow> ret True | Some fm' \<Rightarrow> audio_loop K D fm' fuel }"

definition audio_close :: "('w app_world_scheme, unit) state" where
  "audio_close = do { snd_pcm_close; sf_close; request EXIT_PLAY }"

text \<open>The result: whether the thread has ended.\<close>

definition run_audio_processing_thread ::
  "kernel \<Rightarrow> devices \<Rightarrow> string \<Rightarrow> nat \<Rightarrow> ('w metrics_world_scheme, bool) state" where
  "run_audio_processing_thread K D input_file fuel = do {
     entered \<leftarrow> audio_open D input_file;
     if \<not> entered then ret True
     else do {
       ended \<leftarrow> audio_loop K D (0, zero_metrics) fuel;
       if ended then do { audio_close; ret True } else ret False } }"

end
