(* ===== verification/Frames.thy ===== *)
theory Frames
  imports Audio_Thread Cmd_Listener
begin

text \<open>
  What the operations of the running example leave alone. \<open>keeps Q\<close> relates two states where
  only harmless calls, or calls that satisfy \<open>Q\<close>, were made and the fields that the set-up
  fixed are as before. It is reflexive and transitive, so it follows for a composed operation
  from its parts; every fact about a whole run of a thread starts from here.
\<close>

subsection \<open>The relation\<close>

text \<open>Calls that concern neither the sound libraries nor the DMA buffers, threads or the firmware link.\<close>

fun quiet :: "event \<Rightarrow> bool" where
  "quiet (Ev_audio _) = False"
| "quiet (Ev_mmap _ _ _) = False"
| "quiet (Ev_munmap _ _) = False"
| "quiet (Ev_dma_sync _ _ _) = False"
| "quiet (Ev_thread _ _) = False"
| "quiet (Ev_unlink _ _) = False"
| "quiet (Ev_symlink _ _ _) = False"
| "quiet _ = True"

definition keeps :: "(event \<Rightarrow> bool) \<Rightarrow> 'w app_world_scheme \<Rightarrow> 'w app_world_scheme \<Rightarrow> bool" where
  "keeps Q s t \<longleftrightarrow> (\<exists>evs. trace t = trace s @ evs \<and> (\<forall>e \<in> set evs. quiet e \<or> Q e)) \<and>
     start_requested t = start_requested s \<and> current_mode t = current_mode s \<and>
     current_channel t = current_channel s \<and> rpmsg_fd t = rpmsg_fd s \<and>
     data_params t = data_params s \<and> options_params t = options_params s \<and>
     lbuf t = lbuf s \<and> dspParams t = dspParams s \<and> app_config t = app_config s \<and> heap t = heap s"

lemma keeps_refl [simp]: "keeps Q s s"
  by (simp add: keeps_def)

lemma keeps_trans: "keeps Q s t \<Longrightarrow> keeps Q t u \<Longrightarrow> keeps Q s u"
  by (fastforce simp: keeps_def)

lemma keeps_mono: "keeps Q s t \<Longrightarrow> (\<And>e. Q e \<Longrightarrow> R e) \<Longrightarrow> keeps R s t"
  by (auto simp: keeps_def)

named_theorems keeps_intros \<open>operations that keep the frame\<close>

subsection \<open>Frames of the parts that log, compute and send\<close>

text \<open>
  Three layers, each with the operations it is closed under: frames that do not see the log and
  the counters, those that in addition do not see the samples of the data buffer, and those
  that do not see the captures and the send buffers either.
\<close>

definition logged :: "'w app_world_scheme \<Rightarrow> 'w app_world_scheme \<Rightarrow> bool" where
  "logged s t \<longleftrightarrow> trace t = trace s \<and> heap t = heap s \<and> app_config t = app_config s \<and> current_mode t = current_mode s \<and>
     filter_enabled t = filter_enabled s \<and> start_requested t = start_requested s \<and> rpmsg_fd t = rpmsg_fd s \<and>
     current_channel t = current_channel s \<and> data_params t = data_params s \<and> options_params t = options_params s \<and>
     lbuf t = lbuf s \<and> dspParams t = dspParams s \<and> data_mem t = data_mem s \<and>
     inputbuf t = inputbuf s \<and> outputbuf t = outputbuf s \<and>
     client_indata_fd t = client_indata_fd s \<and> send_inbuffer t = send_inbuffer s \<and> send_inoffset t = send_inoffset s \<and>
     client_outdata_fd t = client_outdata_fd s \<and> send_outbuffer t = send_outbuffer s \<and> send_outoffset t = send_outoffset s"

definition aside :: "'w app_world_scheme \<Rightarrow> 'w app_world_scheme \<Rightarrow> bool" where
  "aside s t \<longleftrightarrow> trace t = trace s \<and> heap t = heap s \<and> app_config t = app_config s \<and> current_mode t = current_mode s \<and>
     filter_enabled t = filter_enabled s \<and> start_requested t = start_requested s \<and> rpmsg_fd t = rpmsg_fd s \<and>
     current_channel t = current_channel s \<and> data_params t = data_params s \<and> options_params t = options_params s \<and>
     lbuf t = lbuf s \<and> dspParams t = dspParams s \<and> data_mem t = data_mem s"

lemma logged_aside: "logged s t \<Longrightarrow> aside s t"
  by (simp add: logged_def aside_def)

fun plain :: "event \<Rightarrow> bool" where
  "plain (Ev_send _ _ _) = False"
| "plain e = quiet e"

lemma plain_quiet: "plain e \<Longrightarrow> quiet e"
  by (cases e) simp_all

locale log_frame = frame_rel R for R :: "'w app_world_scheme \<Rightarrow> 'w app_world_scheme \<Rightarrow> bool" +
  fixes Q :: "event \<Rightarrow> bool"
  assumes allowed: "Q e \<Longrightarrow> R s (s\<lparr>trace := trace s @ [e]\<rparr>)"
    and plain_allowed: "plain e \<Longrightarrow> Q e"
    and noted: "R s (s\<lparr>fault := f\<rparr>)"
    and unseen: "logged s t \<Longrightarrow> R s t"
begin

lemma emit: "Q e \<Longrightarrow> preserves R (emit e)"
  by (simp add: preserves_def run_emit allowed)

lemma emit_plain: "plain e \<Longrightarrow> preserves R (emit e)"
  by (simp add: emit plain_allowed)

lemma raise: "preserves R (raise_ub u)" "preserves R (check_ub b u)"
  by (simp_all add: preserves_def run_raise_ub run_check_ub noted same)

lemma jot: "(\<And>s. logged s (f s)) \<Longrightarrow> preserves R (modify f)"
  by (simp add: preserves_def unseen)

lemma sync: "(\<And>fl r. Q (Ev_dma_sync fd fl r)) \<Longrightarrow> preserves R (dmabuf_sync K fd v)"
  unfolding dmabuf_sync_def ioctl_dma_sync_def by (intro rules emit) simp

lemma log_queue: "preserves R (enqueue_log msg)" "preserves R log_take" "preserves R (log_output msg)"
  unfolding enqueue_log_def log_take_def log_output_def
  by (intro rules raise emit_plain jot; simp add: logged_def)+

lemma log_metrics: "preserves R (log_frame_metrics mode frames amp lat cpu dsp)" "preserves R (log_summary D frames m)"
  unfolding log_frame_metrics_def log_summary_def by (intro rules log_queue)+

lemma amplitude: "preserves R (block_amplitude D)"
proof -
  have "preserves R (sum_abs is acc)" for "is" acc
    by (induction "is" arbitrary: acc) (auto simp: load_word_def intro!: rules raise)
  then show ?thesis unfolding block_amplitude_def by (intro rules)
qed

lemma samples: "preserves R block_samples_now"
  unfolding block_samples_now_def by (intro rules raise)

lemma clock: "(\<And>a b. Q (Ev_audio (Clock_gettime a b))) \<Longrightarrow> preserves R (clock_gettime D)"
  unfolding clock_gettime_def Devices.audio_def by (intro rules emit) simp

lemma writei: "(\<And>vs r. Q (Ev_audio (Pcm_writei vs r))) \<Longrightarrow> preserves R (snd_pcm_writei D vs)"
  unfolding snd_pcm_writei_def Devices.audio_def by (intro rules emit) simp

lemmas log_rules = rules raise log_queue log_metrics amplitude samples

end

text \<open>The same where the counters of \<^verbatim>\<open>metrics.c\<close> are part of the state.\<close>

locale measured_frame = log_frame R Q
  for R :: "'w metrics_world_scheme \<Rightarrow> 'w metrics_world_scheme \<Rightarrow> bool" and Q :: "event \<Rightarrow> bool"
begin

lemma cpu_load: "preserves R (get_cpu_load K D)"
  unfolding get_cpu_load_def fopen_r_def
  by (auto simp: logged_def intro!: rules raise emit_plain jot split: list.split)

lemma measure: "preserves R (measure_block K D lat fm)"
  unfolding measure_block_def read_dsp_load_def by (intro log_rules cpu_load)

end

locale sample_frame = log_frame +
  assumes rewritten: "R s (s\<lparr>data_mem := m\<rparr>)"
begin

lemma rewrite: "(\<And>s. f s = s\<lparr>data_mem := g s\<rparr>) \<Longrightarrow> preserves R (modify f)"
  by (simp add: preserves_def rewritten)

lemma arm: "preserves R (process_on_arm D)"
proof -
  have load: "preserves R (load_channel ch is)" for ch "is"
    by (induction "is") (auto simp: load_sample_def intro!: rules raise)
  have store: "preserves R (store_channel D ch ys is)" for ch ys "is"
    by (induction "is") (auto simp: store_output_def store_sample_def Let_def intro!: rules raise rewrite)
  have "preserves R (process_channels D chs)" for chs
    by (induction chs) (auto simp: process_channel_def Let_def intro!: rules load store)
  then show ?thesis by (simp add: process_on_arm_def)
qed

end

locale aside_frame = frame_rel R for R :: "'w app_world_scheme \<Rightarrow> 'w app_world_scheme \<Rightarrow> bool" +
  fixes Q :: "event \<Rightarrow> bool"
  assumes harmless: "quiet e \<or> Q e \<Longrightarrow> R s (s\<lparr>trace := trace s @ [e]\<rparr>)"
    and flagged: "R s (s\<lparr>fault := f\<rparr>)"
    and sent: "aside s t \<Longrightarrow> R s t"

sublocale aside_frame < logs: log_frame R "\<lambda>e. quiet e \<or> Q e"
  by unfold_locales (simp_all add: harmless plain_quiet flagged sent logged_aside)

context aside_frame
begin

lemma aside: "(\<And>s. aside s (f s)) \<Longrightarrow> preserves R (modify f)"
  by (simp add: preserves_def sent)

lemma copy: "preserves R (copy_input_samples buf nch ch i n)" "preserves R (copy_output_samples buf nch ch i n)"
  by (induction n arbitrary: i)
    (auto simp del: bind_assoc simp: aside_def intro!: rules logs.raise logs.emit aside)

lemma flush: "preserves R (flush_send_input_buffer K)" "preserves R (flush_send_output_buffer K)"
  unfolding flush_send_input_buffer_def flush_send_output_buffer_def sys_send_def
  by (intro rules logs.raise logs.emit aside; simp add: aside_def)+

lemma log_audio: "preserves R (log_input_audio K buf nf nch ch)" "preserves R (log_output_audio K buf nf nch ch)"
  unfolding log_input_audio_def log_output_audio_def enqueue_input_buffer_def enqueue_output_buffer_def
  by (intro rules logs.raise copy flush aside; simp add: aside_def)+

lemmas aside_rules = logs.log_rules copy flush log_audio

end

subsection \<open>Operations that make harmless calls only\<close>

lemma keeps_fields: "trace t = trace s \<Longrightarrow> start_requested t = start_requested s \<Longrightarrow> current_mode t = current_mode s \<Longrightarrow>
     current_channel t = current_channel s \<Longrightarrow> rpmsg_fd t = rpmsg_fd s \<Longrightarrow> data_params t = data_params s \<Longrightarrow>
     options_params t = options_params s \<Longrightarrow> lbuf t = lbuf s \<Longrightarrow> dspParams t = dspParams s \<Longrightarrow>
     app_config t = app_config s \<Longrightarrow> heap t = heap s \<Longrightarrow> keeps Q s t"
  by (simp add: keeps_def)

interpretation keeping: aside_frame "keeps Q" Q for Q
  by unfold_locales (auto simp: aside_def keeps_def)

interpretation metering: measured_frame "keeps Q" "\<lambda>e. quiet e \<or> Q e" for Q
  by unfold_locales

interpretation resampling: sample_frame "keeps Q" "\<lambda>e. quiet e \<or> Q e" for Q
  by unfold_locales (simp add: keeps_def)

declare keeping.aside_rules [keeps_intros] keeping.logs.sync [keeps_intros] metering.cpu_load [keeps_intros]
  metering.measure [keeps_intros] resampling.arm [keeps_intros]

lemmas keeps_update = keeping.update
lemmas keeps_emit = keeping.logs.emit
lemmas keeps_clock = keeping.logs.clock
lemmas keeps_writei = keeping.logs.writei
lemmas keeps_arm = resampling.arm

lemma keeps_messages [keeps_intros]:
  assumes "\<And>fd fl r. Q (Ev_dma_sync fd fl r)"
  shows "preserves (keeps Q) (send_msg K fd msg len)" "preserves (keeps Q) (recv_msg K fd len reply_msg reply_len)"
    "preserves (keeps Q) (process_on_dsp K D)" "preserves (keeps Q) (enable_filter K b)"
proof -
  show send: "preserves (keeps Q) (send_msg K fd msg len)" and recv: "preserves (keeps Q) (recv_msg K fd len reply_msg reply_len)"
    for fd msg len reply_msg reply_len
    unfolding send_msg_def recv_msg_def sys_write_def sys_read_def by (intro keeps_intros keeps_emit; simp add: assms)+
  show "preserves (keeps Q) (process_on_dsp K D)"
    unfolding process_on_dsp_def dsp_turn_def by (intro keeps_intros keeps_update keeps_fields send recv; simp add: assms)
  show "preserves (keeps Q) (enable_filter K b)"
    unfolding enable_filter_def store_filter_def by (intro keeps_intros keeps_update keeps_fields; simp add: assms)
qed

text \<open>The command thread: a poll closes its descriptor or handles the bytes it read.\<close>

lemma keeps_cmd_poll [keeps_intros]:
  assumes "\<And>fd fl r. Q (Ev_dma_sync fd fl r)"
  shows "preserves (keeps Q) (cmd_poll K cmd_fd tv)"
proof -
  have "preserves (keeps Q) (cmd_char K c)" for c
    unfolding cmd_char_def run_command_def
    by (intro keeps_intros keeps_update keeps_fields; simp add: assms)
  then have "preserves (keeps Q) (cmd_bytes K bs)" for bs
    by (induction bs) (auto intro!: keeps_intros)
  then show ?thesis
    unfolding cmd_poll_def sys_select_def sys_read_def sys_close_def by (intro keeps_intros keeps_emit; simp)
qed

end
