(* ===== verification/Audio_Run.thy ===== *)
theory Audio_Run
  imports Frames
begin

text \<open>
  What a whole run of the audio thread does: it ends when the file ends, gives back what it
  opened, and brackets its accesses to the DMA buffers. Each fact is about the history: a
  weight per call, summed, or the calls of one kind in order.
\<close>

subsection \<open>Weights of a history\<close>

definition tally :: "(event \<Rightarrow> int) \<Rightarrow> event list \<Rightarrow> int" where
  "tally w evs = sum_list (map w evs)"

lemma tally_simps [simp]:
  "tally w [] = 0" "tally w (e # es) = w e + tally w es" "tally w (es @ es') = tally w es + tally w es'"
  by (simp_all add: tally_def)

text \<open>Open sound files, open sound devices, reads of the sound file.\<close>

fun file_weight :: "event \<Rightarrow> int" where
  "file_weight (Ev_audio (Sf_open _ (Some _))) = 1"
| "file_weight (Ev_audio Sf_close) = - 1"
| "file_weight _ = 0"

fun pcm_weight :: "event \<Rightarrow> int" where
  "pcm_weight (Ev_audio (Pcm_open _ r)) = (if r < 0 then 0 else 1)"
| "pcm_weight (Ev_audio Pcm_close) = - 1"
| "pcm_weight _ = 0"

fun read_weight :: "event \<Rightarrow> int" where
  "read_weight (Ev_audio (Sf_readf _ _)) = 1"
| "read_weight _ = 0"

text \<open>The calls of the sound libraries and of the clock, in order.\<close>

fun sound_of :: "event \<Rightarrow> audio_event list" where
  "sound_of (Ev_audio a) = [a]"
| "sound_of _ = []"

definition sounds :: "event list \<Rightarrow> audio_event list" where
  "sounds evs = concat (map sound_of evs)"

lemma sounds_simps [simp]:
  "sounds [] = []" "sounds (e # es) = sound_of e @ sounds es" "sounds (es @ es') = sounds es @ sounds es'"
  by (simp_all add: sounds_def)

text \<open>The calls of the loop that carry no weight.\<close>

fun calm :: "event \<Rightarrow> bool" where
  "calm (Ev_dma_sync _ _ _) = True"
| "calm (Ev_audio (Clock_gettime _ _)) = True"
| "calm (Ev_audio (Pcm_writei _ _)) = True"
| "calm _ = False"

lemma no_weight:
  "quiet e \<or> calm e \<Longrightarrow> file_weight e = 0" "quiet e \<or> calm e \<Longrightarrow> pcm_weight e = 0" "quiet e \<or> calm e \<Longrightarrow> read_weight e = 0"
  by (cases e; simp; rename_tac a; case_tac a; simp)+

lemma tally_keeps:
  assumes "keeps calm s t"
  shows "tally file_weight (trace t) = tally file_weight (trace s)"
    "tally pcm_weight (trace t) = tally pcm_weight (trace s)" "tally read_weight (trace t) = tally read_weight (trace s)"
proof -
  obtain evs where evs: "trace t = trace s @ evs" "\<And>e. e \<in> set evs \<Longrightarrow> quiet e \<or> calm e"
    using assms by (auto simp: keeps_def)
  have "tally w evs = 0" if "\<And>e. quiet e \<or> calm e \<Longrightarrow> w e = 0" for w
    unfolding tally_def using evs(2) that by (induction evs) auto
  then show "tally file_weight (trace t) = tally file_weight (trace s)"
    "tally pcm_weight (trace t) = tally pcm_weight (trace s)" "tally read_weight (trace t) = tally read_weight (trace s)"
    using no_weight by (simp_all add: evs(1))
qed

subsection \<open>A turn of the loop\<close>

lemma keeps_process_block: "preserves (keeps calm) (process_block K D fm)"
proof -
  have "preserves (keeps calm) (transform_block K D)"
    unfolding transform_block_def process_mode_def sync_data_def
    by (intro keeps_intros keeps_clock keeps_update keeps_fields; simp)
  moreover have "preserves (keeps calm) (play_block K D)"
    unfolding play_block_def by (intro keeps_intros keeps_writei keeps_update keeps_fields; simp)
  ultimately show ?thesis
    unfolding process_block_def sync_data_def sync_options_def by (intro keeps_intros; simp)
qed

text \<open>The first two calls of a turn.\<close>

definition first_calls :: "kernel \<Rightarrow> devices \<Rightarrow> 'w app_world_scheme \<Rightarrow> event list" where
  "first_calls K D s =
     (let fl = word_of_int (DMA_BUF_SYNC_START K OR DMA_BUF_SYNC_RW K);
          e = Ev_dma_sync (dma_buf_fd (data_params s)) fl (k_dma_sync K (trace s) (dma_buf_fd (data_params s)) fl)
      in [e, Ev_audio (Sf_readf NUM_FRAMES (fst (d_sf_readf D (trace s @ [e]) NUM_FRAMES)))])"

lemma read_block_calls:
  "result (read_block K D) s = fst (d_sf_readf D (trace s @ [hd (first_calls K D s)]) NUM_FRAMES)"
  "trace (exec (read_block K D) s) = trace s @ first_calls K D s"
  by (simp_all add: read_block_def sync_data_def dmabuf_sync_def ioctl_dma_sync_def sf_readf_def audio_def run_emit run_check_ub
      first_calls_def split_beta Let_def)

lemma keeps_read_block:
  "(\<And>fd fl r. Q (Ev_dma_sync fd fl r)) \<Longrightarrow> (\<And>n r. Q (Ev_audio (Sf_readf n r))) \<Longrightarrow> preserves (keeps Q) (read_block K D)"
  unfolding read_block_def sync_data_def sf_readf_def audio_def
  by (intro keeps_intros keeps_emit keeps_update keeps_fields; simp)

lemma read_block_keeps: "keeps (\<lambda>_. True) s (exec (read_block K D) s)"
  by (rule preservesD [OF keeps_read_block]) simp_all

lemma process_block_keeps: "keeps calm s (exec (process_block K D fm) s)"
  by (rule preservesD [OF keeps_process_block])

lemma read_block_weights:
  "tally file_weight (trace (exec (read_block K D) s)) = tally file_weight (trace s)"
  "tally pcm_weight (trace (exec (read_block K D) s)) = tally pcm_weight (trace s)"
  "tally read_weight (trace (exec (read_block K D) s)) = tally read_weight (trace s) + 1"
  "start_requested (exec (read_block K D) s) = start_requested s"
  using read_block_keeps [of s K D]
  by (simp_all add: read_block_calls(2) first_calls_def Let_def) (simp add: keeps_def)

lemma exec_audio_turn:
  "run_state (audio_turn K D fm) s =
     (let t = exec (read_block K D) s
      in if result (read_block K D) s \<noteq> int NUM_FRAMES then (None, t)
         else (Some (result (process_block K D fm) t), exec (process_block K D fm) t))"
  by (simp add: audio_turn_def split_beta Let_def)

lemma audio_turn_weights:
  "tally file_weight (trace (exec (audio_turn K D fm) s)) = tally file_weight (trace s)"
  "tally pcm_weight (trace (exec (audio_turn K D fm) s)) = tally pcm_weight (trace s)"
  "tally read_weight (trace (exec (audio_turn K D fm) s)) = tally read_weight (trace s) + 1"
  "start_requested (exec (audio_turn K D fm) s) = start_requested s"
  using process_block_keeps [of "exec (read_block K D) s" K D fm] tally_keeps [OF process_block_keeps [of "exec (read_block K D) s" K D fm]]
  by (auto simp: exec_audio_turn Let_def read_block_weights) (auto simp: keeps_def read_block_weights)

subsection \<open>The loop\<close>

lemma audio_loop_weights:
  "tally file_weight (trace (exec (audio_loop K D fm fuel) s)) = tally file_weight (trace s)"
  "tally pcm_weight (trace (exec (audio_loop K D fm fuel) s)) = tally pcm_weight (trace s)"
  "start_requested (exec (audio_loop K D fm fuel) s) = start_requested s"
proof (induction fuel arbitrary: fm s)
  case 0
  {
    case 1 then show ?case by simp
  next
    case 2 then show ?case by simp
  next
    case 3 then show ?case by simp
  }
next
  case (Suc fuel)
  {
    case 1 show ?case
      using Suc audio_turn_weights [of K D fm s] by (auto simp: split_beta split: option.split)
  next
    case 2 show ?case
      using Suc audio_turn_weights [of K D fm s] by (auto simp: split_beta split: option.split)
  next
    case 3 show ?case
      using Suc audio_turn_weights [of K D fm s] by (auto simp: split_beta split: option.split)
  }
qed

text \<open>A file of \<open>n\<close> full blocks: from the read after them on, a read is short.\<close>

definition file_blocks :: "devices \<Rightarrow> int \<Rightarrow> bool" where
  "file_blocks D n \<longleftrightarrow>
     (\<forall>tr. n \<le> tally read_weight tr \<longrightarrow> fst (d_sf_readf D tr NUM_FRAMES) \<noteq> int NUM_FRAMES)"

lemma audio_loop_ends:
  assumes "file_blocks D n"
  shows "n \<le> tally read_weight (trace s) + int k \<Longrightarrow> result (audio_loop K D fm (Suc k)) s"
proof (induction k arbitrary: fm s)
  case 0
  then have "result (read_block K D) s \<noteq> int NUM_FRAMES"
    using assms by (auto simp: file_blocks_def read_block_calls(1) first_calls_def Let_def)
  then show ?case by (simp add: exec_audio_turn Let_def)
next
  case (Suc k)
  show ?case
  proof (cases "result (audio_turn K D fm) s")
    case None
    then show ?thesis by (simp add: split_beta)
  next
    case (Some fm')
    have "result (audio_loop K D fm' (Suc k)) (exec (audio_turn K D fm) s)"
      using Suc.prems by (intro Suc.IH) (simp add: audio_turn_weights)
    then show ?thesis
      using Some by (subst audio_loop.simps) (simp add: split_beta del: audio_loop.simps)
  qed
qed

text \<open>The ways into the loop and past it.\<close>

lemma audio_open_cases:
  "(\<not> result (audio_open D f) s \<and> tally file_weight (trace (exec (audio_open D f) s)) = tally file_weight (trace s) \<and>
      tally pcm_weight (trace (exec (audio_open D f) s)) = tally pcm_weight (trace s) \<and>
      start_requested (exec (audio_open D f) s) = EXIT_PLAY) \<or>
   (result (audio_open D f) s \<and> tally file_weight (trace (exec (audio_open D f) s)) = tally file_weight (trace s) + 1 \<and>
      tally pcm_weight (trace (exec (audio_open D f) s)) = tally pcm_weight (trace s) + 1 \<and>
      start_requested (exec (audio_open D f) s) = start_requested s)"
  by (auto simp: audio_open_def request_def run_simps split: option.split prod.split)

lemma audio_open_reads: "tally read_weight (trace (exec (audio_open D f) s)) = tally read_weight (trace s)"
  by (simp add: audio_open_def request_def run_simps split: option.split prod.split)

lemma audio_close_weights:
  "tally file_weight (trace (exec audio_close s)) = tally file_weight (trace s) - 1"
  "tally pcm_weight (trace (exec audio_close s)) = tally pcm_weight (trace s) - 1"
  "start_requested (exec audio_close s) = EXIT_PLAY"
  by (simp_all add: audio_close_def request_def run_simps)

subsection \<open>Brackets around the accesses\<close>

text \<open>The synchronisation requests of a history, with their descriptors.\<close>

fun sync_of :: "event \<Rightarrow> (int \<times> u64) list" where
  "sync_of (Ev_dma_sync fd fl _) = [(fd, fl)]"
| "sync_of _ = []"

definition syncs :: "event list \<Rightarrow> (int \<times> u64) list" where
  "syncs evs = concat (map sync_of evs)"

lemma syncs_simps [simp]:
  "syncs [] = []" "syncs (e # es) = sync_of e @ syncs es" "syncs (es @ es') = syncs es @ syncs es'"
  by (simp_all add: syncs_def)

fun no_sync :: "event \<Rightarrow> bool" where
  "no_sync (Ev_dma_sync _ _ _) = False"
| "no_sync _ = True"

lemma syncs_keeps: "keeps no_sync s t \<Longrightarrow> syncs (trace t) = syncs (trace s)"
proof -
  assume "keeps no_sync s t"
  then obtain evs where evs: "trace t = trace s @ evs" "\<forall>e \<in> set evs. quiet e \<or> no_sync e"
    by (auto simp: keeps_def)
  have "sync_of e = []" if "quiet e \<or> no_sync e" for e
    using that by (cases e) auto
  then have "syncs evs = []" using evs(2) by (auto simp: syncs_def)
  then show ?thesis by (simp add: evs(1))
qed

text \<open>
  A computation that makes, on the ARM, the requests \<open>f d o\<close> for the data buffer \<open>d\<close> and the
  parameter buffer \<open>o\<close>.
\<close>

definition brackets ::
  "(int \<Rightarrow> int \<Rightarrow> (int \<times> u64) list) \<Rightarrow> ('w app_world_scheme, 'a) state \<Rightarrow> bool" where
  "brackets f m \<longleftrightarrow> (\<forall>s. current_mode s = EXEC_ARM \<longrightarrow> keeps (\<lambda>_. True) s (exec m s) \<and>
     syncs (trace (exec m s)) = syncs (trace s) @ f (dma_buf_fd (data_params s)) (dma_buf_fd (options_params s)))"

lemma brackets_bind:
  assumes "brackets f m" and "\<And>x. brackets g (h x)"
  shows "brackets (\<lambda>d p. f d p @ g d p) (State_Monad.bind m h)"
  unfolding brackets_def
proof (intro allI impI)
  fix s :: "'a app_world_scheme"
  assume arm: "current_mode s = EXEC_ARM"
  let ?t = "exec m s" and ?u = "exec (h (result m s)) (exec m s)"
  have k: "keeps (\<lambda>_. True) s ?t" and f: "syncs (trace ?t) = syncs (trace s) @ f (dma_buf_fd (data_params s)) (dma_buf_fd (options_params s))"
    using assms(1) arm by (auto simp: brackets_def)
  have t: "current_mode ?t = EXEC_ARM" "data_params ?t = data_params s" "options_params ?t = options_params s"
    using k arm by (auto simp: keeps_def)
  have "keeps (\<lambda>_. True) ?t ?u" and "syncs (trace ?u) = syncs (trace ?t) @ g (dma_buf_fd (data_params s)) (dma_buf_fd (options_params s))"
    using assms(2) [of "result m s"] t by (auto simp: brackets_def)
  with k f show "keeps (\<lambda>_. True) s (exec (State_Monad.bind m h) s) \<and>
      syncs (trace (exec (State_Monad.bind m h) s)) =
        syncs (trace s) @ f (dma_buf_fd (data_params s)) (dma_buf_fd (options_params s)) @
        g (dma_buf_fd (data_params s)) (dma_buf_fd (options_params s))"
    unfolding exec_bind using keeps_trans [OF k] by simp
qed

lemma brackets_none: "preserves (keeps no_sync) m \<Longrightarrow> brackets (\<lambda>_ _. []) m"
  unfolding brackets_def by (metis append_Nil2 keeps_mono preservesD syncs_keeps)

lemma brackets_sync:
  "brackets (\<lambda>d p. [(d, word_of_int (which K OR DMA_BUF_SYNC_RW K))]) (sync_data K which)"
  "brackets (\<lambda>d p. [(p, word_of_int (which K OR DMA_BUF_SYNC_RW K))]) (sync_options K which)"
  by (simp_all add: brackets_def sync_data_def sync_options_def dmabuf_sync_def ioctl_dma_sync_def run_emit keeps_def)

lemma brackets_mode: "brackets (\<lambda>_ _. []) (process_mode K D)"
proof -
  have "exec (process_mode K D) s = exec (process_on_arm D) s" if "current_mode s = EXEC_ARM" for s :: "'a app_world_scheme"
    using that by (simp add: process_mode_def)
  then show ?thesis
    using brackets_none [OF keeps_arm] by (simp add: brackets_def)
qed

text \<open>Linux: 3 starts an access for reading and writing, 7 ends it.\<close>

definition turn_syncs :: "int \<Rightarrow> int \<Rightarrow> (int \<times> u64) list" where
  "turn_syncs d p = [(d, 7), (d, 3), (p, 3), (p, 7), (d, 7)]"

lemma brackets_process_block:
  assumes "linux_uapi K"
  shows "brackets turn_syncs (process_block K D fm)"
proof -
  have transform: "brackets (\<lambda>d p. [] @ [] @ [(d, 7)] @ [] @ [] @ [] @ []) (transform_block K D)"
    unfolding transform_block_def
    by (intro brackets_bind brackets_mode)
      (use brackets_sync(1) [of DMA_BUF_SYNC_END K] assms in
        \<open>auto simp: linux_uapi_def intro!: brackets_none keeps_intros keeps_clock keeps_update keeps_fields\<close>)
  have play: "brackets (\<lambda>d p. []) (play_block K D)"
    unfolding play_block_def
    by (intro brackets_none keeps_intros keeps_writei keeps_update keeps_fields; simp)
  have end_part: "brackets (\<lambda>d p. [] @ []) (do { (if fst f mod 10 = 0 then log_summary D (fst f) (snd f) else ret ()); ret f })" for f
    by (intro brackets_bind brackets_none keeps_intros)
  have "brackets (\<lambda>d p. [(d, 7)] @ [(d, 3)] @ [(p, 3)] @ [] @ [] @ [(p, 7)] @ [(d, 7)] @ []) (process_block K D fm)"
    unfolding process_block_def
    using transform play end_part brackets_sync [of DMA_BUF_SYNC_START K] brackets_sync [of DMA_BUF_SYNC_END K] assms
    by (intro brackets_bind) (simp_all add: linux_uapi_def brackets_none keeps_intros)
  then show ?thesis by (simp add: turn_syncs_def [abs_def])
qed

lemma audio_turn_syncs:
  assumes "linux_uapi K" and "current_mode s = EXEC_ARM" and "d = dma_buf_fd (data_params s)" and "p = dma_buf_fd (options_params s)"
  shows "syncs (trace (exec (audio_turn K D fm) s)) =
      syncs (trace s) @ (d, 3) # (if result (audio_turn K D fm) s = None then [] else turn_syncs d p)"
    and "keeps (\<lambda>_. True) s (exec (audio_turn K D fm) s)"
proof -
  let ?t = "exec (read_block K D) s"
  have k: "keeps (\<lambda>_. True) s ?t" by (rule read_block_keeps)
  have t: "current_mode ?t = EXEC_ARM" "dma_buf_fd (data_params ?t) = d" "dma_buf_fd (options_params ?t) = p"
    using k assms(2-4) by (auto simp: keeps_def)
  have read: "syncs (trace ?t) = syncs (trace s) @ [(d, 3)]"
    using assms(1,3) by (simp add: read_block_calls(2) first_calls_def Let_def linux_uapi_def)
  have block: "keeps (\<lambda>_. True) ?t (exec (process_block K D fm) ?t)"
      "syncs (trace (exec (process_block K D fm) ?t)) = syncs (trace ?t) @ turn_syncs d p"
    using brackets_process_block [OF assms(1), of D fm] t by (auto simp: brackets_def)
  show "syncs (trace (exec (audio_turn K D fm) s)) =
      syncs (trace s) @ (d, 3) # (if result (audio_turn K D fm) s = None then [] else turn_syncs d p)"
    by (simp add: exec_audio_turn Let_def block(2) read)
  show "keeps (\<lambda>_. True) s (exec (audio_turn K D fm) s)"
    using k keeps_trans [OF k block(1)] by (simp add: exec_audio_turn Let_def)
qed

lemma audio_loop_syncs:
  assumes "linux_uapi K"
  shows "current_mode s = EXEC_ARM \<Longrightarrow> d = dma_buf_fd (data_params s) \<Longrightarrow> p = dma_buf_fd (options_params s) \<Longrightarrow>
    result (audio_loop K D fm fuel) s \<Longrightarrow>
    \<exists>n. syncs (trace (exec (audio_loop K D fm fuel) s)) =
          syncs (trace s) @ concat (replicate n ((d, 3) # turn_syncs d p)) @ [(d, 3)] \<and>
        tally read_weight (trace (exec (audio_loop K D fm fuel) s)) = tally read_weight (trace s) + int n + 1"
proof (induction fuel arbitrary: fm s)
  case 0
  then show ?case by simp
next
  case (Suc fuel)
  note turn = audio_turn_syncs [OF assms Suc.prems(1-3), of D fm]
  show ?case
  proof (cases "result (audio_turn K D fm) s")
    case None
    then show ?thesis
      using turn(1) audio_turn_weights(3) [of K D fm s] by (intro exI [of _ 0]) (simp add: split_beta)
  next
    case (Some fm')
    let ?t = "exec (audio_turn K D fm) s"
    have t: "current_mode ?t = EXEC_ARM" "d = dma_buf_fd (data_params ?t)" "p = dma_buf_fd (options_params ?t)"
      using turn(2) Suc.prems(1-3) by (auto simp: keeps_def)
    have run: "run_state (audio_loop K D fm (Suc fuel)) s = run_state (audio_loop K D fm' fuel) ?t"
      using Some by (simp add: split_beta)
    have "result (audio_loop K D fm' fuel) ?t"
      using Suc.prems(4) by (simp only: run)
    from Suc.IH [OF t this] obtain n where
      "syncs (trace (exec (audio_loop K D fm' fuel) ?t)) = syncs (trace ?t) @ concat (replicate n ((d, 3) # turn_syncs d p)) @ [(d, 3)]"
      "tally read_weight (trace (exec (audio_loop K D fm' fuel) ?t)) = tally read_weight (trace ?t) + int n + 1"
      by blast
    then show ?thesis
      using turn(1) Some audio_turn_weights(3) [of K D fm s]
      by (intro exI [of _ "Suc n"]) (simp add: run del: audio_loop.simps)
  qed
qed

subsection \<open>Properties\<close>

text \<open>
  C11: the audio thread ends. With a sound file of \<open>n\<close> full blocks, whatever the other answers
  of the system, \<open>n + 1\<close> turns of its loop are enough: the thread returns, and it has asked
  the main loop to end. (The statements about whole runs speak of the calls the code makes; they
  do not depend on the values an access out of bounds may have read.)
\<close>
theorem audio_thread_terminates:
  assumes "file_blocks D n" and "n \<le> tally read_weight (trace s) + int k"
  shows "result (run_audio_processing_thread K D input_file (Suc k)) s \<and>
    start_requested (exec (run_audio_processing_thread K D input_file (Suc k)) s) = EXIT_PLAY"
proof -
  let ?t = "exec (audio_open D input_file) s"
  have "result (audio_loop K D (0, zero_metrics) (Suc k)) ?t"
    by (rule audio_loop_ends [OF assms(1)]) (simp add: audio_open_reads assms(2))
  then show ?thesis
    using audio_open_cases [of D input_file s]
    by (auto simp: run_audio_processing_thread_def split_beta audio_close_weights simp del: audio_loop.simps)
qed

lemma sample_file_blocks: "file_blocks sample_devices 2"
proof -
  define is_read where "is_read e = (case e of Ev_audio (Sf_readf _ _) \<Rightarrow> True | _ \<Rightarrow> False)" for e
  have w: "read_weight e = (if is_read e then 1 else 0)" for e
    by (cases e; simp add: is_read_def; rename_tac a; case_tac a; simp)
  have count: "tally read_weight tr = int (length (filter is_read tr))" for tr
    by (induction tr) (simp_all add: w)
  have d: "fst (d_sf_readf sample_devices tr n) = (if length (filter is_read tr) < 2 then int n else 0)" for tr n
    by (simp add: sample_devices_def is_read_def [abs_def] Let_def)
  show ?thesis
    by (simp add: file_blocks_def d count NUM_FRAMES_def)
qed

theorem audio_thread_terminates_witness:
  "start_requested (exec (run_audio_processing_thread sample_kernel sample_devices ''sample.wav'' 3) start_metrics) = EXIT_PLAY"
proof -
  have "trace start_metrics = []"
    by (simp add: start_metrics_def app_world.defs zero_app_def zero_host_def host_world.defs)
  then have "(2 :: int) \<le> tally read_weight (trace start_metrics) + int 2" by simp
  from audio_thread_terminates [OF sample_file_blocks this, of sample_kernel "''sample.wav''"]
  show ?thesis by (simp add: numeral_3_eq_3 numeral_2_eq_2)
qed

text \<open>
  C12: the audio thread gives back what it opened and asks for the end. On every path (a file
  that does not open or has the wrong format, a device that does not open or refuses its
  parameters, the end of the file) it has closed the sound file and the sound device exactly as
  often as it has opened them and set the request to \<open>EXIT_PLAY\<close> when it ends; while it has not
  ended, both are open and the request is as it was.
\<close>
theorem audio_thread_closes:
  "let (ended, t) = run_state (run_audio_processing_thread K D input_file fuel) s;
       still_open = (if ended then 0 else 1)
   in tally file_weight (trace t) = tally file_weight (trace s) + still_open \<and>
      tally pcm_weight (trace t) = tally pcm_weight (trace s) + still_open \<and>
      start_requested t = (if ended then EXIT_PLAY else start_requested s)"
  using audio_open_cases [of D input_file s]
  by (auto simp: run_audio_processing_thread_def split_beta Let_def audio_loop_weights audio_close_weights)

text \<open>
  C20: the accesses to the DMA buffers are bracketed, but for the last. A run of the loop on the
  ARM that has processed \<open>n\<close> blocks makes, per block, exactly the requests start, end, start on
  the data buffer, start and end on the parameter buffer, and end on the data buffer. The turn
  that finds the end of the file starts an access that is never ended. Between the first end and
  the second start lies the processing: on the ARM it runs outside any bracket.
\<close>
theorem audio_loop_brackets:
  assumes "linux_uapi K" and "current_mode s = EXEC_ARM"
    and "run_state (audio_loop K D fm fuel) s = (True, t)"
    and "d = dma_buf_fd (data_params s)" and "p = dma_buf_fd (options_params s)"
  shows "\<exists>n. tally read_weight (trace t) = tally read_weight (trace s) + int n + 1 \<and>
    syncs (trace t) = syncs (trace s) @
      concat (replicate n [(d, 3), (d, 7), (d, 3), (p, 3), (p, 7), (d, 7)]) @ [(d, 3)]"
  using audio_loop_syncs [OF assms(1,2,4,5), of D fm fuel] assms(3) by (auto simp: turn_syncs_def)

theorem audio_loop_brackets_witness:
  "\<exists>n. syncs (trace (exec (audio_loop sample_kernel sample_devices (0, zero_metrics) 3) start_metrics)) =
     concat (replicate n [(0, 3), (0, 7), (0, 3), (0, 3), (0, 7), (0, 7)]) @ [(0, 3)]"
proof -
  have s: "trace start_metrics = []" "current_mode start_metrics = EXEC_ARM"
      "dma_buf_fd (data_params start_metrics) = 0" "dma_buf_fd (options_params start_metrics) = 0"
    by (simp_all add: start_metrics_def app_world.defs zero_app_def zero_host_def host_world.defs zero_params_def)
  have "result (audio_loop sample_kernel sample_devices (0, zero_metrics) (Suc 2)) start_metrics"
    by (rule audio_loop_ends [OF sample_file_blocks]) (simp add: s)
  then have run: "run_state (audio_loop sample_kernel sample_devices (0, zero_metrics) 3) start_metrics =
      (True, exec (audio_loop sample_kernel sample_devices (0, zero_metrics) 3) start_metrics)"
    by (simp add: prod_eq_iff numeral_3_eq_3 numeral_2_eq_2 del: audio_loop.simps)
  from audio_loop_brackets [OF sample_kernel_contracts(2) s(2) run refl refl] show ?thesis
    by (auto simp: s)
qed

end
