(* ===== verification/App.thy ===== *)
theory App
  imports Audio_Run Host_Init Fw_Loader
begin

text \<open>
  The program: \<open>main\<close> and \<open>handle_sigint\<close> of \<^verbatim>\<open>rpmsg_audio_example.c\<close>, and its threads
  interleaved. \<open>main\<close> is cut into the pieces between which its loop and the other threads can
  be scheduled; \<open>app_step\<close> is one move of one thread. The parts of a thread that a step covers
  are its critical sections, one turn of its loop, or one call back into the example.
\<close>

subsection \<open>The pieces of the main function\<close>

definition CFG_FILE_PATH :: string where
  "CFG_FILE_PATH = ''/etc/dsp_offload.cfg''"

text \<open>Switching to the firmware a pointer of the configuration names.\<close>

definition switch_to :: "kernel \<Rightarrow> (AppConfig \<Rightarrow> ptr) \<Rightarrow> ('w conf_world_scheme, unit) state" where
  "switch_to K which = do {
     cfg \<leftarrow> gets app_config;
     fw \<leftarrow> c_string (which cfg);
     link \<leftarrow> c_string (fw_link_path cfg);
     state_path \<leftarrow> c_string (c7_state_path cfg);
     _ \<leftarrow> switch_firmware K fw link state_path;
     ret () }"

definition load_mode :: "kernel \<Rightarrow> ('w app_world_scheme, unit) state" where
  "load_mode K = do {
     load_config K CFG_FILE_PATH;
     dsp \<leftarrow> gets (\<lambda>s. is_dsp_execution (app_config s));
     modify (\<lambda>s. s\<lparr>current_mode := (if dsp then EXEC_DSP else EXEC_ARM)\<rparr>) }"

definition switch_new :: "kernel \<Rightarrow> ('w app_world_scheme, unit) state" where
  "switch_new K = do {
     mode \<leftarrow> gets current_mode;
     if mode = EXEC_DSP then do { switch_to K c7_new_fw_path; emit (Ev_sleep 1) } else ret () }"

text \<open>The two buffers. The statuses are not looked at.\<close>

definition init_data_buffer :: "kernel \<Rightarrow> ('w app_world_scheme, unit) state" where
  "init_data_buffer K = do {
     cfg \<leftarrow> gets app_config;
     heap_name \<leftarrow> c_string (dma_heap_reserved cfg);
     dev \<leftarrow> c_string (rproc_dev_name cfg);
     p \<leftarrow> gets data_params;
     a \<leftarrow> dmabuf_heap_init K heap_name (word_of_int (data_buffer_size cfg)) dev p;
     modify (\<lambda>s. s\<lparr>data_params := snd a\<rparr>) }"

definition init_options_buffer :: "kernel \<Rightarrow> ('w app_world_scheme, unit) state" where
  "init_options_buffer K = do {
     cfg \<leftarrow> gets app_config;
     heap_name \<leftarrow> c_string (dma_heap_reserved cfg);
     dev \<leftarrow> c_string (rproc_dev_name cfg);
     p \<leftarrow> gets options_params;
     a \<leftarrow> dmabuf_heap_init K heap_name (word_of_int (param_buffer_size cfg)) dev p;
     modify (\<lambda>s. s\<lparr>options_params := snd a\<rparr>) }"

definition init_buffers :: "kernel \<Rightarrow> ('w app_world_scheme, unit) state" where
  "init_buffers K = do {
     set_config (\<lambda>c. c\<lparr>data_buffer_size := int (FRAME_SIZE * NUM_FRAMES)\<rparr>);
     cfg \<leftarrow> gets app_config;
     fd \<leftarrow> init_rpmsg K (c7_proc_id cfg) (remote_endpoint cfg);
     modify (\<lambda>s. s\<lparr>rpmsg_fd := fd\<rparr>);
     init_data_buffer K;
     init_options_buffer K;
     init_rpmsg_buffer 0 }"

definition init_filter :: "kernel \<Rightarrow> ('w app_world_scheme, unit) state" where
  "init_filter K = do {
     mode \<leftarrow> gets current_mode;
     on \<leftarrow> gets (\<lambda>s. fft_filter_enable (app_config s));
     if mode = EXEC_DSP then do {
       sync_options K DMA_BUF_SYNC_END;
       store_filter (of_bool on);
       sync_options K DMA_BUF_SYNC_END }
     else modify (\<lambda>s. s\<lparr>filter_enabled := on\<rparr>) }"

text \<open>Everything before the loop, undisturbed: the status of an \<open>exit\<close>, or \<open>None\<close>.\<close>

definition main_setup :: "kernel \<Rightarrow> ('w app_world_scheme, int option) state" where
  "main_setup K = do {
     load_mode K;
     switch_new K;
     init_buffers K;
     stop \<leftarrow> init_host_interface K;
     case stop of Some status \<Rightarrow> ret (Some status)
     | None \<Rightarrow> do { init_filter K; ret None } }"

text \<open>One turn of the loop: whether it was left.\<close>

definition main_turn :: "kernel \<Rightarrow> ('w app_world_scheme, bool) state" where
  "main_turn K = do {
     r \<leftarrow> gets start_requested;
     if r = START_PLAY then do {
       request STOP_PLAY;
       st \<leftarrow> pthread_create K Thread_audio;
       ret (st \<noteq> 0) }
     else if r = EXIT_PLAY then ret True
     else do { emit (Ev_sleep 2); ret False } }"

definition main_destroy :: "('w app_world_scheme, unit) state" where
  "main_destroy = do {
     d \<leftarrow> gets data_params;
     dmabuf_heap_destroy d;
     p \<leftarrow> gets options_params;
     dmabuf_heap_destroy p }"

definition revert_firmware :: "kernel \<Rightarrow> ('w app_world_scheme, unit) state" where
  "revert_firmware K = do {
     mode \<leftarrow> gets current_mode;
     if mode = EXEC_DSP then switch_to K c7_old_fw_path else ret () }"

text \<open>The handler of the interrupt signal; it exits.\<close>

definition handle_sigint :: "kernel \<Rightarrow> ('w app_world_scheme, unit) state" where
  "handle_sigint K = do {
     mode \<leftarrow> gets current_mode;
     (if mode = EXEC_DSP then switch_to K c7_old_fw_path else ret ());
     cleanup_config }"

subsection \<open>The threads together\<close>

text \<open>What \<open>main\<close> does next, in the order in which it does it.\<close>

datatype phase = Loading | Switching | Allocating | Connecting | Filtering | Polling
  | Left_loop | Destroyed | Reverted | Freed | Exited

fun rank :: "phase \<Rightarrow> nat" where
  "rank Loading = 0"
| "rank Switching = 1"
| "rank Allocating = 2"
| "rank Connecting = 3"
| "rank Filtering = 4"
| "rank Polling = 5"
| "rank Left_loop = 6"
| "rank Destroyed = 7"
| "rank Reverted = 8"
| "rank Freed = 9"
| "rank Exited = 10"

lemma rank_le: "rank p \<le> 10"
  by (cases p) simp_all

lemma rank_inj: "rank a = rank b \<longleftrightarrow> a = b"
  by (cases a; cases b) simp_all

instantiation phase :: linorder
begin

definition less_eq_phase :: "phase \<Rightarrow> phase \<Rightarrow> bool" where
  "less_eq_phase a b \<longleftrightarrow> rank a \<le> rank b"

definition less_phase :: "phase \<Rightarrow> phase \<Rightarrow> bool" where
  "less_phase a b \<longleftrightarrow> rank a < rank b"

instance
  by standard (auto simp: less_eq_phase_def less_phase_def rank_inj)

end

datatype audio_pc = Not_created | Opening | Looping "int \<times> metrics" | Closing | Ended

datatype cmd_pc = Cmd_waiting | Cmd_polling int int | Cmd_ended

record system =
  glob :: metrics_world
  main_pc :: phase
  audio :: audio_pc
  cmd :: cmd_pc
  input_file :: ptr

definition audio_active :: "system \<Rightarrow> bool" where
  "audio_active s \<longleftrightarrow> audio s \<notin> {Not_created, Ended}"

text \<open>
  The calls of the other threads, one at a time. The scheduler may run the log thread and the
  threads that wait for a client whenever the threads have been started and as often as it
  likes, which allows more than the program does: the log thread ends at once where no client
  can be connected, and each waiting thread runs once and on Ethernet only.
\<close>

definition log_step :: "('w host_world_scheme, unit) state" where
  "log_step = do { m \<leftarrow> log_take; case m of None \<Rightarrow> ret () | Some msg \<Rightarrow> log_output msg }"

definition client_step :: "kernel \<Rightarrow> thread \<Rightarrow> ('w host_world_scheme, unit) state" where
  "client_step K th =
     (case th of
        Thread_wait_log \<Rightarrow> wait_for_log_client K
      | Thread_wait_cmd \<Rightarrow> wait_for_cmd_client K
      | Thread_wait_indata \<Rightarrow> wait_for_indata_client K
      | Thread_wait_outdata \<Rightarrow> wait_for_outdata_client K
      | _ \<Rightarrow> ret ())"

definition cmd_start :: "('w host_world_scheme, cmd_pc) state" where
  "cmd_start = do {
     connected \<leftarrow> gets isCmdConnected;
     if \<not> connected then ret Cmd_waiting
     else do {
       cmd_fd \<leftarrow> gets (\<lambda>s. if is_host_eth_iface (app_config s) then client_cmd_fd s else uart_fd s);
       ret (Cmd_polling cmd_fd 100000) } }"

definition cmd_step :: "kernel \<Rightarrow> int \<Rightarrow> int \<Rightarrow> ('w app_world_scheme, cmd_pc) state" where
  "cmd_step K cmd_fd tv = do {
     a \<leftarrow> cmd_poll K cmd_fd tv;
     ret (if fst a then Cmd_polling cmd_fd (snd a) else Cmd_ended) }"

definition audio_start :: "devices \<Rightarrow> ptr \<Rightarrow> ('w app_world_scheme, audio_pc) state" where
  "audio_start D p = do {
     file \<leftarrow> c_string p;
     entered \<leftarrow> audio_open D file;
     ret (if entered then Looping (0, zero_metrics) else Ended) }"

definition threads_run :: "phase \<Rightarrow> bool" where
  "threads_run p \<longleftrightarrow> Filtering \<le> p \<and> p \<noteq> Exited"

inductive app_step :: "kernel \<Rightarrow> devices \<Rightarrow> system \<Rightarrow> system \<Rightarrow> bool" for K D where
  do_load: "main_pc s = Loading \<Longrightarrow> w = exec (load_mode K) (glob s) \<Longrightarrow>
    app_step K D s (s\<lparr>glob := w, main_pc := Switching, input_file := sample_audio_file (app_config w)\<rparr>)"
| do_switch: "main_pc s = Switching \<Longrightarrow>
    app_step K D s (s\<lparr>glob := exec (switch_new K) (glob s), main_pc := Allocating\<rparr>)"
| do_allocate: "main_pc s = Allocating \<Longrightarrow>
    app_step K D s (s\<lparr>glob := exec (init_buffers K) (glob s), main_pc := Connecting\<rparr>)"
| do_connect: "main_pc s = Connecting \<Longrightarrow> run_state (init_host_interface K) (glob s) = (r, w) \<Longrightarrow>
    app_step K D s (s\<lparr>glob := w, main_pc := (case r of None \<Rightarrow> Filtering | Some _ \<Rightarrow> Exited)\<rparr>)"
| do_filter: "main_pc s = Filtering \<Longrightarrow>
    app_step K D s (s\<lparr>glob := exec (init_filter K) (glob s), main_pc := Polling\<rparr>)"
| do_turn: "main_pc s = Polling \<Longrightarrow> run_state (main_turn K) (glob s) = (left, w) \<Longrightarrow>
    app_step K D s (s\<lparr>glob := w, main_pc := (if left then Left_loop else Polling),
      audio := (if start_requested (glob s) = START_PLAY \<and> \<not> left then Opening else audio s)\<rparr>)"
| do_destroy: "main_pc s = Left_loop \<Longrightarrow>
    app_step K D s (s\<lparr>glob := exec main_destroy (glob s), main_pc := Destroyed\<rparr>)"
| do_revert: "main_pc s = Destroyed \<Longrightarrow>
    app_step K D s (s\<lparr>glob := exec (revert_firmware K) (glob s), main_pc := Reverted\<rparr>)"
| do_free: "main_pc s = Reverted \<Longrightarrow>
    app_step K D s (s\<lparr>glob := exec cleanup_config (glob s), main_pc := Freed\<rparr>)"
| do_exit: "main_pc s = Freed \<Longrightarrow> app_step K D s (s\<lparr>main_pc := Exited\<rparr>)"
| do_sigint: "main_pc s \<notin> {Loading, Exited} \<Longrightarrow>
    app_step K D s (s\<lparr>glob := exec (handle_sigint K) (glob s), main_pc := Exited\<rparr>)"
| audio_begin: "main_pc s \<noteq> Exited \<Longrightarrow> audio s = Opening \<Longrightarrow> run_state (audio_start D (input_file s)) (glob s) = (pc, w) \<Longrightarrow>
    app_step K D s (s\<lparr>glob := w, audio := pc\<rparr>)"
| audio_block: "main_pc s \<noteq> Exited \<Longrightarrow> audio s = Looping fm \<Longrightarrow> run_state (audio_turn K D fm) (glob s) = (r, w) \<Longrightarrow>
    app_step K D s (s\<lparr>glob := w, audio := (case r of None \<Rightarrow> Closing | Some fm' \<Rightarrow> Looping fm')\<rparr>)"
| audio_end: "main_pc s \<noteq> Exited \<Longrightarrow> audio s = Closing \<Longrightarrow>
    app_step K D s (s\<lparr>glob := exec audio_close (glob s), audio := Ended\<rparr>)"
| do_log: "threads_run (main_pc s) \<Longrightarrow>
    app_step K D s (s\<lparr>glob := exec log_step (glob s)\<rparr>)"
| do_client: "threads_run (main_pc s) \<Longrightarrow>
    app_step K D s (s\<lparr>glob := exec (client_step K th) (glob s)\<rparr>)"
| cmd_begin: "threads_run (main_pc s) \<Longrightarrow> cmd s = Cmd_waiting \<Longrightarrow> run_state cmd_start (glob s) = (pc, w) \<Longrightarrow>
    app_step K D s (s\<lparr>glob := w, cmd := pc\<rparr>)"
| cmd_turn: "threads_run (main_pc s) \<Longrightarrow> cmd s = Cmd_polling fd tv \<Longrightarrow>
    run_state (cmd_step K fd tv) (glob s) = (pc, w) \<Longrightarrow> app_step K D s (s\<lparr>glob := w, cmd := pc\<rparr>)"

inductive_cases app_step_cases: "app_step K D s t"

lemma app_step_phase: "app_step K D s t \<Longrightarrow> main_pc s \<le> main_pc t"
  by (erule app_step_cases) (auto simp: less_eq_phase_def rank_le split: option.split)

lemma app_steps_phase: "rtranclp (app_step K D) s t \<Longrightarrow> main_pc s \<le> main_pc t"
  by (induction rule: rtranclp_induct) (auto dest: app_step_phase)

text \<open>The states the program reaches from its start.\<close>

definition start_system :: system where
  "start_system = \<lparr>glob = start_metrics, main_pc = Loading, audio = Not_created, cmd = Cmd_waiting, input_file = 0\<rparr>"

inductive reachable :: "kernel \<Rightarrow> devices \<Rightarrow> system \<Rightarrow> bool" for K D where
  initial: "reachable K D start_system"
| step: "reachable K D s \<Longrightarrow> app_step K D s t \<Longrightarrow> reachable K D t"

end
