(* ===== verification/App_Inv.thy ===== *)
theory App_Inv
  imports App
begin

text \<open>
  Invariants of the interleaved program, by induction over its reachable states: what the main
  thread and the audio thread agree on through \<open>start_requested\<close>, and that the buffers stay
  mapped as long as the audio thread may use them.
\<close>

subsection \<open>The set-up\<close>

text \<open>How many audio threads a history started.\<close>

fun audio_weight :: "event \<Rightarrow> int" where
  "audio_weight (Ev_thread Thread_audio r) = of_bool (r = 0)"
| "audio_weight _ = 0"

abbreviation audio_threads :: "'w world_scheme \<Rightarrow> int" where
  "audio_threads s \<equiv> tally audio_weight (trace s)"

text \<open>
  The calls of the set-up outside \<^verbatim>\<open>rpmsg_audio_example.c\<close> leave its globals and the
  mappings alone.
\<close>

definition mild :: "'w host_world_scheme \<Rightarrow> 'w host_world_scheme \<Rightarrow> bool" where
  "mild s t \<longleftrightarrow> host_world.more t = host_world.more s \<and> live_maps (trace t) = live_maps (trace s) \<and>
     audio_threads t = audio_threads s \<and> sounds (trace t) = sounds (trace s) \<and> lineofs t = lineofs s \<and> (fault s \<noteq> None \<longrightarrow> fault t \<noteq> None)"

interpretation mildly: frame_rel mild
  by unfold_locales (auto simp: mild_def)

named_theorems mild_intros \<open>operations the set-up may call\<close>

declare mildly.rules [mild_intros]

lemma mild_raise [mild_intros]: "preserves mild (raise_ub u)" "preserves mild (check_ub b u)"
  by (simp_all add: preserves_def mild_def run_raise_ub run_check_ub)

lemma mild_emit: "\<forall>M. map_step e M = M \<Longrightarrow> audio_weight e = 0 \<Longrightarrow> sound_of e = [] \<Longrightarrow> preserves mild (emit e)"
  by (simp add: preserves_def mild_def run_emit live_maps_append)

lemmas mild_update = mildly.update

lemma mild_c_string [mild_intros]: "preserves mild (c_string p)"
  unfolding c_string_def by (intro mild_intros)

lemma mild_load_config [mild_intros]: "preserves mild (load_config K f)"
proof -
  have replace: "preserves mild (replace_string K get put val)" for get put val
    unfolding replace_string_def free_ptr_def strdup_def by (intro mild_intros mild_update; simp add: mild_def)
  have set: "preserves mild (set_config g)" for g
    unfolding set_config_def by (intro mild_update) (simp add: mild_def)
  have "preserves mild (process_line K l)" for l
    unfolding process_line_def apply_setting_def by (intro mild_intros replace set)
  then have "preserves mild (process_lines K ls)" for ls
    by (induction ls) (auto intro!: mild_intros)
  then show ?thesis
    unfolding load_config_def fopen_r_def by (intro mild_intros mild_emit; simp)
qed

lemma mild_switch_firmware [mild_intros]: "preserves mild (switch_firmware K fw link p)"
  unfolding switch_firmware_def write_state_if_needed_def read_state_def update_symlink_def sys_open_def sys_close_def
    sys_read_def sys_write_def sys_unlink_def sys_symlink_def
  by (intro mild_intros mild_emit; simp)

lemma mild_init_rpmsg [mild_intros]: "preserves mild (init_rpmsg K proc ep)"
  unfolding init_rpmsg_def rpmsg_char_init_def rpmsg_char_open_def by (intro mild_intros mild_emit; simp)

lemma mild_init_host [mild_intros]: "preserves mild (init_host_interface K)"
  unfolding init_host_interface_def init_serial_def tcgetattr_def start_threads_def host_init_defs sys_open_def sys_socket_def pthread_create_def fopen_w_def
  by (intro mild_intros mild_emit mild_update; simp add: mild_def)

subsection \<open>What the steps leave alone\<close>

definition stays :: "'w app_world_scheme \<Rightarrow> 'w app_world_scheme \<Rightarrow> bool" where
  "stays s t \<longleftrightarrow> start_requested t = start_requested s \<and> data_params t = data_params s \<and>
     options_params t = options_params s \<and> lbuf t = lbuf s \<and> dspParams t = dspParams s \<and>
     live_maps (trace t) = live_maps (trace s) \<and> audio_threads t = audio_threads s"

lemma stays_refl [simp]: "stays s s"
  by (simp add: stays_def)

lemma stays_trans: "stays s t \<Longrightarrow> stays t u \<Longrightarrow> stays s u"
  by (simp add: stays_def)

interpretation staying: frame_rel stays
  by unfold_locales (simp_all add: stays_trans)

lemma mild_stays: "mild s t \<Longrightarrow> stays s (t :: 'w app_world_scheme)"
  by (cases s; cases t) (simp add: mild_def stays_def)

text \<open>Calls that neither map nor unmap nor start a thread.\<close>

fun inert :: "event \<Rightarrow> bool" where
  "inert (Ev_mmap _ _ _) = False"
| "inert (Ev_munmap _ _) = False"
| "inert (Ev_thread _ _) = False"
| "inert (Ev_unlink _ _) = False"
| "inert (Ev_symlink _ _ _) = False"
| "inert _ = True"

lemma quiet_inert: "quiet e \<Longrightarrow> inert e"
  by (cases e) simp_all

lemma inert_step: "inert e \<Longrightarrow> map_step e M = M" "inert e \<Longrightarrow> audio_weight e = 0"
  by (cases e; simp)+

lemma inert_fold: "\<forall>e \<in> set evs. inert e \<Longrightarrow> fold map_step evs M = M \<and> tally audio_weight evs = 0"
  by (induction evs arbitrary: M) (simp_all add: inert_step)

lemma keeps_stays:
  assumes "keeps inert s t"
  shows "stays s t"
proof -
  obtain evs where "trace t = trace s @ evs" "\<forall>e \<in> set evs. inert e"
    using assms quiet_inert by (auto simp: keeps_def)
  then show ?thesis
    using assms inert_fold [of evs] by (simp add: stays_def keeps_def live_maps_append)
qed

lemma stays_of_keeps: "preserves (keeps inert) m \<Longrightarrow> preserves stays m"
  by (simp add: preserves_def keeps_stays)

lemma stays_of_mild: "preserves mild m \<Longrightarrow> preserves (stays :: 'w app_world_scheme \<Rightarrow> _) m"
  by (simp add: preserves_def mild_stays)

lemmas stays_bind = staying.bind

lemma stays_load_mode: "preserves (stays :: 'w app_world_scheme \<Rightarrow> _) (load_mode K)"
proof -
  have mode: "preserves (stays :: 'w app_world_scheme \<Rightarrow> _) (modify (\<lambda>s. s\<lparr>current_mode := m\<rparr>))" for m
    by (simp add: preserves_def stays_def)
  have dsp: "preserves mild (gets (\<lambda>s. is_dsp_execution (app_config s)))"
    by (intro mild_intros)
  show ?thesis
    unfolding load_mode_def
    by (intro stays_bind stays_of_mild [OF mild_load_config] stays_of_mild [OF dsp] mode)
qed

lemma mild_switch_to [mild_intros]: "preserves mild (switch_to K which)"
  unfolding switch_to_def by (intro mild_intros)

lemma mild_switch_new: "preserves mild (switch_new K)"
  unfolding switch_new_def by (intro mild_intros mild_emit) simp_all

lemma keeps_sync_buffers [keeps_intros]:
  "(\<And>fd fl r. Q (Ev_dma_sync fd fl r)) \<Longrightarrow> preserves (keeps Q) (sync_data K which)"
  "(\<And>fd fl r. Q (Ev_dma_sync fd fl r)) \<Longrightarrow> preserves (keeps Q) (sync_options K which)"
  unfolding sync_data_def sync_options_def by (intro keeps_intros; simp)+

lemma keeps_init_filter: "(\<And>fd fl r. Q (Ev_dma_sync fd fl r)) \<Longrightarrow> preserves (keeps Q) (init_filter K)"
  unfolding init_filter_def store_filter_def
  by (intro keeps_intros keeps_update keeps_fields) simp_all

lemma keeps_init_filter_inert: "preserves (keeps inert) (init_filter K)"
  by (rule keeps_init_filter) simp

lemmas stays_init_filter = stays_of_keeps [OF keeps_init_filter_inert]

lemma stays_main_destroy:
  "exec main_destroy s = s\<lparr>trace := trace s @
     [Ev_munmap (kern_addr (data_params s)) (word_of_int (buf_size (data_params s))),
      Ev_close (dma_buf_fd (data_params s)), Ev_close (rproc_fd (data_params s)),
      Ev_munmap (kern_addr (options_params s)) (word_of_int (buf_size (options_params s))),
      Ev_close (dma_buf_fd (options_params s)), Ev_close (rproc_fd (options_params s))]\<rparr>"
  by (simp add: main_destroy_def run_simps)

text \<open>The buffers: the address stored is the one mapped, and the rest of the state stays.\<close>

lemma heap_init_maps:
  assumes "run_state (dmabuf_heap_init K h n dev p) s = ((r, q), t)" and "kern_addr p = 0"
  shows "audio_threads t = audio_threads s \<and> fault t = fault s \<and> world.more t = world.more s \<and> live_maps (trace s) \<subseteq># live_maps (trace t) \<and>
    live_maps (trace t) \<subseteq># live_maps (trace s) + {#kern_addr q#} \<and>
    (kern_addr q \<in> {0, MAP_FAILED} \<or> kern_addr q \<in># live_maps (trace t))"
  using assms by (auto simp: dmabuf_heap_init_def run_simps fd_simps MAP_FAILED_def split: prod.splits if_splits)

lemma more_fields:
  assumes "world.more t = world.more (s :: 'w app_world_scheme)"
  shows "start_requested t = start_requested s" "data_params t = data_params s" "options_params t = options_params s"
    "lbuf t = lbuf s" "dspParams t = dspParams s"
  using assms by (cases s; cases t; simp)+

lemma named_heap_init:
  fixes s :: "'w app_world_scheme"
  assumes "t = exec (do {
       cfg \<leftarrow> gets app_config;
       heap_name \<leftarrow> c_string (dma_heap_reserved cfg);
       dev \<leftarrow> c_string (rproc_dev_name cfg);
       p \<leftarrow> gets which;
       a \<leftarrow> dmabuf_heap_init K heap_name (word_of_int (size_of cfg)) dev p;
       modify (put (snd a)) }) s"
    and "\<And>u. stays s u \<Longrightarrow> kern_addr (which u) = 0"
  obtains q v where "t = put q v" "audio_threads v = audio_threads s" "start_requested v = start_requested s"
    "data_params v = data_params s" "options_params v = options_params s"
    "live_maps (trace s) \<subseteq># live_maps (trace v)" "live_maps (trace v) \<subseteq># live_maps (trace s) + {#kern_addr q#}"
    "kern_addr q \<in> {0, MAP_FAILED} \<or> mapped v (kern_addr q)"
proof -
  define names :: "('w app_world_scheme, _) state" where
    "names = do { cfg \<leftarrow> gets app_config; heap_name \<leftarrow> c_string (dma_heap_reserved cfg);
      dev \<leftarrow> c_string (rproc_dev_name cfg); ret (heap_name, cfg, dev) }"
  have "preserves mild names" unfolding names_def by (intro mild_intros)
  then have "stays s (exec names s)" by (simp only: preserves_def mild_stays)
  moreover obtain h cfg dev u where run: "run_state names s = ((h, cfg, dev), u)"
    by (cases "run_state names s") (metis prod_cases3)
  ultimately have u: "stays s u" by (simp only: snd_conv)
  obtain r q v where init: "run_state (dmabuf_heap_init K h (word_of_int (size_of cfg)) dev (which u)) u = ((r, q), v)"
    by (metis prod.exhaust)
  have "t = put q v"
    using run init by (auto simp add: assms(1) names_def split_beta prod_eq_iff)
  then show thesis
    using heap_init_maps [OF init assms(2) [OF u]] more_fields [of v u] u
    by (intro that [of q v]) (simp_all add: stays_def mapped_def)
qed

lemma init_data_buffer_maps:
  assumes "t = exec (init_data_buffer K) s" and "kern_addr (data_params s) = 0"
  shows "audio_threads t = audio_threads s \<and> start_requested t = start_requested s \<and> options_params t = options_params s \<and>
    live_maps (trace t) \<subseteq># live_maps (trace s) + {#kern_addr (data_params t)#} \<and> live_maps (trace s) \<subseteq># live_maps (trace t) \<and>
    (kern_addr (data_params t) \<in> {0, MAP_FAILED} \<or> mapped t (kern_addr (data_params t)))"
  by (rule named_heap_init [OF assms(1) [unfolded init_data_buffer_def]])
    (use assms(2) in \<open>auto simp: stays_def mapped_def\<close>)

lemma init_options_buffer_maps:
  assumes "t = exec (init_options_buffer K) s" and "kern_addr (options_params s) = 0"
  shows "audio_threads t = audio_threads s \<and> start_requested t = start_requested s \<and> data_params t = data_params s \<and>
    live_maps (trace t) \<subseteq># live_maps (trace s) + {#kern_addr (options_params t)#} \<and> live_maps (trace s) \<subseteq># live_maps (trace t) \<and>
    (kern_addr (options_params t) \<in> {0, MAP_FAILED} \<or> mapped t (kern_addr (options_params t)))"
  by (rule named_heap_init [OF assms(1) [unfolded init_options_buffer_def]])
    (use assms(2) in \<open>auto simp: stays_def mapped_def\<close>)

text \<open>The pointers of the example agree with the mappings.\<close>

definition bufs_ok :: "'w app_world_scheme \<Rightarrow> bool" where
  "bufs_ok s \<longleftrightarrow> lb_data_buf (lbuf s) = kern_addr (data_params s) \<and> dspParams s = kern_addr (options_params s) \<and>
     live_maps (trace s) \<subseteq># {#kern_addr (data_params s), kern_addr (options_params s)#} \<and>
     (kern_addr (data_params s) \<in> {0, MAP_FAILED} \<or> mapped s (kern_addr (data_params s))) \<and>
     (kern_addr (options_params s) \<in> {0, MAP_FAILED} \<or> mapped s (kern_addr (options_params s)))"

lemma bufs_ok_stays: "bufs_ok s \<Longrightarrow> stays s t \<Longrightarrow> bufs_ok t"
  by (simp add: bufs_ok_def stays_def mapped_def)

lemma init_buffers_ok:
  assumes t: "t = exec (init_buffers K) s" and empty: "live_maps (trace s) = {#}"
    and blank: "kern_addr (data_params s) = 0" "kern_addr (options_params s) = 0"
  shows "bufs_ok t \<and> start_requested t = start_requested s \<and> audio_threads t = audio_threads s"
proof -
  define link where "link = do {
     set_config (\<lambda>c. c\<lparr>data_buffer_size := int (FRAME_SIZE * NUM_FRAMES)\<rparr>);
     cfg \<leftarrow> gets app_config;
     fd \<leftarrow> init_rpmsg K (c7_proc_id cfg) (remote_endpoint cfg);
     modify (\<lambda>s. s\<lparr>rpmsg_fd := fd\<rparr> :: 'a app_world_scheme) }"
  have link_stays: "preserves stays link"
  proof -
    have fd: "preserves stays (modify (\<lambda>s. s\<lparr>rpmsg_fd := fd\<rparr> :: 'a app_world_scheme))" for fd
      by (simp add: preserves_def stays_def)
    have set: "preserves mild (set_config g)" for g
      unfolding set_config_def by (intro mild_update) (simp add: mild_def)
    have cfg: "preserves mild (gets app_config)"
      by (intro mild_intros)
    show ?thesis
      unfolding link_def
      by (intro stays_bind stays_of_mild [OF mild_init_rpmsg] stays_of_mild [OF set] stays_of_mild [OF cfg] fd)
  qed
  define u where "u = exec link s"
  define v where "v = exec (init_data_buffer K) u"
  define w where "w = exec (init_options_buffer K) v"
  have final: "t = exec (init_rpmsg_buffer 0) w"
    by (simp add: t u_def v_def w_def link_def init_buffers_def split_beta)
  have u: "stays s u"
    using link_stays by (simp add: preserves_def u_def)
  have v: "audio_threads v = audio_threads s" "start_requested v = start_requested s" "options_params v = options_params s"
      "live_maps (trace v) \<subseteq># {#kern_addr (data_params v)#}"
      "kern_addr (data_params v) \<in> {0, MAP_FAILED} \<or> mapped v (kern_addr (data_params v))"
    using init_data_buffer_maps [OF v_def] u empty blank(1) by (simp_all add: stays_def)
  have "kern_addr (options_params v) = 0" by (simp add: v(3) blank(2))
  note w = init_options_buffer_maps [OF w_def this]
  have "live_maps (trace v) + {#kern_addr (options_params w)#} \<subseteq># {#kern_addr (data_params v)#} + {#kern_addr (options_params w)#}"
    using v(4) by (rule subset_mset.add_right_mono)
  with w have "live_maps (trace w) \<subseteq># {#kern_addr (data_params v)#} + {#kern_addr (options_params w)#}"
    by (blast intro: subset_mset.order_trans)
  moreover have "kern_addr (data_params w) \<in> {0, MAP_FAILED} \<or> mapped w (kern_addr (data_params w))"
    using w v(5) by (auto simp: mapped_def dest: mset_subset_eqD)
  ultimately show ?thesis
    using w v(1,2) by (simp add: final init_rpmsg_buffer_def bufs_ok_def mapped_def add_mset_commute)
qed

lemma main_setup_ok:
  assumes "run_state (main_setup K) s = (r, t)" and "live_maps (trace s) = {#}"
    and "kern_addr (data_params s) = 0" and "kern_addr (options_params s) = 0"
  shows "bufs_ok t \<and> start_requested t = start_requested s \<and> audio_threads t = audio_threads s"
proof -
  define u where "u = exec (switch_new K) (exec (load_mode K) s)"
  define v where "v = exec (init_buffers K) u"
  define w where "w = exec (init_host_interface K) v"
  have t: "t = (if result (init_host_interface K) v = None then exec (init_filter K) w else w)"
    using assms(1) by (auto simp: main_setup_def u_def v_def w_def split_beta split: option.splits)
  have u: "stays s u"
    unfolding u_def
    by (rule stays_trans [OF preservesD [OF stays_load_mode] preservesD [OF stays_of_mild [OF mild_switch_new]]])
  have w: "stays v w" and f: "stays w (exec (init_filter K) w)"
    unfolding w_def by (rule preservesD [OF stays_of_mild [OF mild_init_host]] preservesD [OF stays_init_filter])+
  have "bufs_ok v \<and> start_requested v = start_requested u \<and> audio_threads v = audio_threads u"
    by (rule init_buffers_ok [OF v_def]) (use u assms(2-) in \<open>simp_all add: stays_def\<close>)
  moreover have "stays v t"
    unfolding t using w f stays_trans by auto
  ultimately show ?thesis
    using u bufs_ok_stays [of v t] by (simp add: stays_def)
qed

subsection \<open>The steps of the other threads\<close>

lemma mild_log_step: "preserves mild log_step"
  unfolding log_step_def log_take_def log_output_def
  by (intro mild_intros mild_emit mild_update; simp add: mild_def)

lemma mild_client_step: "preserves mild (client_step K th)"
  unfolding client_step_def wait_for_log_client_def wait_for_cmd_client_def wait_for_indata_client_def
    wait_for_outdata_client_def sys_accept_def
  by (cases th; simp only: thread.case; intro mild_intros mild_emit mild_update; simp add: mild_def)

lemma keeps_cmd:
  assumes "\<And>fd fl r. Q (Ev_dma_sync fd fl r)"
  shows "preserves (keeps Q) (cmd_step K fd tv)" "preserves (keeps Q) cmd_start"
  unfolding cmd_step_def cmd_start_def by (intro keeps_intros keeps_cmd_poll assms; simp)+

lemma keeps_cmd_inert: "preserves (keeps inert) (cmd_step K fd tv)" "preserves (keeps inert) cmd_start"
  by (rule keeps_cmd; simp)+

lemmas stays_cmd_step = stays_of_keeps [OF keeps_cmd_inert(1)]
lemmas stays_cmd_start = stays_of_keeps [OF keeps_cmd_inert(2)]

lemma keeps_audio_turn: "preserves (keeps inert) (audio_turn K D fm)"
proof -
  have "preserves (keeps inert) (sf_readf D n)" for n
    unfolding sf_readf_def Devices.audio_def by (intro keeps_intros keeps_emit) simp
  then have read: "preserves (keeps inert) (read_block K D)"
    unfolding read_block_def data_access_def by (intro keeps_intros keeps_update keeps_fields; simp)
  have "preserves (keeps inert) (process_block K D fm)"
    unfolding preserves_def using process_block_keeps keeps_mono [of calm _ _ inert] by (metis calm.elims(2) inert.simps)
  with read show ?thesis
    unfolding audio_turn_def by (intro keeps_intros)
qed

lemmas stays_audio_turn = stays_of_keeps [OF keeps_audio_turn]

end
