(* ===== verification/App_Setup.thy ===== *)
theory App_Setup
  imports App_Inv
begin

text \<open>
  The set-up of the program as a whole: it reaches the loop without undefined behaviour when
  the configuration is complete and the system grants what it asks for, and it does not when
  there is no configuration file.
\<close>

subsection \<open>Parts of the set-up that are free of undefined behaviour\<close>

definition clean :: "'w app_world_scheme \<Rightarrow> 'w app_world_scheme \<Rightarrow> bool" where
  "clean s t \<longleftrightarrow> fault t = fault s \<and> heap t = heap s \<and> (\<exists>n. app_config t = (app_config s)\<lparr>data_buffer_size := n\<rparr>) \<and>
     current_mode t = current_mode s \<and> lineofs t = lineofs s"

lemma clean_refl [simp]: "clean s s"
  unfolding clean_def by (auto intro: exI [of _ "data_buffer_size (app_config s)"])

lemma clean_trans: "clean s t \<Longrightarrow> clean t u \<Longrightarrow> clean s u"
  by (auto simp: clean_def)

interpretation cleanly: frame_rel clean
  by unfold_locales (simp_all add: clean_trans)

named_theorems clean_intros \<open>operations without undefined behaviour\<close>

declare cleanly.rules [clean_intros]

lemma clean_fields: "fault t = fault s \<Longrightarrow> heap t = heap s \<Longrightarrow> app_config t = app_config s \<Longrightarrow>
    current_mode t = current_mode s \<Longrightarrow> lineofs t = lineofs s \<Longrightarrow> clean s t"
  unfolding clean_def by (auto intro: exI [of _ "data_buffer_size (app_config s)"])

lemma clean_emit [clean_intros]: "preserves clean (emit e)"
  by (simp add: preserves_def run_emit clean_fields)

lemmas clean_update = cleanly.update

lemma clean_calls [clean_intros]:
  "preserves clean (sys_open K p fl)" "preserves clean (sys_close fd)" "preserves clean (sys_write K fd bs)"
  "preserves clean (sys_unlink K p)" "preserves clean (sys_symlink K q p)" "preserves clean (sys_mmap K n fd)"
  "preserves clean (ioctl_heap_alloc K fd n fl)" "preserves clean (ioctl_dma_attach K fd d)" "preserves clean (ioctl_dma_sync K fd v)"
  "preserves clean (sys_socket K)" "preserves clean (pthread_create K th)" "preserves clean (fopen_w K p)"
  "preserves clean (rpmsg_char_init K)" "preserves clean (rpmsg_char_open K i ep nm)"
  unfolding call_defs by (intro clean_intros)+

lemma clean_read_state [clean_intros]:
  assumes "read_contract K"
  shows "preserves clean (read_state K path (replicate 32 NUL) 32)"
proof -
  have len: "length bs \<le> 31" if "k_read K tr fd 31 = (r, bs)" "\<not> r < 0" for tr fd r bs
    using read_contractD [OF assms that(1)] that(2) by simp
  show ?thesis
    by (rule preservesI)
      (auto simp: read_state_def sys_open_def sys_read_def sys_close_def run_emit run_check_ub Let_def split_beta
        intro!: clean_fields dest!: len [OF prod.collapse [symmetric]])
qed

lemma clean_switch_firmware:
  assumes "read_contract K"
  shows "preserves clean (switch_firmware K fw link p)"
  unfolding switch_firmware_def write_state_if_needed_def update_symlink_def
  by (intro clean_intros assms)

lemma clean_heap_init: "preserves clean (dmabuf_heap_init K h n dev p)"
  unfolding dmabuf_heap_init_def dmaheap_open_def dmaheap_alloc_def dmabuf_get_phys_def
  by (intro clean_intros)

lemma clean_init_rpmsg:
  assumes "is_int32 i" and "is_int32 (k_getpid K)"
  shows "preserves clean (init_rpmsg K i ep)"
proof -
  have "length (eptdev_name i (k_getpid K)) < 64"
    using eptdev_name_fits [OF assms] by simp
  then have "preserves clean (check_ub (length (eptdev_name i (k_getpid K)) < 64) u)" for u
    by (simp add: preserves_def run_check_ub)
  then show ?thesis unfolding init_rpmsg_def Let_def by (intro clean_intros)
qed

lemma clean_listeners:
  "preserves clean (init_log_interface K)" "preserves clean (init_cmd_interface K)"
  "preserves clean (init_indata_interface K)" "preserves clean (init_outdata_interface K)"
  "preserves clean (start_threads K)"
  unfolding host_init_defs start_threads_def by (intro clean_intros clean_update clean_fields; simp)+

subsection \<open>The set-up in a complete configuration\<close>

definition strings_ok :: "'w conf_world_scheme \<Rightarrow> bool" where
  "strings_ok s \<longleftrightarrow> (\<forall>f. str_view s f \<noteq> None)"

lemma strings_ok_clean: "strings_ok s \<Longrightarrow> clean s t \<Longrightarrow> strings_ok t"
proof -
  have "get_str f (c\<lparr>data_buffer_size := n\<rparr>) = get_str f c" for f c n
    by (cases f) simp_all
  then show "strings_ok s \<Longrightarrow> clean s t \<Longrightarrow> strings_ok t"
    by (auto simp: strings_ok_def clean_def str_view_def)
qed

lemma run_c_string_ok:
  assumes "strings_ok s"
  obtains str where "run_state (c_string (get_str f (app_config s))) s = (str, s)"
proof -
  obtain str where "deref (heap s) (get_str f (app_config s)) = Some str"
    using assms by (auto simp: strings_ok_def str_view_def)
  then show thesis by (intro that) (simp add: run_c_string)
qed

text \<open>The system grants buffers and descriptors.\<close>

definition grants :: "kernel \<Rightarrow> bool" where
  "grants K \<longleftrightarrow> (\<forall>tr path flags. 0 \<le> k_open K tr path flags) \<and>
     (\<forall>tr fd n flags. 0 \<le> fst (k_heap_alloc K tr fd n flags) \<and> 0 \<le> sint (snd (k_heap_alloc K tr fd n flags))) \<and>
     (\<forall>tr fd d. 0 \<le> fst (k_dma_attach K tr fd d)) \<and> (\<forall>tr n fd. k_mmap K tr n fd \<notin> {0, MAP_FAILED}) \<and>
     (\<forall>tr fd. k_tcgetattr K tr fd \<noteq> None)"

lemma grantsD:
  assumes "grants K"
  shows "0 \<le> k_open K tr path flags" "k_heap_alloc K tr fd n fl = (r, d) \<Longrightarrow> 0 \<le> r \<and> 0 \<le> sint d"
    "k_dma_attach K tr fd d = (r, da) \<Longrightarrow> 0 \<le> r" "k_mmap K tr m fd \<noteq> 0" "k_mmap K tr m fd \<noteq> MAP_FAILED"
    "k_tcgetattr K tr fd \<noteq> None"
  using assms unfolding grants_def by (auto dest: spec) (metis fst_conv snd_conv)+

lemma granted_heap_init:
  assumes "grants K"
  shows "kern_addr (snd (result (dmabuf_heap_init K h n dev p) s)) \<notin> {0, MAP_FAILED}"
  using grantsD [OF assms]
  by (auto simp: dmabuf_heap_init_def run_simps not_less [symmetric] split: prod.splits if_splits dest: grantsD(2,3) [OF assms])

lemma heap_init_data_params: "data_params (exec (dmabuf_heap_init K h n dev p) s) = data_params s"
  by (auto simp: dmabuf_heap_init_def run_simps split: prod.splits)

lemma init_buffer_clean:
  assumes "strings_ok s" and "grants K"
  shows "clean s (exec (init_data_buffer K) s) \<and> kern_addr (data_params (exec (init_data_buffer K) s)) \<notin> {0, MAP_FAILED}"
    "clean s (exec (init_options_buffer K) s) \<and> kern_addr (options_params (exec (init_options_buffer K) s)) \<notin> {0, MAP_FAILED}"
    "data_params (exec (init_options_buffer K) s) = data_params s"
proof -
  obtain h where h: "run_state (c_string (dma_heap_reserved (app_config s))) s = (h, s)"
    using run_c_string_ok [OF assms(1), of DMA_HEAP_RESERVED] by auto
  obtain dev where dev: "run_state (c_string (rproc_dev_name (app_config s))) s = (dev, s)"
    using run_c_string_ok [OF assms(1), of RPROC_DEV_NAME] by auto
  have init: "clean s (exec (dmabuf_heap_init K h n dev p) s)" for n p
    by (rule preservesD [OF clean_heap_init])
  have put: "clean s (t\<lparr>data_params := q\<rparr>)" "clean s (t\<lparr>options_params := q\<rparr>)" if "clean s t" for t q
    using that by (simp_all add: clean_def)
  show "clean s (exec (init_data_buffer K) s) \<and> kern_addr (data_params (exec (init_data_buffer K) s)) \<notin> {0, MAP_FAILED}"
    "clean s (exec (init_options_buffer K) s) \<and> kern_addr (options_params (exec (init_options_buffer K) s)) \<notin> {0, MAP_FAILED}"
    "data_params (exec (init_options_buffer K) s) = data_params s"
    using granted_heap_init [OF assms(2)] init put
    by (simp_all add: init_data_buffer_def init_options_buffer_def h dev split_beta heap_init_data_params)
qed

lemma switch_to_clean:
  assumes "str_view s f \<noteq> None" and "str_view s FW_LINK_PATH \<noteq> None" and "str_view s C7_STATE_PATH \<noteq> None"
    and "read_contract K"
  shows "clean s (exec (switch_to K (get_str f)) s)"
proof -
  obtain fw link p where "str_view s f = Some fw" "str_view s FW_LINK_PATH = Some link" "str_view s C7_STATE_PATH = Some p"
    using assms(1-3) by blast
  then show ?thesis
    using preservesD [OF clean_switch_firmware [OF assms(4)], of s fw link p]
    by (simp add: switch_to_def split_beta run_c_string str_view_def)
qed

lemma load_mode_clean:
  assumes "u = exec (load_config K CFG_FILE_PATH) s"
  shows "exec (load_mode K) s = u\<lparr>current_mode := (if is_dsp_execution (app_config u) then EXEC_DSP else EXEC_ARM)\<rparr>"
  by (simp add: load_mode_def split_beta assms)

lemma switch_new_clean:
  assumes "strings_ok s" and "read_contract K"
  shows "clean s (exec (switch_new K) s)"
proof -
  have "preserves clean (emit (Ev_sleep 1))"
    by (intro clean_intros)
  then have "clean s (exec (emit (Ev_sleep 1)) (exec (switch_to K (get_str C7_NEW_FW_PATH)) s))"
    using switch_to_clean [OF _ _ _ assms(2)] assms(1) clean_trans preservesD unfolding strings_ok_def by metis
  then show ?thesis
    by (simp add: switch_new_def split_beta)
qed

lemma init_buffers_clean:
  fixes s :: "'w app_world_scheme"
  assumes "strings_ok s" and "grants K" and "is_int32 (c7_proc_id (app_config s))" and "is_int32 (k_getpid K)"
  shows "clean s (exec (init_buffers K) s) \<and> kern_addr (data_params (exec (init_buffers K) s)) \<notin> {0, MAP_FAILED} \<and>
    kern_addr (options_params (exec (init_buffers K) s)) \<notin> {0, MAP_FAILED}"
proof -
  define a where "a = exec (set_config (\<lambda>c. c\<lparr>data_buffer_size := int (FRAME_SIZE * NUM_FRAMES)\<rparr>)) s"
  have a: "clean s a" "is_int32 (c7_proc_id (app_config a))"
    using assms(3) by (auto simp: a_def set_config_def clean_def)
  define b where "b = (exec (init_rpmsg K (c7_proc_id (app_config a)) (remote_endpoint (app_config a))) a)
    \<lparr>rpmsg_fd := result (init_rpmsg K (c7_proc_id (app_config a)) (remote_endpoint (app_config a))) a\<rparr>"
  have "clean a b"
    using preservesD [OF clean_init_rpmsg [OF a(2) assms(4)], of a "remote_endpoint (app_config a)"]
    by (simp add: b_def clean_def)
  then have b: "clean s b" using a(1) clean_trans by blast
  define c where "c = exec (init_data_buffer K) b"
  have c: "clean s c" "kern_addr (data_params c) \<notin> {0, MAP_FAILED}"
    using init_buffer_clean(1) [OF strings_ok_clean [OF assms(1) b] assms(2)] clean_trans [OF b] by (auto simp: c_def)
  define d where "d = exec (init_options_buffer K) c"
  have d: "clean s d" "kern_addr (options_params d) \<notin> {0, MAP_FAILED}"
    using init_buffer_clean(2) [OF strings_ok_clean [OF assms(1) c(1)] assms(2)] clean_trans [OF c(1)] by (auto simp: d_def)
  have "data_params d = data_params c"
    using init_buffer_clean(3) [OF strings_ok_clean [OF assms(1) c(1)] assms(2)] by (simp add: d_def)
  moreover have "exec (init_buffers K) s = exec (init_rpmsg_buffer 0) d"
    by (simp add: init_buffers_def split_beta a_def b_def c_def d_def)
  moreover have "clean d (exec (init_rpmsg_buffer 0) d)"
    by (simp add: init_rpmsg_buffer_def clean_fields)
  ultimately show ?thesis
    using c(2) d clean_trans [OF d(1)] by (simp add: init_rpmsg_buffer_def)
qed

lemma init_host_clean:
  fixes s :: "'w app_world_scheme"
  assumes "strings_ok s" and "grants K"
  shows "clean s (exec (init_host_interface K) s) \<and> result (init_host_interface K) s = None"
proof (cases "is_host_eth_iface (app_config s)")
  case True
  define m where "m = do { _ \<leftarrow> init_log_interface K; _ \<leftarrow> init_cmd_interface K; _ \<leftarrow> init_indata_interface K;
    _ \<leftarrow> init_outdata_interface K; start_threads K :: ('w app_world_scheme, int option) state }"
  have "preserves clean m"
    unfolding m_def by (intro clean_intros clean_listeners)
  moreover have "run_state (init_host_interface K) s = run_state m s"
    using init_host_interface_eth [OF True] by (simp add: m_def split_beta)
  ultimately show ?thesis
    by (simp add: preserves_def m_def split_beta start_threads_adds(2))
next
  case False
  obtain dev where dev: "deref (heap s) (uart_device (app_config s)) = Some dev"
    using assms(1) [unfolded strings_ok_def, rule_format, of UART_DEVICE] by (auto simp: str_view_def)
  define fd where "fd = k_open K (trace s) dev [O_RDWR, O_NOCTTY]"
  obtain tty where tty: "k_tcgetattr K (trace s @ [Ev_open dev [O_RDWR, O_NOCTTY] fd]) fd = Some tty"
    using grantsD(6) [OF assms(2)] by fastforce
  define u where "u = s\<lparr>uart_fd := fd,
       trace := trace s @ [Ev_open dev [O_RDWR, O_NOCTTY] fd, Ev_tcgetattr fd (Some tty), Ev_tcsetattr fd (serial_settings tty)], isCmdConnected := True\<rparr>"
  have "run_state (init_host_interface K) s = run_state (start_threads K) u"
    using init_host_interface_uart [OF False dev fd_def tty] grantsD(1) [OF assms(2)] by (simp add: fd_def u_def not_less [symmetric])
  moreover have "clean s u" by (simp add: u_def clean_fields)
  ultimately show ?thesis
    using preservesD [OF clean_listeners(5)] clean_trans by (metis start_threads_adds(2))
qed

lemma init_filter_clean:
  assumes "current_mode s = EXEC_DSP \<Longrightarrow> mapped s (dspParams s)"
  shows "clean s (exec (init_filter K) s) \<and> filter_view (exec (init_filter K) s) = fft_filter_enable (app_config s)"
  using assms
  by (auto simp: init_filter_def sync_options_def store_filter_def run_simps filter_view_def mapped_def fd_simps intro: clean_fields)

text \<open>The start of the program owns what it points to.\<close>

lemma start_metrics_fields:
  "trace start_metrics = []" "fault start_metrics = None" "heap start_metrics = []" "app_config start_metrics = zero_config"
  "lineofs start_metrics = 0" "live_maps (trace start_metrics) = {#}" "kern_addr (data_params start_metrics) = 0"
  "kern_addr (options_params start_metrics) = 0" "start_requested start_metrics = START_PLAY"
  by (simp_all add: start_metrics_def zero_app_def zero_host_def zero_params_def host_world.extend_def
      app_world.extend_def live_maps_Nil)

lemma start_metrics_owned: "owned (start_metrics\<lparr>trace := tr\<rparr>)"
  using start_conf_owned by (simp add: owned_def start_conf_def start_metrics_fields)

lemma start_load:
  "fault (exec (load_config K f) start_metrics) = None" "lineofs (exec (load_config K f) start_metrics) = 0"
proof -
  show "fault (exec (load_config K f) start_metrics) = None"
    using process_lines_memory [OF start_metrics_owned]
    by (simp add: load_config_def run_simps split_beta start_metrics_fields split: option.split)
  have "lineofs (exec (load_config K f) s) = lineofs s" for s :: metrics_world
    using preservesD [OF mild_load_config, of s K f] by (simp add: mild_def)
  then show "lineofs (exec (load_config K f) start_metrics) = 0"
    by (simp add: start_metrics_fields)
qed

text \<open>The set-up, started in a state that owns its strings.\<close>

lemma main_setup_clean:
  assumes "read_contract K" and "grants K" and "is_int32 (k_getpid K)"
    and t: "t = exec (load_config K CFG_FILE_PATH) start_metrics" and "strings_ok t" and "is_int32 (c7_proc_id (app_config t))"
    and run: "run_state (main_setup K) start_metrics = (r, w)"
  shows "r = None \<and> fault w = None \<and> current_mode w = (if is_dsp_execution (app_config t) then EXEC_DSP else EXEC_ARM) \<and>
    (\<exists>n. app_config w = (app_config t)\<lparr>data_buffer_size := n\<rparr>) \<and> heap w = heap t \<and> lineofs w = 0 \<and>
    mapped w (lb_data_buf (lbuf w)) \<and> mapped w (dspParams w) \<and> filter_view w = fft_filter_enable (app_config t)"
proof -
  define mode where "mode = (if is_dsp_execution (app_config t) then EXEC_DSP else EXEC_ARM)"
  define a where "a = exec (switch_new K) (exec (load_mode K) start_metrics)"
  have strings: "strings_ok (t\<lparr>current_mode := mode\<rparr>)"
    using assms(5) by (simp add: strings_ok_def str_view_def)
  have a: "clean (t\<lparr>current_mode := mode\<rparr>) a"
    unfolding a_def mode_def load_mode_clean [OF t]
    by (rule switch_new_clean [OF strings [unfolded mode_def] assms(1)])
  have "is_int32 (c7_proc_id (app_config a))"
    using a assms(6) by (auto simp: clean_def)
  note buffers = init_buffers_clean [OF strings_ok_clean [OF strings a] assms(2) this assms(3)]
  define b where "b = exec (init_buffers K) a"
  have b: "clean (t\<lparr>current_mode := mode\<rparr>) b" "kern_addr (data_params b) \<notin> {0, MAP_FAILED}" "kern_addr (options_params b) \<notin> {0, MAP_FAILED}"
    using buffers clean_trans [OF a] by (auto simp: b_def)
  have "stays start_metrics a"
    unfolding a_def
    by (rule stays_trans [OF preservesD [OF stays_load_mode] preservesD [OF stays_of_mild [OF mild_switch_new]]])
  then have "bufs_ok b"
    using init_buffers_ok [OF b_def] start_metrics_fields by (simp add: stays_def)
  define c where "c = exec (init_host_interface K) b"
  have c: "clean (t\<lparr>current_mode := mode\<rparr>) c" "result (init_host_interface K) b = None"
    using init_host_clean [OF strings_ok_clean [OF strings b(1)] assms(2)] clean_trans [OF b(1)] by (auto simp: c_def)
  have "stays b c"
    unfolding c_def by (rule preservesD [OF stays_of_mild [OF mild_init_host]])
  then have c_bufs: "bufs_ok c" "kern_addr (data_params c) \<notin> {0, MAP_FAILED}" "kern_addr (options_params c) \<notin> {0, MAP_FAILED}"
    using bufs_ok_stays [OF \<open>bufs_ok b\<close>] b(2,3) by (simp_all add: stays_def)
  then have valid: "mapped c (lb_data_buf (lbuf c))" "mapped c (dspParams c)"
    by (auto simp: bufs_ok_def)
  have final: "r = None" "w = exec (init_filter K) c"
    using run c(2) by (simp_all add: main_setup_def a_def b_def c_def split_beta)
  have "stays c w"
    unfolding final(2) by (rule preservesD [OF stays_init_filter])
  then have "mapped w (lb_data_buf (lbuf w)) \<and> mapped w (dspParams w)"
    using valid by (simp add: stays_def mapped_def)
  moreover have "clean c w" "filter_view w = fft_filter_enable (app_config c)"
    using init_filter_clean [of c K] valid(2) by (simp_all add: final(2))
  moreover have "clean (t\<lparr>current_mode := mode\<rparr>) w" using c(1) \<open>clean c w\<close> by (rule clean_trans)
  ultimately show ?thesis
    using final(1) c(1) start_load [of K CFG_FILE_PATH] by (auto simp: clean_def mode_def t)
qed

subsection \<open>The set-up without a configuration\<close>

lemma heap_init_fault: "fault (exec (dmabuf_heap_init K h n dev p) s) = fault s"
  by (auto simp: dmabuf_heap_init_def run_simps split: prod.splits)

lemma c_string_sticky: "fault s \<noteq> None \<Longrightarrow> fault (exec (c_string p) s) \<noteq> None"
  by (simp add: run_c_string split: option.split)

lemma init_options_sticky: "fault s \<noteq> None \<Longrightarrow> fault (exec (init_options_buffer K) s) \<noteq> None"
  by (simp add: init_options_buffer_def split_beta heap_init_fault c_string_sticky del: not_None_eq)

lemma init_data_null:
  assumes "dma_heap_reserved (app_config s) = 0"
  shows "fault (exec (init_data_buffer K) s) \<noteq> None"
proof -
  have "fault (exec (c_string 0) s) \<noteq> None"
    by (simp add: run_c_string deref_def live_block_def)
  then show ?thesis
    by (simp add: init_data_buffer_def split_beta heap_init_fault assms c_string_sticky del: not_None_eq)
qed

lemma init_filter_sticky: "fault s \<noteq> None \<Longrightarrow> fault (exec (init_filter K) s) \<noteq> None"
  by (simp add: init_filter_def sync_options_def store_filter_def run_simps)

lemma init_rpmsg_config: "app_config (exec (init_rpmsg K i ep) s) = app_config s"
  by (simp add: init_rpmsg_def run_simps split: option.split)

subsection \<open>A configuration and a system\<close>

definition demo_config :: string where
  "demo_config = concat (map (\<lambda>l. l @ [NL])
     [''DSP_EXEC_MODE=1'', ''HOST_ETH_INTERFACE=1'', ''C7_PROC_ID=8'', ''PCM_DEVICE=default'', ''UART_DEVICE=/dev/ttyS2'',
      ''RPROC_DEV_NAME=/dev/remoteproc0'', ''DMA_HEAP_RESERVED=linux,cma'', ''SAMPLE_AUDIO_FILE=/opt/sample.wav'',
      ''FW_LINK_PATH=/lib/firmware/fw'', ''C7_OLD_FW_PATH=/lib/firmware/old'', ''C7_NEW_FW_PATH=/lib/firmware/new'',
      ''C7_STATE_PATH=/sys/class/remoteproc/remoteproc0/state''])"

text \<open>The client sends a filter command; creating the audio thread returns \<open>r\<close>.\<close>

definition demo_kernel :: "int \<Rightarrow> kernel" where
  "demo_kernel r = sample_kernel\<lparr>k_open := \<lambda>tr path flags. 7, k_fopen_r := \<lambda>tr path. Some demo_config,
     k_read := \<lambda>tr fd n. (let bs = take n (if fd = 50 then ''SET FFT FILTER 1'' @ [NL] else ''offline'' @ [NL]) in (int (length bs), bs)),
     k_accept := \<lambda>tr fd. 50,
     k_thread := \<lambda>tr th. if th = Thread_audio then r else 0\<rparr>"

lemma demo_settings: "settings (fgets_all 254 demo_config) =
    [(''DSP_EXEC_MODE'', ''1''), (''HOST_ETH_INTERFACE'', ''1''), (''C7_PROC_ID'', ''8''), (''PCM_DEVICE'', ''default''),
     (''UART_DEVICE'', ''/dev/ttyS2''), (''RPROC_DEV_NAME'', ''/dev/remoteproc0''), (''DMA_HEAP_RESERVED'', ''linux,cma''),
     (''SAMPLE_AUDIO_FILE'', ''/opt/sample.wav''), (''FW_LINK_PATH'', ''/lib/firmware/fw''), (''C7_OLD_FW_PATH'', ''/lib/firmware/old''),
     (''C7_NEW_FW_PATH'', ''/lib/firmware/new''), (''C7_STATE_PATH'', ''/sys/class/remoteproc/remoteproc0/state'')]"
  by code_simp

lemma demo_kernel_ok: "read_contract (demo_kernel r)" "grants (demo_kernel r)" "is_int32 (k_getpid (demo_kernel r))"
    "k_malloc_ok (demo_kernel r) b n" "k_fopen_r (demo_kernel r) tr p = Some demo_config"
  by (simp_all add: read_contract_def grants_def demo_kernel_def sample_kernel_def Let_def MAP_FAILED_def)

lemma demo_load:
  fixes r :: int
  defines "t \<equiv> exec (load_config (demo_kernel r) CFG_FILE_PATH) start_metrics"
  shows "strings_ok t" "c7_proc_id (app_config t) = 8" "is_dsp_execution (app_config t)" "is_host_eth_iface (app_config t)"
proof -
  have t: "heap t = heap (exec (process_lines (demo_kernel r) (fgets_all 254 demo_config))
        (start_metrics\<lparr>trace := [Ev_fopen_r CFG_FILE_PATH (Some demo_config)]\<rparr>))"
    "app_config t = app_config (exec (process_lines (demo_kernel r) (fgets_all 254 demo_config))
        (start_metrics\<lparr>trace := [Ev_fopen_r CFG_FILE_PATH (Some demo_config)]\<rparr>))"
    by (simp_all add: t_def load_config_def fopen_r_def run_emit start_metrics_fields demo_kernel_ok split_beta)
  note views = process_lines_views [OF start_metrics_owned [of "[Ev_fopen_r CFG_FILE_PATH (Some demo_config)]"] demo_kernel_ok(4),
    where ls = "fgets_all 254 demo_config", unfolded demo_settings]
  have nums: "num_of DSP_EXEC_MODE ''1'' = 1" "num_of HOST_ETH_INTERFACE ''1'' = 1" "num_of C7_PROC_ID ''8'' = 8"
    by code_simp+
  have "str_view t f \<noteq> None" for f
    using views [where f = f] by (cases f) (simp_all add: str_view_def t)
  then show "strings_ok t" by (simp add: strings_ok_def)
  show "c7_proc_id (app_config t) = 8" using views [where n = C7_PROC_ID] by (simp add: num_view_def t nums)
  show "is_dsp_execution (app_config t)" using views [where n = DSP_EXEC_MODE] by (simp add: num_view_def t nums)
  show "is_host_eth_iface (app_config t)" using views [where n = HOST_ETH_INTERFACE] by (simp add: num_view_def t nums)
qed

subsection \<open>Properties\<close>

text \<open>
  C2: the set-up is safe in a complete configuration. When the file sets all nine strings, memory
  suffices, and the system opens, allocates, attaches and maps what it is asked to, everything
  \<open>main\<close> does before its loop (parse the file, switch the firmware, open the endpoint, allocate and
  map both buffers, start the host interface and its threads, set the filter) runs without
  undefined behaviour and without an early exit, and ends with both pointers into mapped buffers,
  the mode the file asks for and the filter as configured.
\<close>
theorem main_setup_safe:
  assumes "read_contract K" and "grants K" and "is_int32 (k_getpid K)"
    and "t = exec (load_config K CFG_FILE_PATH) start_metrics" and "\<And>f. str_view t f \<noteq> None" and "is_int32 (num_view t C7_PROC_ID)"
    and "run_state (main_setup K) start_metrics = (r, w)"
  shows "r = None \<and> fault w = None \<and> current_mode w = (if is_dsp_execution (app_config t) then EXEC_DSP else EXEC_ARM) \<and>
    mapped w (lb_data_buf (lbuf w)) \<and> mapped w (dspParams w) \<and> filter_view w = fft_filter_enable (app_config t)"
proof -
  have "strings_ok t" using assms(5) by (simp add: strings_ok_def)
  moreover have "is_int32 (c7_proc_id (app_config t))" using assms(6) by (simp add: num_view_def)
  ultimately show ?thesis
    using main_setup_clean [OF assms(1-4) _ _ assms(7)] by blast
qed

theorem main_setup_safe_witness:
  "fault (exec (main_setup (demo_kernel 0)) start_metrics) = None \<and> current_mode (exec (main_setup (demo_kernel 0)) start_metrics) = EXEC_DSP"
proof -
  let ?t = "exec (load_config (demo_kernel 0) CFG_FILE_PATH) start_metrics"
  obtain r w where run: "run_state (main_setup (demo_kernel 0)) start_metrics = (r, w)" by fastforce
  have "str_view ?t f \<noteq> None" for f using demo_load(1) by (simp add: strings_ok_def)
  moreover have "is_int32 (num_view ?t C7_PROC_ID)" using demo_load(2) by (simp add: num_view_def)
  ultimately show ?thesis
    using main_setup_safe [OF demo_kernel_ok(1-3) refl _ _ run] demo_load(3) by (simp add: run)
qed

text \<open>
  C22: without a configuration file the program runs into undefined behaviour before its loop,
  whatever the system answers: \<open>main\<close> does not call \<open>init_config_defaults\<close>, so the strings are
  still NULL when the names of the DMA heap and of the device are used.
\<close>
theorem main_setup_without_config:
  assumes "k_fopen_r K [] CFG_FILE_PATH = None"
  shows "fault (exec (main_setup K) start_metrics) \<noteq> None"
proof -
  define a where "a = exec (switch_new K) (exec (load_mode K) start_metrics)"
  have "\<not> is_dsp_execution zero_config" "dma_heap_reserved zero_config = 0" by (simp_all add: zero_config_def)
  then have a: "dma_heap_reserved (app_config a) = 0"
    by (simp add: a_def load_mode_def switch_new_def load_config_def fopen_r_def run_emit start_metrics_fields assms)
  define b where "b = exec (init_buffers K) a"
  have b: "fault b \<noteq> None"
    using a by (simp add: b_def init_buffers_def init_rpmsg_buffer_def split_beta set_config_def init_rpmsg_config
      init_options_sticky init_data_null del: not_None_eq)
  define c where "c = exec (init_host_interface K) b"
  have c: "fault c \<noteq> None"
    using preservesD [OF mild_init_host, of b K] b by (simp add: c_def mild_def)
  have "exec (main_setup K) start_metrics = (if result (init_host_interface K) b = None then exec (init_filter K) c else c)"
    by (simp add: main_setup_def a_def b_def c_def split_beta split: option.split)
  then show ?thesis using c init_filter_sticky [OF c] by simp
qed

theorem main_setup_without_config_witness:
  "fault (exec (main_setup (sample_kernel\<lparr>k_fopen_r := \<lambda>tr path. None\<rparr>)) start_metrics) \<noteq> None"
  by (rule main_setup_without_config) simp

end
