(* ===== verification/App_Run.thy ===== *)
theory App_Run
  imports App_Setup
begin

text \<open>
  What holds in every state the interleaved program reaches: the agreement of the main thread
  and the audio thread through \<open>start_requested\<close>, the life of the two buffers, and what happens
  to an access after the buffers are gone.
\<close>

subsection \<open>The invariant\<close>

definition app_inv :: "system \<Rightarrow> bool" where
  "app_inv s \<longleftrightarrow> audio_threads (glob s) = (if audio s = Not_created then 0 else 1) \<and>
     (main_pc s = Loading \<longrightarrow> glob s = start_metrics) \<and>
     (main_pc s < Polling \<longrightarrow> audio s = Not_created) \<and>
     (main_pc s \<in> {Switching, Allocating} \<longrightarrow> live_maps (trace (glob s)) = {#} \<and>
        kern_addr (data_params (glob s)) = 0 \<and> kern_addr (options_params (glob s)) = 0) \<and>
     (main_pc s \<le> Polling \<and> audio s = Not_created \<longrightarrow> start_requested (glob s) = START_PLAY) \<and>
     (main_pc s \<noteq> Exited \<and> audio_active s \<longrightarrow> main_pc s = Polling \<and> start_requested (glob s) = STOP_PLAY) \<and>
     (main_pc s \<noteq> Exited \<and> audio s = Ended \<longrightarrow> start_requested (glob s) = EXIT_PLAY) \<and>
     (main_pc s \<in> {Connecting, Filtering, Polling, Left_loop} \<longrightarrow> bufs_ok (glob s)) \<and>
     (main_pc s \<in> {Destroyed, Reverted, Freed} \<longrightarrow> live_maps (trace (glob s)) = {#})"

lemmas phase_simps = less_phase_def less_eq_phase_def

lemma phase_order [simp]:
  "\<not> Exited \<le> Polling" "\<not> Exited < Polling" "\<not> Destroyed \<le> Polling" "\<not> Destroyed < Polling"
  "\<not> Left_loop \<le> Polling" "\<not> Left_loop < Polling" "\<not> Reverted \<le> Polling" "\<not> Reverted < Polling"
  "\<not> Freed \<le> Polling" "\<not> Freed < Polling"
  "threads_run Filtering" "threads_run Polling" "threads_run Left_loop" "threads_run Destroyed" "threads_run Reverted" "threads_run Freed"
  by (simp_all add: phase_simps threads_run_def)

lemma app_inv_start: "app_inv start_system"
  by (simp add: app_inv_def start_system_def audio_active_def start_metrics_fields)

text \<open>A step of \<open>main\<close> before its loop.\<close>

lemma app_inv_main:
  assumes "app_inv s" and "main_pc s < Polling" and "p \<in> {Switching, Allocating, Connecting, Filtering, Polling, Exited}"
    and "start_requested w = start_requested (glob s)" and "audio_threads w = audio_threads (glob s)"
    and "p \<in> {Switching, Allocating} \<Longrightarrow> live_maps (trace w) = {#} \<and> kern_addr (data_params w) = 0 \<and> kern_addr (options_params w) = 0"
    and "p \<in> {Connecting, Filtering, Polling} \<Longrightarrow> bufs_ok w"
  shows "app_inv (s\<lparr>glob := w, main_pc := p\<rparr>)" "app_inv (s\<lparr>glob := w, main_pc := p, input_file := f\<rparr>)"
proof -
  note inv = assms(1) [unfolded app_inv_def]
  have fields: "audio s = Not_created" "start_requested w = START_PLAY" "audio_threads w = 0"
    using inv assms(2,4,5) by (simp_all add: phase_simps)
  show "app_inv (s\<lparr>glob := w, main_pc := p\<rparr>)" "app_inv (s\<lparr>glob := w, main_pc := p, input_file := f\<rparr>)"
    unfolding app_inv_def audio_active_def using assms(3,6,7) fields by (cases p; simp)+
qed

lemma app_inv_transfer:
  assumes "app_inv s" and "main_pc t = main_pc s" and "audio t = audio s" and "main_pc s \<notin> {Loading, Switching, Allocating}"
    and "start_requested (glob t) = start_requested (glob s)" and "live_maps (trace (glob t)) = live_maps (trace (glob s))"
    and "audio_threads (glob t) = audio_threads (glob s)" and "bufs_ok (glob s) \<Longrightarrow> bufs_ok (glob t)"
  shows "app_inv t"
proof -
  note inv = assms(1) [unfolded app_inv_def]
  have "main_pc s \<in> {Connecting, Filtering, Polling, Left_loop} \<longrightarrow> bufs_ok (glob t)"
    using inv assms(8) by blast
  then show ?thesis
    unfolding app_inv_def audio_active_def assms(2,3,5-7)
    using inv [unfolded audio_active_def] assms(4) by blast
qed

lemma app_inv_stays:
  assumes "app_inv s" and "threads_run (main_pc s)" and "stays (glob s) w"
  shows "app_inv (s\<lparr>glob := w\<rparr>)" "app_inv (s\<lparr>glob := w, cmd := pc\<rparr>)"
proof -
  have phase: "main_pc s \<notin> {Loading, Switching, Allocating}" using assms(2) by (auto simp: threads_run_def phase_simps)
  have w: "start_requested w = start_requested (glob s)" "live_maps (trace w) = live_maps (trace (glob s))"
      "audio_threads w = audio_threads (glob s)" "bufs_ok (glob s) \<Longrightarrow> bufs_ok w"
    using assms(3) bufs_ok_stays [of "glob s" w] by (simp_all add: stays_def)
  show "app_inv (s\<lparr>glob := w\<rparr>)" "app_inv (s\<lparr>glob := w, cmd := pc\<rparr>)"
    by (rule app_inv_transfer [OF assms(1)]; use phase w in simp)+
qed

lemma app_inv_audio:
  assumes "app_inv s" and "main_pc s \<noteq> Exited" and "audio_active s" and "pc \<noteq> Not_created"
    and "stays (glob s) (w\<lparr>start_requested := start_requested (glob s)\<rparr>)"
    and "start_requested w = (if pc = Ended then EXIT_PLAY else start_requested (glob s))"
  shows "app_inv (s\<lparr>glob := w, audio := pc\<rparr>)"
proof -
  have created: "audio s \<noteq> Not_created" using assms(3) by (simp add: audio_active_def)
  note inv = assms(1) [unfolded app_inv_def]
  have active: "main_pc s = Polling" "start_requested (glob s) = STOP_PLAY"
    using inv assms(2,3) by blast+
  moreover have "bufs_ok (glob s)" using inv active(1) by blast
  moreover have "audio_threads (glob s) = 1" using inv created by presburger
  ultimately have polling: "main_pc s = Polling" "start_requested (glob s) = STOP_PLAY" "bufs_ok (glob s)" "audio_threads (glob s) = 1"
    by blast+
  have "bufs_ok (w\<lparr>start_requested := start_requested (glob s)\<rparr>)"
    using bufs_ok_stays [OF polling(3) assms(5)] .
  then have "bufs_ok w" by (simp add: bufs_ok_def mapped_def)
  moreover have "audio_threads w = 1"
    using assms(5) polling(4) by (simp add: stays_def)
  ultimately show ?thesis
    using polling assms(4,6) by (cases pc) (simp_all add: app_inv_def audio_active_def)
qed

lemma audio_start_ok:
  assumes "run_state (audio_start D p) s = (pc, w)"
  shows "pc \<noteq> Not_created \<and> stays s (w\<lparr>start_requested := start_requested s\<rparr>) \<and>
    start_requested w = (if pc = Ended then EXIT_PLAY else start_requested s)"
proof -
  obtain f u where read: "run_state (c_string p) s = (f, u)" by fastforce
  have "stays s u"
    using mild_c_string [of p] read by (metis preserves_def mild_stays snd_conv)
  moreover have "(pc, w) = (if result (audio_open D f) u then Looping (0, zero_metrics) else Ended, exec (audio_open D f) u)"
    using assms read by (simp add: audio_start_def split_beta)
  moreover have "stays u ((exec (audio_open D f) u)\<lparr>start_requested := start_requested u\<rparr>)"
    by (auto simp: audio_open_def request_def run_simps stays_def live_maps_append split: option.split prod.split)
  ultimately show ?thesis
    using audio_open_cases [of D f u] by (auto simp: stays_def)
qed

lemma audio_close_ok:
  "stays s ((exec audio_close s)\<lparr>start_requested := start_requested s\<rparr>) \<and> start_requested (exec audio_close s) = EXIT_PLAY"
  by (simp add: audio_close_def request_def device_defs run_emit stays_def live_maps_append)

lemma main_turn_run:
  "run_state (main_turn K) s =
     (if start_requested s = START_PLAY
      then (let st = k_thread K (trace s) Thread_audio
            in (st \<noteq> 0, s\<lparr>start_requested := STOP_PLAY, trace := trace s @ [Ev_thread Thread_audio st]\<rparr>))
      else if start_requested s = EXIT_PLAY then (True, s)
      else (False, s\<lparr>trace := trace s @ [Ev_sleep 2]\<rparr>))"
  by (simp add: main_turn_def request_def pthread_create_def run_emit Let_def)

lemma app_inv_turn:
  assumes inv: "app_inv s" and polling: "main_pc s = Polling" and run: "run_state (main_turn K) (glob s) = (left, w)"
  shows "app_inv (s\<lparr>glob := w, main_pc := (if left then Left_loop else Polling),
    audio := (if start_requested (glob s) = START_PLAY \<and> \<not> left then Opening else audio s)\<rparr>)"
proof -
  note inv = inv [unfolded app_inv_def]
  have ok: "bufs_ok (glob s)" and not_exited: "main_pc s \<noteq> Exited" using inv polling by simp_all
  show ?thesis
  proof (cases "start_requested (glob s)")
    case START_PLAY
    then have new: "audio s = Not_created"
      using inv not_exited by (metis audio_active_def insert_iff play_state.distinct singletonD)
    have w: "w = (glob s)\<lparr>start_requested := STOP_PLAY, trace := trace (glob s) @ [Ev_thread Thread_audio (k_thread K (trace (glob s)) Thread_audio)]\<rparr>"
        "left \<longleftrightarrow> k_thread K (trace (glob s)) Thread_audio \<noteq> 0"
      using run START_PLAY by (auto simp: main_turn_run Let_def)
    have "bufs_ok w" using ok by (simp add: w(1) bufs_ok_def mapped_def live_maps_append)
    moreover have "audio_threads w = (if left then 0 else 1)"
      using inv new by (simp add: w)
    ultimately show ?thesis
      using START_PLAY new by (simp add: app_inv_def audio_active_def w phase_simps)
  next
    case STOP_PLAY
    then have w: "w = (glob s)\<lparr>trace := trace (glob s) @ [Ev_sleep 2]\<rparr>" "\<not> left"
      using run by (auto simp: main_turn_run)
    have same: "s\<lparr>glob := w, main_pc := Polling\<rparr> = s\<lparr>glob := w\<rparr>"
      using polling by (cases s) simp
    have "stays (glob s) w" by (simp add: w stays_def live_maps_append)
    then have "app_inv (s\<lparr>glob := w, main_pc := Polling\<rparr>)"
      unfolding same by (intro app_inv_stays(1) [OF assms(1)]) (simp_all add: polling)
    then show ?thesis using STOP_PLAY w(2) by simp
  next
    case EXIT_PLAY
    then have w: "w = glob s" left
      using run by (auto simp: main_turn_run)
    have "\<not> audio_active s" "audio s \<noteq> Not_created" using inv EXIT_PLAY not_exited polling by auto
    then show ?thesis
      using EXIT_PLAY ok inv not_exited by (simp add: app_inv_def audio_active_def w phase_simps)
  qed
qed

lemma mild_end [mild_intros]:
  "preserves mild cleanup_config" "preserves mild (revert_firmware K)" "preserves mild (handle_sigint K)"
proof -
  show free: "preserves mild cleanup_config"
    unfolding cleanup_config_def free_ptr_def set_config_def by (intro mild_intros mild_update; simp add: mild_def)
  show "preserves mild (revert_firmware K)" "preserves mild (handle_sigint K)"
    unfolding revert_firmware_def handle_sigint_def by (intro mild_intros free)+
qed

text \<open>A step of \<open>main\<close> behind its loop.\<close>

lemma app_inv_end:
  assumes "app_inv s" and "main_pc s \<in> {Destroyed, Reverted}" and "p \<in> {Reverted, Freed}" and "mild (glob s) w"
  shows "app_inv (s\<lparr>glob := w, main_pc := p\<rparr>)"
proof -
  note inv = assms(1) [unfolded app_inv_def]
  have "stays (glob s) w" using assms(4) by (rule mild_stays)
  then have w: "start_requested w = start_requested (glob s)" "live_maps (trace w) = live_maps (trace (glob s))"
      "audio_threads w = audio_threads (glob s)"
    by (simp_all add: stays_def)
  have "main_pc s \<noteq> Exited" "main_pc s \<noteq> Polling" using assms(2) by auto
  then have "\<not> audio_active s" "audio s = Ended \<Longrightarrow> start_requested (glob s) = EXIT_PLAY" "live_maps (trace (glob s)) = {#}"
      "audio_threads (glob s) = (if audio s = Not_created then 0 else 1)"
    using inv assms(2) by blast+
  then show ?thesis
    using assms(3) by (elim insertE emptyE; simp add: app_inv_def audio_active_def w)
qed

lemma app_inv_step:
  assumes "app_step K D s t" and inv: "app_inv s"
  shows "app_inv t"
  using assms(1)
proof cases
  case (do_load w)
  have start: "glob s = start_metrics" using inv do_load(2) by (simp add: app_inv_def)
  have "stays start_metrics w"
    unfolding do_load(3) start by (rule preservesD [OF stays_load_mode])
  then show ?thesis
    unfolding do_load(1) using inv do_load(2) start start_metrics_fields
    by (intro app_inv_main) (simp_all add: phase_simps stays_def)
next
  case do_switch
  have "stays (glob s) (exec (switch_new K) (glob s))"
    by (rule preservesD [OF stays_of_mild [OF mild_switch_new]])
  then show ?thesis
    unfolding do_switch(1) using inv do_switch(2)
    by (intro app_inv_main) (auto simp: phase_simps stays_def app_inv_def)
next
  case do_allocate
  note now = inv [unfolded app_inv_def]
  have "bufs_ok (exec (init_buffers K) (glob s)) \<and> start_requested (exec (init_buffers K) (glob s)) = start_requested (glob s) \<and>
      audio_threads (exec (init_buffers K) (glob s)) = audio_threads (glob s)"
    by (rule init_buffers_ok [OF refl]) (use now do_allocate(2) in simp_all)
  then show ?thesis
    unfolding do_allocate(1) using inv do_allocate(2) by (intro app_inv_main) (simp_all add: phase_simps)
next
  case (do_connect r w)
  have "stays (glob s) w"
    using preservesD [OF stays_of_mild [OF mild_init_host], of "glob s" K] do_connect(3) by simp
  moreover have "bufs_ok (glob s)" using inv do_connect(2) by (simp add: app_inv_def)
  ultimately show ?thesis
    unfolding do_connect(1) using inv do_connect(2) bufs_ok_stays
    by (intro app_inv_main) (auto simp: phase_simps stays_def split: option.splits)
next
  case do_filter
  have "stays (glob s) (exec (init_filter K) (glob s))"
    by (rule preservesD [OF stays_init_filter])
  moreover have "bufs_ok (glob s)" using inv do_filter(2) by (simp add: app_inv_def)
  ultimately show ?thesis
    unfolding do_filter(1) using inv do_filter(2) bufs_ok_stays
    by (intro app_inv_main) (auto simp: phase_simps stays_def)
next
  case (do_turn left w)
  show ?thesis unfolding do_turn(1) by (rule app_inv_turn [OF inv do_turn(2,3)])
next
  case do_destroy
  note now = inv [unfolded app_inv_def]
  have "bufs_ok (glob s)" using now do_destroy(2) by simp
  then have "live_maps (trace (glob s)) - {#kern_addr (data_params (glob s)), kern_addr (options_params (glob s))#} = {#}"
    by (simp only: bufs_ok_def Diff_eq_empty_iff_mset)
  then have "live_maps (trace (exec main_destroy (glob s))) = {#}"
    by (simp add: stays_main_destroy live_maps_append add_mset_commute)
  moreover have "audio_threads (exec main_destroy (glob s)) = audio_threads (glob s)"
      "start_requested (exec main_destroy (glob s)) = start_requested (glob s)"
    by (simp_all add: stays_main_destroy)
  ultimately show ?thesis
    using now do_destroy(2) by (simp add: do_destroy(1) app_inv_def audio_active_def phase_simps)
next
  case do_revert
  show ?thesis
    unfolding do_revert(1) using inv do_revert(2) by (intro app_inv_end preservesD [OF mild_end(2)]) simp_all
next
  case do_free
  show ?thesis
    unfolding do_free(1) using inv do_free(2) by (intro app_inv_end preservesD [OF mild_end(1)]) simp_all
next
  case do_exit
  then show ?thesis using inv by (simp add: app_inv_def)
next
  case do_sigint
  have "audio_threads (exec (handle_sigint K) (glob s)) = audio_threads (glob s)"
    using preservesD [OF mild_end(3), of "glob s" K] by (simp add: mild_def)
  then show ?thesis using inv by (simp add: do_sigint(1) app_inv_def)
next
  case (audio_begin pc w)
  show ?thesis
    unfolding audio_begin(1) using audio_start_ok [OF audio_begin(4)] inv audio_begin(2,3)
    by (intro app_inv_audio) (simp_all add: audio_active_def)
next
  case (audio_block fm r w)
  have "stays (glob s) w"
    using stays_audio_turn [of K D fm] audio_block(4) by (metis preserves_def snd_conv)
  then show ?thesis
    unfolding audio_block(1) using inv audio_block(2,3)
    by (intro app_inv_audio) (auto simp: audio_active_def stays_def split: option.split)
next
  case audio_end
  show ?thesis
    unfolding audio_end(1) using audio_close_ok [of "glob s"] inv audio_end(2,3)
    by (intro app_inv_audio) (simp_all add: audio_active_def)
next
  case do_log
  show ?thesis
    unfolding do_log(1) by (intro app_inv_stays(1) [OF inv do_log(2)] preservesD [OF stays_of_mild [OF mild_log_step]])
next
  case (do_client th)
  show ?thesis
    unfolding do_client(1) by (intro app_inv_stays(1) [OF inv do_client(2)] preservesD [OF stays_of_mild [OF mild_client_step]])
next
  case (cmd_begin pc w)
  have "stays (glob s) w"
    using preservesD [OF stays_cmd_start, of "glob s"] cmd_begin(4) by simp
  then show ?thesis
    unfolding cmd_begin(1) by (rule app_inv_stays(2) [OF inv cmd_begin(2)])
next
  case (cmd_turn fd tv pc w)
  have "stays (glob s) w"
    using preservesD [OF stays_cmd_step, of "glob s" K fd tv] cmd_turn(4) by simp
  then show ?thesis
    unfolding cmd_turn(1) by (rule app_inv_stays(2) [OF inv cmd_turn(2)])
qed

lemma reachable_inv: "reachable K D s \<Longrightarrow> app_inv s"
  by (induction rule: reachable.induct) (simp_all add: app_inv_start app_inv_step)

subsection \<open>A run\<close>

text \<open>The program with a complete configuration, up to the loop of \<open>main\<close>.\<close>

lemma demo_polling:
  obtains w f where "reachable (demo_kernel r) D (\<lparr>glob = w, main_pc = Polling, audio = Not_created, cmd = Cmd_waiting,
      input_file = f\<rparr>)"
    "fault w = None" "current_mode w = EXEC_DSP" "lineofs w = 0" "is_host_eth_iface (app_config w)"
proof -
  let ?K = "demo_kernel r"
  let ?t = "exec (load_config (demo_kernel r) CFG_FILE_PATH) start_metrics"
  obtain x w where run: "run_state (main_setup (demo_kernel r)) start_metrics = (x, w)" by fastforce
  note load = demo_load [of r]
  have "is_int32 (c7_proc_id (app_config ?t))" using load(2) by simp
  from main_setup_clean [OF demo_kernel_ok(1-3) refl load(1) this run] load(3,4)
  have w: "x = None" "fault w = None" "current_mode w = EXEC_DSP" "lineofs w = 0" "is_host_eth_iface (app_config w)"
    by auto
  define l where "l = exec (load_mode ?K) start_metrics"
  define a where "a = exec (switch_new ?K) l"
  define b where "b = exec (init_buffers ?K) a"
  define c where "c = exec (init_host_interface ?K) b"
  have host: "run_state (init_host_interface ?K) b = (None, c)" and "w = exec (init_filter ?K) c"
    using run w(1) by (auto simp: main_setup_def split_beta l_def a_def b_def c_def prod_eq_iff split: option.splits)
  let ?s = "\<lambda>p g. \<lparr>glob = g, main_pc = p, audio = Not_created, cmd = Cmd_waiting, input_file = sample_audio_file (app_config l)\<rparr>"
  have "app_step ?K D start_system (?s Switching l)"
    using do_load [of start_system l ?K D] by (simp add: l_def start_system_def)
  moreover have "app_step ?K D (?s Switching l) (?s Allocating a)"
    using do_switch [of "?s Switching l" ?K D] by (simp add: a_def)
  moreover have "app_step ?K D (?s Allocating a) (?s Connecting b)"
    using do_allocate [of "?s Allocating a" ?K D] by (simp add: b_def)
  moreover have "app_step ?K D (?s Connecting b) (?s Filtering c)"
    using do_connect [of "?s Connecting b" ?K None c D] host by simp
  moreover have "app_step ?K D (?s Filtering c) (?s Polling w)"
    using do_filter [of "?s Filtering c" ?K D] by (simp add: \<open>w = exec (init_filter ?K) c\<close>)
  ultimately have "reachable ?K D (?s Polling w)"
    using reachable.step reachable.initial by meson
  then show thesis by (rule that) (use w(2-) in simp_all)
qed

lemma demo_playing:
  obtains s where "reachable (demo_kernel 0) D s" "main_pc s = Polling" "audio s = Opening"
proof -
  obtain w f where w: "reachable (demo_kernel 0) D (\<lparr>glob = w, main_pc = Polling, audio = Not_created, cmd = Cmd_waiting,
      input_file = f\<rparr>)" (is "reachable _ _ ?s")
    by (rule demo_polling)
  then have "start_requested w = START_PLAY" using reachable_inv [OF w] by (simp add: app_inv_def)
  then have "app_step (demo_kernel 0) D ?s (?s\<lparr>glob := exec (main_turn (demo_kernel 0)) w, audio := Opening\<rparr>)"
    using do_turn [of ?s "demo_kernel 0" False "exec (main_turn (demo_kernel 0)) w" D]
    by (simp add: main_turn_run Let_def demo_kernel_def)
  from reachable.step [OF w this] show thesis by (rule that) simp_all
qed

text \<open>Where the file does not open, the audio thread ends at once.\<close>

definition silent_devices :: devices where
  "silent_devices = sample_devices\<lparr>d_sf_open := \<lambda>tr path. None\<rparr>"

lemma demo_played:
  obtains s where "reachable (demo_kernel 0) silent_devices s" "main_pc s = Polling" "audio s = Ended"
proof -
  obtain s where s: "reachable (demo_kernel 0) silent_devices s" "main_pc s = Polling" "audio s = Opening"
    by (rule demo_playing)
  have "result (audio_start silent_devices (input_file s)) (glob s) = Ended"
    by (simp add: audio_start_def audio_open_def sf_open_def Devices.audio_def run_emit silent_devices_def split_beta)
  then have "app_step (demo_kernel 0) silent_devices s
      (s\<lparr>glob := exec (audio_start silent_devices (input_file s)) (glob s), audio := Ended\<rparr>)"
    using s by (intro audio_begin) (simp_all add: prod_eq_iff)
  from reachable.step [OF s(1) this] show thesis by (rule that) (simp_all add: s)
qed

lemma demo_destroyed:
  obtains s where "reachable (demo_kernel 1) D s" "main_pc s = Destroyed" "cmd s = Cmd_polling 50 100000"
    "fault (glob s) = None" "current_mode (glob s) = EXEC_DSP" "lineofs (glob s) = 0"
proof -
  let ?K = "demo_kernel 1"
  obtain w f where w: "reachable ?K D (\<lparr>glob = w, main_pc = Polling, audio = Not_created, cmd = Cmd_waiting,
      input_file = f\<rparr>)" (is "reachable _ _ ?s")
    and facts: "fault w = None" "current_mode w = EXEC_DSP" "lineofs w = 0" "is_host_eth_iface (app_config w)"
    by (rule demo_polling)
  define c where "c = exec (client_step ?K Thread_wait_cmd) w"
  have c: "isCmdConnected c" "client_cmd_fd c = 50" "fault c = None" "current_mode c = EXEC_DSP" "lineofs c = 0"
      "is_host_eth_iface (app_config c)" "start_requested c = start_requested w"
    using facts by (simp_all add: c_def client_step_def wait_for_cmd_client_def sys_accept_def run_emit demo_kernel_def)
  have step1: "app_step ?K D ?s (?s\<lparr>glob := c\<rparr>)"
    using do_client [of ?s ?K D Thread_wait_cmd] by (simp add: c_def)
  have start: "run_state cmd_start c = (Cmd_polling 50 100000, c)"
    using c by (simp add: cmd_start_def)
  have step2: "app_step ?K D (?s\<lparr>glob := c\<rparr>) (?s\<lparr>glob := c, cmd := Cmd_polling 50 100000\<rparr>)"
    using cmd_begin [of "?s\<lparr>glob := c\<rparr>" _ c ?K D] start by simp
  have "start_requested w = START_PLAY" using reachable_inv [OF w] by (simp add: app_inv_def)
  then have turn: "run_state (main_turn ?K) c = (True, exec (main_turn ?K) c)"
      "fault (exec (main_turn ?K) c) = None" "current_mode (exec (main_turn ?K) c) = EXEC_DSP" "lineofs (exec (main_turn ?K) c) = 0"
    using c by (simp_all add: main_turn_run Let_def demo_kernel_def)
  have step3: "app_step ?K D (?s\<lparr>glob := c, cmd := Cmd_polling 50 100000\<rparr>)
      (?s\<lparr>glob := exec (main_turn ?K) c, cmd := Cmd_polling 50 100000, main_pc := Left_loop\<rparr>)"
    using do_turn [of "?s\<lparr>glob := c, cmd := Cmd_polling 50 100000\<rparr>" ?K True "exec (main_turn ?K) c" D] turn(1) by simp
  have step4: "app_step ?K D (?s\<lparr>glob := exec (main_turn ?K) c, cmd := Cmd_polling 50 100000, main_pc := Left_loop\<rparr>)
      (?s\<lparr>glob := exec main_destroy (exec (main_turn ?K) c), cmd := Cmd_polling 50 100000, main_pc := Destroyed\<rparr>)"
    using do_destroy [of "?s\<lparr>glob := exec (main_turn ?K) c, cmd := Cmd_polling 50 100000, main_pc := Left_loop\<rparr>" ?K D] by simp
  from reachable.step [OF reachable.step [OF reachable.step [OF reachable.step [OF w step1] step2] step3] step4]
  show thesis
    by (rule that) (simp_all add: stays_main_destroy turn(2-))
qed

subsection \<open>Properties\<close>

text \<open>
  C3: the main thread and the audio thread agree, whatever the scheduler, the system, the client
  and the devices do. At most one audio thread is ever created. While it runs and the program
  has not exited, \<open>main\<close> is in its loop and the request is \<open>STOP_PLAY\<close>, so it creates no second
  one and does not leave the loop; once the thread has ended the request is \<open>EXIT_PLAY\<close>.
\<close>
theorem audio_main_agreement:
  assumes "reachable K D s"
  shows "audio_threads (glob s) = (if audio s = Not_created then 0 else 1) \<and>
    (main_pc s \<noteq> Exited \<longrightarrow> audio_active s \<longrightarrow> main_pc s = Polling \<and> start_requested (glob s) = STOP_PLAY) \<and>
    (main_pc s \<noteq> Exited \<longrightarrow> audio s = Ended \<longrightarrow> start_requested (glob s) = EXIT_PLAY)"
  using reachable_inv [OF assms] by (simp add: app_inv_def)

theorem audio_main_agreement_witness:
  "\<exists>s. reachable (demo_kernel 0) sample_devices s \<and> audio_active s \<and> start_requested (glob s) = STOP_PLAY"
proof -
  obtain s where s: "reachable (demo_kernel 0) sample_devices s" "main_pc s = Polling" "audio s = Opening"
    by (rule demo_playing)
  from audio_main_agreement [OF s(1)] s show ?thesis
    by (intro exI [of _ s]) (simp add: audio_active_def)
qed





text \<open>
  C14: use after unmap. The command thread is never stopped, and in the DSP mode a filter command
  writes through \<open>dspParams\<close>. In every reachable state in which \<open>main\<close> has destroyed the buffers
  and has not exited yet (it still switches the firmware back and frees the configuration), the command
  \<^verbatim>\<open>SET FFT FILTER v\<close> of the client makes the command thread write to the unmapped buffer.
\<close>
theorem filter_after_destroy:
  assumes "reachable K D s" and "main_pc s \<in> {Destroyed, Reverted, Freed}" and "cmd s = Cmd_polling fd tv"
    and "current_mode (glob s) = EXEC_DSP" and "fault (glob s) = None" and "lineofs (glob s) = 0" and "is_int32 v"
    and "\<And>tr. k_select K tr fd tv = (1, tv')"
    and "\<And>tr. k_read K tr fd 255 = (int (length bs), bs)" and bs: "bs = ''SET FFT FILTER '' @ show_int v @ [NL]"
  shows "\<exists>t. app_step K D s t \<and> fault (glob t) = Some Invalid_pointer"
proof -
  define u where "u = (glob s)\<lparr>trace := trace (glob s) @ [Ev_select fd tv 1 tv', Ev_read fd 255 (int (length bs)) bs]\<rparr>"
  have empty: "live_maps (trace (glob s)) = {#}"
    using reachable_inv [OF assms(1), unfolded app_inv_def] assms(2) by blast
  have phase: "threads_run (main_pc s)" using assms(2) by auto
  have line: "line_ok u" "held_text u = []"
    using assms(6) by (simp_all add: u_def line_ok_def held_text_def LINEBUF_SIZE_def)
  have "bs \<noteq> []" by (simp add: bs)
  then have poll: "run_state (cmd_step K fd tv) (glob s) = (Cmd_polling fd tv', exec (cmd_bytes K bs) u)"
    using assms(8,9) by (simp add: cmd_step_def cmd_poll_def sys_select_def sys_read_def run_emit u_def split_beta)
  have "\<not> mapped u (dspParams u)"
    by (simp add: mapped_def u_def live_maps_append empty)
  then have "fault (exec (enable_filter K (v \<noteq> 0)) (sans_line u)) = Some Invalid_pointer"
    using assms(4,5) by (simp add: run_enable_filter Let_def sans_line_def mapped_def u_def)
  then have "fault (sans_line (exec (cmd_bytes K bs) u)) = Some Invalid_pointer"
    using filter_line(1) [OF line assms(7), of "[]" K] by (simp add: bs)
  then have "fault (exec (cmd_bytes K bs) u) = Some Invalid_pointer"
    by (simp add: sans_line_def)
  moreover have "app_step K D s (s\<lparr>glob := exec (cmd_bytes K bs) u, cmd := Cmd_polling fd tv'\<rparr>)"
    by (rule cmd_turn [OF phase assms(3) poll])
  ultimately show ?thesis
    by (intro exI [of _ "s\<lparr>glob := exec (cmd_bytes K bs) u, cmd := Cmd_polling fd tv'\<rparr>"]) simp
qed

theorem filter_after_destroy_witness:
  "\<exists>s t. reachable (demo_kernel 1) sample_devices s \<and> app_step (demo_kernel 1) sample_devices s t \<and> fault (glob t) = Some Invalid_pointer"
proof -
  obtain s where s: "reachable (demo_kernel 1) sample_devices s" "main_pc s = Destroyed" "cmd s = Cmd_polling 50 100000"
      "fault (glob s) = None" "current_mode (glob s) = EXEC_DSP" "lineofs (glob s) = 0"
    by (rule demo_destroyed)
  have freed: "main_pc s \<in> {Destroyed, Reverted, Freed}" using s(2) by simp
  have "show_int 1 = ''1''" by code_simp
  then have "\<exists>t. app_step (demo_kernel 1) sample_devices s t \<and> fault (glob t) = Some Invalid_pointer"
    by (intro filter_after_destroy [OF s(1) freed s(3,5,4,6), where v = 1 and tv' = 100000 and bs = "''SET FFT FILTER 1'' @ [NL]"])
      (simp_all add: demo_kernel_def sample_kernel_def)
  with s(1) show ?thesis by blast
qed

end
