(* ===== verification/App_End.thy ===== *)
theory App_End
  imports App_Run
begin

text \<open>
  How the program leaves the system: which firmware the link points to in every phase and at
  every exit, and what the interrupt handler does to the configuration after \<open>main\<close> freed it.
\<close>

subsection \<open>The firmware link\<close>

text \<open>What the symbolic links made so far point to; \<open>None\<close> where nothing is known.\<close>

fun link_step :: "event \<Rightarrow> (string \<rightharpoonup> string) \<Rightarrow> (string \<rightharpoonup> string)" where
  "link_step (Ev_symlink target path r) L = (if r = 0 then L(path \<mapsto> target) else L)"
| "link_step (Ev_unlink path r) L = (if r = 0 then L(path := None) else L)"
| "link_step _ L = L"

definition links :: "event list \<Rightarrow> (string \<rightharpoonup> string)" where
  "links tr = fold link_step tr Map.empty"

lemma links_Nil [simp]: "links [] = Map.empty"
  by (simp add: links_def)

lemma links_append [simp]: "links (tr @ evs) = fold link_step evs (links tr)"
  by (simp add: links_def)

fun linking :: "event \<Rightarrow> bool" where
  "linking (Ev_symlink _ _ _) = True"
| "linking (Ev_unlink _ _) = True"
| "linking _ = False"

lemma link_step_other: "\<not> linking e \<Longrightarrow> link_step e L = L"
  by (cases e) simp_all

lemma fold_link_other: "\<forall>e \<in> set evs. \<not> linking e \<Longrightarrow> fold link_step evs L = L"
  by (induction evs arbitrary: L) (simp_all add: link_step_other)

text \<open>The steps that leave the link and the configuration alone.\<close>

definition rests :: "'w app_world_scheme \<Rightarrow> 'w app_world_scheme \<Rightarrow> bool" where
  "rests s t \<longleftrightarrow> links (trace t) = links (trace s) \<and> heap t = heap s \<and> current_mode t = current_mode s \<and>
     is_host_eth_iface (app_config t) = is_host_eth_iface (app_config s) \<and>
     (\<forall>f. get_str f (app_config t) = get_str f (app_config s))"

interpretation resting: frame_rel rests
  by unfold_locales (simp_all add: rests_def)

named_theorems rests_intros \<open>operations that leave the link and the configuration alone\<close>

declare resting.rules [rests_intros]

lemmas rests_update = resting.update

lemma rests_fields: "trace t = trace s \<Longrightarrow> heap t = heap s \<Longrightarrow> current_mode t = current_mode s \<Longrightarrow>
    app_config t = app_config s \<Longrightarrow> rests s t"
  by (simp add: rests_def)

lemma rests_emit: "\<not> linking e \<Longrightarrow> preserves rests (emit e)"
  by (simp add: preserves_def run_emit rests_def link_step_other)

lemma rests_raise [rests_intros]: "preserves rests (raise_ub u)" "preserves rests (check_ub b u)"
  by (simp_all add: preserves_def run_raise_ub run_check_ub rests_def)

lemma rests_c_string [rests_intros]: "preserves rests (c_string p)"
  unfolding c_string_def by (intro rests_intros)

lemma rests_calls [rests_intros]:
  "preserves rests (sys_open K p fl)" "preserves rests (sys_close fd)" "preserves rests (sys_write K fd bs)"
  "preserves rests (sys_read K fd n)" "preserves rests (sys_mmap K m fd)" "preserves rests (sys_munmap a m)"
  "preserves rests (ioctl_heap_alloc K fd m fl)" "preserves rests (ioctl_dma_attach K fd d)" "preserves rests (ioctl_dma_sync K fd v)"
  "preserves rests (sys_socket K)" "preserves rests (sys_accept K fd)" "preserves rests (pthread_create K th)"
  "preserves rests (fopen_w K p)" "preserves rests (tcgetattr K fd)" "preserves rests (rpmsg_char_init K)"
  "preserves rests (rpmsg_char_open K i ep nm)"
  unfolding call_defs by (intro rests_intros rests_emit; simp)+

lemma rests_keeps: "keeps inert s t \<Longrightarrow> rests s t"
proof -
  assume keeps: "keeps inert s t"
  have plain: "\<not> linking e" if "quiet e \<or> inert e" for e
    using that by (cases e) simp_all
  obtain evs where "trace t = trace s @ evs" "\<forall>e \<in> set evs. \<not> linking e"
    using keeps plain by (auto simp: keeps_def)
  then show ?thesis
    using keeps by (simp add: keeps_def rests_def fold_link_other)
qed

lemma rests_of_keeps: "preserves (keeps inert) m \<Longrightarrow> preserves rests m"
  by (simp add: preserves_def rests_keeps)

lemmas rests_turns = keeps_audio_turn [THEN rests_of_keeps] keeps_cmd_inert [THEN rests_of_keeps]
  keeps_init_filter_inert [THEN rests_of_keeps]

text \<open>The stages of \<open>main\<close> but the two that switch the firmware, and the other threads.\<close>

lemma rests_buffers:
  "preserves rests (init_data_buffer K)" "preserves rests (init_options_buffer K)" "preserves rests (init_buffers K)"
proof -
  have init: "preserves rests (dmabuf_heap_init K h n dev p)" for h n dev p
    unfolding dmabuf_heap_init_def dmaheap_open_def dmaheap_alloc_def dmabuf_get_phys_def by (intro rests_intros)
  show data: "preserves rests (init_data_buffer K)" and options: "preserves rests (init_options_buffer K)"
    unfolding init_data_buffer_def init_options_buffer_def
    by (intro rests_intros init rests_update rests_fields; simp)+
  have size: "get_str f (c\<lparr>data_buffer_size := n\<rparr>) = get_str f c" for f c n
    by (cases f) simp_all
  show "preserves rests (init_buffers K)"
    unfolding init_buffers_def set_config_def init_rpmsg_def init_rpmsg_buffer_def
    by (intro rests_intros data options rests_update; simp add: rests_def size)
qed

lemma rests_host: "preserves rests (init_host_interface K)"
  unfolding init_host_interface_def init_serial_def start_threads_def host_init_defs
  by (intro rests_intros rests_emit rests_update rests_fields; simp)

lemma rests_main_turn: "preserves rests (main_turn K)"
  unfolding main_turn_def request_def by (intro rests_intros rests_emit rests_update rests_fields; simp)

lemma rests_main_destroy: "preserves rests main_destroy"
  unfolding main_destroy_def dmabuf_heap_destroy_def by (intro rests_intros)

lemma rests_log_step: "preserves rests log_step"
  unfolding log_step_def by (intro rests_of_keeps keeps_intros)

lemma rests_client_step: "preserves rests (client_step K th)"
  unfolding client_step_def wait_for_log_client_def wait_for_cmd_client_def wait_for_indata_client_def wait_for_outdata_client_def
  by (cases th; simp only: thread.case; intro rests_intros rests_emit rests_update rests_fields; simp)

lemma rests_audio: "preserves rests (audio_start D p)" "preserves rests audio_close"
  unfolding audio_start_def audio_open_def audio_close_def device_defs Devices.audio_def request_def
  by (intro rests_intros rests_emit rests_update rests_fields; simp)+

subsection \<open>What a step may change\<close>

lemma step_kinds [consumes 1, case_names load new old free sigint stop other]:
  assumes "app_step K D s t"
  obtains "main_pc s = Loading" "main_pc t = Switching" "glob t = exec (load_mode K) (glob s)"
  | "main_pc s = Switching" "main_pc t = Allocating" "glob t = exec (switch_new K) (glob s)"
  | "main_pc s = Destroyed" "main_pc t = Reverted" "glob t = exec (revert_firmware K) (glob s)"
  | "main_pc s = Reverted" "main_pc t = Freed" "glob t = exec cleanup_config (glob s)"
  | "main_pc s \<notin> {Loading, Exited}" "main_pc t = Exited" "glob t = exec (handle_sigint K) (glob s)"
  | "main_pc s = Connecting" "main_pc t = Exited" "result (init_host_interface K) (glob s) \<noteq> None" "rests (glob s) (glob t)"
  | "rests (glob s) (glob t)" "main_pc s \<noteq> Exited" "main_pc t = main_pc s \<or> (main_pc s, main_pc t) \<in>
      {(Allocating, Connecting), (Connecting, Filtering), (Filtering, Polling), (Polling, Left_loop),
       (Left_loop, Destroyed), (Freed, Exited)}"
  using assms
proof cases
  case (do_connect r w)
  then have "rests (glob s) w" using preservesD [OF rests_host, of "glob s" K] by simp
  then show ?thesis using do_connect that(6,7) by (auto split: option.splits)
next
  case (do_turn left w)
  then have "rests (glob s) w" using preservesD [OF rests_main_turn, of "glob s" K] by simp
  then show ?thesis using do_turn that(7) by (auto split: if_splits)
next
  case (audio_begin pc w)
  then have "rests (glob s) w" using preservesD [OF rests_audio(1), of "glob s" D "input_file s"] by simp
  then show ?thesis using audio_begin that(7) by simp
next
  case (audio_block fm r w)
  then have "rests (glob s) w" using preservesD [OF rests_turns(1), of "glob s" K D fm] by simp
  then show ?thesis using audio_block that(7) by simp
next
  case (cmd_begin pc w)
  then have "rests (glob s) w" using preservesD [OF rests_turns(3), of "glob s"] by simp
  then show ?thesis using cmd_begin that(7) by (simp add: threads_run_def)
next
  case (cmd_turn fd tv pc w)
  then have "rests (glob s) w" using preservesD [OF rests_turns(2), of "glob s" K fd tv] by simp
  then show ?thesis using cmd_turn that(7) by (simp add: threads_run_def)
next
  case do_allocate
  then show ?thesis using that(7) preservesD [OF rests_buffers(3), of "glob s" K] by simp
next
  case do_filter
  then show ?thesis using that(7) preservesD [OF rests_turns(4), of "glob s" K] by simp
next
  case do_destroy
  then show ?thesis using that(7) preservesD [OF rests_main_destroy, of "glob s"] by simp
next
  case audio_end
  then show ?thesis using that(7) preservesD [OF rests_audio(2), of "glob s"] by simp
next
  case do_log
  then show ?thesis using that(7) preservesD [OF rests_log_step, of "glob s"] by (simp add: threads_run_def)
next
  case (do_client th)
  then show ?thesis using that(7) preservesD [OF rests_client_step, of "glob s" K th] by (simp add: threads_run_def)
next
  case do_exit
  then show ?thesis using that(7) by (simp add: resting.same)
qed (use that in simp_all)

subsection \<open>The configuration in every phase\<close>

text \<open>What \<open>main\<close> loads, and what is left of it when \<open>main\<close> has freed the configuration.\<close>

abbreviation loaded :: "kernel \<Rightarrow> metrics_world" where
  "loaded K \<equiv> exec (load_config K CFG_FILE_PATH) start_metrics"

abbreviation mode_of :: "AppConfig \<Rightarrow> ExecMode" where
  "mode_of c \<equiv> (if is_dsp_execution c then EXEC_DSP else EXEC_ARM)"

definition heap_in :: "kernel \<Rightarrow> phase \<Rightarrow> string option list" where
  "heap_in K p = (if p = Freed then heap (exec cleanup_config (loaded K)) else heap (loaded K))"

definition conf_inv :: "kernel \<Rightarrow> system \<Rightarrow> bool" where
  "conf_inv K s \<longleftrightarrow> main_pc s \<in> {Loading, Exited} \<or>
     current_mode (glob s) = mode_of (app_config (loaded K)) \<and>
     is_host_eth_iface (app_config (glob s)) = is_host_eth_iface (app_config (loaded K)) \<and>
     (\<forall>f. get_str f (app_config (glob s)) = get_str f (app_config (loaded K))) \<and> heap (glob s) = heap_in K (main_pc s)"

lemma loaded_owned: "owned (loaded K)"
proof -
  have "owned (exec (process_lines K ls) (start_metrics\<lparr>trace := tr\<rparr>))" for ls tr
    using process_lines_memory [OF start_metrics_owned] by blast
  then show ?thesis
    using start_metrics_owned by (auto simp: load_config_def run_simps split_beta owned_def split: option.split)
qed

lemma owned_cong:
  assumes "heap s = heap t" and "\<And>f. get_str f (app_config s) = get_str f (app_config t)"
  shows "owned s \<longleftrightarrow> owned t"
  using assms by (simp add: owned_def owned_by_def)

text \<open>Everything but the link, whatever the strings and the system are.\<close>

definition links_only :: "'w app_world_scheme \<Rightarrow> 'w app_world_scheme \<Rightarrow> bool" where
  "links_only s t \<longleftrightarrow> heap t = heap s \<and> current_mode t = current_mode s \<and> app_config t = app_config s"

interpretation linking_only: frame_rel links_only
  by unfold_locales (simp_all add: links_only_def)

lemma links_only_switch:
  "preserves links_only (switch_to K which)" "preserves links_only (switch_new K)" "preserves links_only (revert_firmware K)"
proof -
  have emit: "preserves links_only (emit e)" and check: "preserves links_only (check_ub b u)" "preserves links_only (raise_ub u)" for e b u
    by (simp_all add: preserves_def run_emit run_check_ub run_raise_ub links_only_def)
  have calls: "preserves links_only (sys_open K p fl)" "preserves links_only (sys_close fd)" "preserves links_only (sys_write K fd bs)"
    "preserves links_only (sys_read K fd n)" "preserves links_only (sys_unlink K p)" "preserves links_only (sys_symlink K q p)"
    for p fl fd bs n q
    unfolding call_defs by (intro linking_only.rules emit)+
  have "preserves links_only (write_state_if_needed K p d)" for p d
    unfolding write_state_if_needed_def read_state_def by (intro linking_only.rules calls check)
  then have "preserves links_only (switch_firmware K fw link p)" for fw link p
    unfolding switch_firmware_def update_symlink_def by (intro linking_only.rules calls)
  then show to: "preserves links_only (switch_to K which)" for which
    unfolding switch_to_def c_string_def by (intro linking_only.rules check)
  show "preserves links_only (switch_new K)" "preserves links_only (revert_firmware K)"
    unfolding switch_new_def revert_firmware_def by (intro linking_only.rules to emit)+
qed

lemma conf_inv_step:
  assumes "app_step K D s t" and inv: "conf_inv K s" and "main_pc s = Loading \<Longrightarrow> glob s = start_metrics"
  shows "conf_inv K t"
  using assms(1)
proof (cases rule: step_kinds)
  case load
  then have "glob t = (loaded K)\<lparr>current_mode := mode_of (app_config (loaded K))\<rparr>"
    using load_mode_clean [OF refl, of K start_metrics] assms(3) by simp
  then show ?thesis using load by (simp add: conf_inv_def heap_in_def)
next
  case new
  then show ?thesis
    using inv preservesD [OF links_only_switch(2), of "glob s" K] by (simp add: conf_inv_def heap_in_def links_only_def)
next
  case old
  then show ?thesis
    using inv preservesD [OF links_only_switch(3), of "glob s" K] by (simp add: conf_inv_def heap_in_def links_only_def)
next
  case free
  have same: "heap (glob s) = heap (loaded K)" "\<And>f. get_str f (app_config (glob s)) = get_str f (app_config (loaded K))"
    using inv free(1) by (simp_all add: conf_inv_def heap_in_def)
  have "owned (glob s)" using loaded_owned owned_cong [OF same] by simp
  then show ?thesis
    using inv free same run_cleanup [of "glob s"] run_cleanup [OF loaded_owned, of K]
    by (simp add: conf_inv_def heap_in_def freed_fields_def)
next
  case other
  then show ?thesis
    using inv by (auto simp: conf_inv_def rests_def heap_in_def)
qed (simp_all add: conf_inv_def)

lemma reachable_conf: "reachable K D s \<Longrightarrow> conf_inv K s"
proof (induction rule: reachable.induct)
  case initial
  then show ?case by (simp add: conf_inv_def start_system_def)
next
  case (step s t)
  then show ?case
    using reachable_inv [of K D s, unfolded app_inv_def] conf_inv_step by blast
qed

subsection \<open>The link in every phase\<close>

text \<open>
  The system carries out what a switch asks for: the state file at \<open>p\<close> opens, reads and writes
  succeed, and the new link can be made.
\<close>

definition carries_out :: "kernel \<Rightarrow> string \<Rightarrow> bool" where
  "carries_out K p \<longleftrightarrow> (\<forall>tr flags. 0 \<le> k_open K tr p flags) \<and> (\<forall>tr fd n. 0 \<le> fst (k_read K tr fd n)) \<and>
     (\<forall>tr fd bs. 0 \<le> k_write K tr fd bs) \<and> (\<forall>tr target path. k_symlink K tr target path = 0)"

lemma rests_write_state: "preserves rests (write_state_if_needed K p d)"
  unfolding write_state_if_needed_def read_state_def by (intro rests_intros)

lemma write_state_carried_out: "carries_out K p \<Longrightarrow> result (write_state_if_needed K p d) s = 0"
  by (simp add: carries_out_def write_state_if_needed_def read_state_def run_simps split_beta not_less [symmetric] del: not_None_eq)

lemma switch_firmware_links:
  assumes "carries_out K p"
  shows "links (trace (exec (switch_firmware K fw link p) s)) = (links (trace (s :: 'w app_world_scheme)))(link \<mapsto> fw)"
proof -
  have keep: "links (trace (exec (write_state_if_needed K p d) s)) = links (trace s)" for d and s :: "'w app_world_scheme"
    using preservesD [OF rests_write_state, of s K p d] by (simp add: rests_def)
  have link: "run_state (update_symlink K link fw) s = (0, s\<lparr>trace := trace s @
      [Ev_unlink link (k_unlink K (trace s) link), Ev_symlink fw link 0]\<rparr>)" for s :: "'w app_world_scheme"
    using assms by (simp add: update_symlink_def run_simps carries_out_def)
  show ?thesis
    by (simp add: switch_firmware_def split_beta write_state_carried_out [OF assms] keep link)
qed

lemma switch_to_links:
  assumes "carries_out K p" and "str_view s f = Some fw" and "str_view s FW_LINK_PATH = Some link" and "str_view s C7_STATE_PATH = Some p"
  shows "links (trace (exec (switch_to K (get_str f)) s)) = (links (trace (s :: 'w app_world_scheme)))(link \<mapsto> fw)"
  using switch_firmware_links [OF assms(1), of fw link s] assms(2-)
  by (simp add: switch_to_def split_beta run_c_string str_view_def)

text \<open>The strings of the firmware are there in every phase, before and after the clean-up.\<close>

lemma deref_freed:
  "deref (fold (\<lambda>f h. free_block h (get_str f c)) fs h) q = (if q \<in> (\<lambda>f. get_str f c) ` set fs then None else deref h q)"
  by (induction fs arbitrary: h) (auto simp: deref_free_block)

lemma kept_after_cleanup:
  assumes "owned s" and "f \<in> set kept_fields"
  shows "str_view (exec cleanup_config s) f = str_view s f"
proof (cases "get_str f (app_config s) = 0")
  case True
  then show ?thesis by (simp add: run_cleanup [OF assms(1)] str_view_def deref_def)
next
  case False
  then have "get_str f (app_config s) \<notin> (\<lambda>f. get_str f (app_config s)) ` set freed_fields"
    using assms field_split cfg.owned_distinct [of "heap s" "app_config s" f] by (fastforce simp: owned_def)
  then show ?thesis by (simp add: run_cleanup [OF assms(1)] str_view_def deref_freed)
qed

lemma kept_in_phase:
  assumes "conf_inv K s" and "main_pc s \<notin> {Loading, Exited}" and "f \<in> set kept_fields"
  shows "str_view (glob s) f = str_view (loaded K) f"
  using assms kept_after_cleanup [OF loaded_owned, of f K] run_cleanup [OF loaded_owned, of K]
  by (auto simp: conf_inv_def heap_in_def str_view_def)

text \<open>In the DSP mode, with the four strings set, on a system that carries out what a switch asks for.\<close>

definition firmware_set :: "kernel \<Rightarrow> string \<Rightarrow> string \<Rightarrow> string \<Rightarrow> bool" where
  "firmware_set K link new old \<longleftrightarrow> is_dsp_execution (app_config (loaded K)) \<and> str_view (loaded K) FW_LINK_PATH = Some link \<and>
     str_view (loaded K) C7_NEW_FW_PATH = Some new \<and> str_view (loaded K) C7_OLD_FW_PATH = Some old \<and>
     (\<exists>p. str_view (loaded K) C7_STATE_PATH = Some p \<and> carries_out K p)"

definition link_in :: "string \<Rightarrow> string \<Rightarrow> phase \<Rightarrow> string option" where
  "link_in new old p =
     (if p \<in> {Allocating, Connecting, Filtering, Polling, Left_loop, Destroyed} then Some new
      else if p \<in> {Reverted, Freed} then Some old else None)"

lemma trace_cleanup: "trace (exec cleanup_config s) = trace s"
proof -
  have "trace (exec (free_fields fs) s) = trace s" for fs
    by (induction fs arbitrary: s) (simp_all add: free_ptr_def run_raise_ub split_beta)
  then show ?thesis by (simp add: cleanup_fields)
qed

lemma switches_link:
  assumes "firmware_set K link new old" and "conf_inv K s" and "main_pc s \<notin> {Loading, Exited}"
  shows "links (trace (exec (switch_new K) (glob s))) link = Some new"
    "links (trace (exec (revert_firmware K) (glob s))) link = Some old"
    "links (trace (exec (handle_sigint K) (glob s))) link = Some old"
proof -
  obtain p where p: "str_view (loaded K) C7_STATE_PATH = Some p" "carries_out K p"
    using assms(1) by (auto simp: firmware_set_def)
  have views: "str_view (glob s) FW_LINK_PATH = Some link" "str_view (glob s) C7_STATE_PATH = Some p"
      "str_view (glob s) C7_NEW_FW_PATH = Some new" "str_view (glob s) C7_OLD_FW_PATH = Some old"
    using assms(1) p(1) kept_in_phase [OF assms(2,3)] by (simp_all add: firmware_set_def kept_fields_def)
  have dsp: "current_mode (glob s) = EXEC_DSP"
    using assms by (auto simp: conf_inv_def firmware_set_def)
  have to: "links (trace (exec (switch_to K (get_str f)) (glob s))) link = Some fw" if "str_view (glob s) f = Some fw" for f fw
    using switch_to_links [OF p(2) that views(1,2)] by simp
  show "links (trace (exec (switch_new K) (glob s))) link = Some new"
    using to [OF views(3)] dsp by (simp add: switch_new_def split_beta run_emit)
  show "links (trace (exec (revert_firmware K) (glob s))) link = Some old"
    "links (trace (exec (handle_sigint K) (glob s))) link = Some old"
    using to [OF views(4)] dsp by (simp_all add: revert_firmware_def handle_sigint_def split_beta trace_cleanup)
qed

lemma link_inv_step:
  assumes "app_step K D s t" and "firmware_set K link new old" and "conf_inv K s"
    and "link_in new old (main_pc s) \<noteq> None \<Longrightarrow> links (trace (glob s)) link = link_in new old (main_pc s)"
  shows "link_in new old (main_pc t) \<noteq> None \<Longrightarrow> links (trace (glob t)) link = link_in new old (main_pc t)"
    and "main_pc t = Exited \<Longrightarrow> links (trace (glob t)) link = Some old \<or>
      main_pc s = Connecting \<and> result (init_host_interface K) (glob s) \<noteq> None \<and> links (trace (glob t)) link = Some new"
proof -
  have "(link_in new old (main_pc t) \<noteq> None \<longrightarrow> links (trace (glob t)) link = link_in new old (main_pc t)) \<and>
    (main_pc t = Exited \<longrightarrow> links (trace (glob t)) link = Some old \<or>
      main_pc s = Connecting \<and> result (init_host_interface K) (glob s) \<noteq> None \<and> links (trace (glob t)) link = Some new)"
    using assms(1)
  proof (cases rule: step_kinds)
    case free
    then show ?thesis using assms(4) by (simp add: link_in_def trace_cleanup)
  next
    case other
    then show ?thesis using assms(4) by (auto simp: link_in_def rests_def)
  qed (use switches_link [OF assms(2,3)] assms(4) in \<open>auto simp: link_in_def rests_def\<close>)
  then show "link_in new old (main_pc t) \<noteq> None \<Longrightarrow> links (trace (glob t)) link = link_in new old (main_pc t)"
    and "main_pc t = Exited \<Longrightarrow> links (trace (glob t)) link = Some old \<or>
      main_pc s = Connecting \<and> result (init_host_interface K) (glob s) \<noteq> None \<and> links (trace (glob t)) link = Some new"
    by blast+
qed

lemma reachable_link:
  assumes "reachable K D s" and "firmware_set K link new old"
  shows "link_in new old (main_pc s) \<noteq> None \<Longrightarrow> links (trace (glob s)) link = link_in new old (main_pc s)"
  using assms(1)
proof (induction rule: reachable.induct)
  case initial
  then show ?case by (simp add: start_system_def link_in_def)
next
  case (step s t)
  then show ?case
    using link_inv_step(1) [OF step.hyps(2) assms(2) reachable_conf [OF step.hyps(1)]] by blast
qed

subsection \<open>The handler after the clean-up\<close>

lemma sigint_after_free:
  assumes "conf_inv K s" and "main_pc s = Freed" and "strings_ok (loaded K)" and "read_contract K" and "fault (glob s) = None"
  shows "fault (exec (handle_sigint K) (glob s)) = Some Double_free"
proof -
  let ?w = "if current_mode (glob s) = EXEC_DSP then exec (switch_to K (get_str C7_OLD_FW_PATH)) (glob s) else glob s"
  have same: "\<And>f. get_str f (app_config (glob s)) = get_str f (app_config (loaded K))" "heap (glob s) = heap (exec cleanup_config (loaded K))"
    using assms(1,2) by (simp_all add: conf_inv_def heap_in_def)
  have views: "str_view (glob s) f \<noteq> None" if "f \<in> set kept_fields" for f
    using that assms(2,3) kept_in_phase [OF assms(1) _ that] by (simp add: strings_ok_def)
  have "clean (glob s) ?w"
    using switch_to_clean [OF views views views assms(4), of C7_OLD_FW_PATH] by (simp add: kept_fields_def)
  moreover have "get_str f (c\<lparr>data_buffer_size := n\<rparr>) = get_str f c" for f c n
    by (cases f) simp_all
  ultimately have w: "fault ?w = None" "heap ?w = heap (glob s)" "\<And>f. get_str f (app_config ?w) = get_str f (app_config (glob s))"
    using assms(5) by (auto simp: clean_def)
  have dead: "\<not> live_block (heap ?w) (get_str f (app_config ?w))" if "f \<in> set freed_fields" for f
    using that by (auto simp: w same run_cleanup [OF loaded_owned] cfg.free_fields_live)
  have "get_str PCM_DEVICE (app_config (loaded K)) \<noteq> 0"
    using assms(3) [unfolded strings_ok_def, rule_format, of PCM_DEVICE] by (auto simp: str_view_def deref_def live_block_def split: if_splits)
  then have "get_str PCM_DEVICE (app_config ?w) \<noteq> 0" by (simp only: w same not_False_eq_True)
  then have "fault (exec cleanup_config ?w) = Some Double_free"
    unfolding cleanup_fields using free_dead_fields [of freed_fields ?w] dead w(1)
    by (auto simp: freed_fields_def)
  then show ?thesis by (simp add: handle_sigint_def split_beta split: if_splits)
qed

subsection \<open>A run\<close>

lemma loaded_views:
  assumes "\<And>b n. k_malloc_ok K b n" and "k_fopen_r K [] CFG_FILE_PATH = Some content"
    and "settings (fgets_all 254 content) = kvs"
  shows "str_view (loaded K) f = map_of (rev kvs) (skey f)"
    and "num_view (loaded K) n = (case map_of (rev kvs) (nkey n) of None \<Rightarrow> 0 | Some v \<Rightarrow> num_of n v)"
proof -
  have "deref [] p = None" for p by (auto simp: deref_def live_block_def)
  then have "str_view start_metrics f = None" by (simp add: str_view_def start_metrics_fields)
  moreover have "num_view start_metrics n = 0"
    by (cases n) (simp_all add: num_view_def start_metrics_fields zero_config_def)
  moreover have "str_view (s\<lparr>trace := tr\<rparr>) f = str_view s f" "num_view (s\<lparr>trace := tr\<rparr>) n = num_view s n" for s :: metrics_world and tr
    by (simp_all add: str_view_def num_view_def)
  ultimately show "str_view (loaded K) f = map_of (rev kvs) (skey f)"
    "num_view (loaded K) n = (case map_of (rev kvs) (nkey n) of None \<Rightarrow> 0 | Some v \<Rightarrow> num_of n v)"
    using process_lines_views [OF start_metrics_owned [of "[Ev_fopen_r CFG_FILE_PATH (Some content)]"] assms(1),
        where f = f and n = n and ls = "fgets_all 254 content"] assms(2,3)
    by (simp_all add: load_config_def fopen_r_def run_emit start_metrics_fields split_beta split: option.split_asm)
qed

lemma demo_firmware: "firmware_set (demo_kernel r) ''/lib/firmware/fw'' ''/lib/firmware/new'' ''/lib/firmware/old''"
proof -
  have "carries_out (demo_kernel r) p" for p
    by (simp add: carries_out_def demo_kernel_def sample_kernel_def Let_def)
  then show ?thesis
    using demo_load(3) [of r] by (simp add: firmware_set_def loaded_views(1) [OF demo_kernel_ok(4,5) demo_settings])
qed

lemma demo_freed:
  obtains s where "reachable (demo_kernel 1) D s" "main_pc s = Freed" "fault (glob s) = None"
proof -
  let ?K = "demo_kernel 1"
  obtain s where s: "reachable ?K D s" "main_pc s = Destroyed" "fault (glob s) = None"
    by (rule demo_destroyed)
  have conf: "conf_inv ?K s" by (rule reachable_conf [OF s(1)])
  have views: "str_view (glob s) f \<noteq> None" if "f \<in> set kept_fields" for f
    using that s(2) demo_load(1) [of 1] kept_in_phase [OF conf _ that] by (simp add: strings_ok_def)
  define u where "u = s\<lparr>glob := exec (revert_firmware ?K) (glob s), main_pc := Reverted\<rparr>"
  have u: "app_step ?K D s u" unfolding u_def by (rule do_revert) (rule s(2))
  have "clean (glob s) (glob u)"
    using switch_to_clean [OF views views views demo_kernel_ok(1), of C7_OLD_FW_PATH]
    by (simp add: u_def revert_firmware_def kept_fields_def)
  then have fault: "fault (glob u) = None" using s(3) by (simp add: clean_def)
  have "conf_inv ?K u" by (rule reachable_conf [OF reachable.step [OF s(1) u]])
  then have "heap (glob u) = heap (loaded ?K)" "\<And>f. get_str f (app_config (glob u)) = get_str f (app_config (loaded ?K))"
    by (simp_all add: conf_inv_def heap_in_def u_def)
  then have "owned (glob u)" using loaded_owned owned_cong by blast
  then have "fault (exec cleanup_config (glob u)) = None"
    using fault by (simp add: run_cleanup)
  moreover have "app_step ?K D u (u\<lparr>glob := exec cleanup_config (glob u), main_pc := Freed\<rparr>)"
    by (rule do_free) (simp add: u_def)
  ultimately show thesis
    using reachable.step [OF reachable.step [OF s(1) u]] that by fastforce
qed

text \<open>A configuration for the serial line, and a system without the device it names.\<close>

definition serial_config :: string where
  "serial_config = concat (map (\<lambda>l. l @ [NL])
     [''DSP_EXEC_MODE=1'', ''HOST_ETH_INTERFACE=0'', ''UART_DEVICE=/dev/ttyS2'', ''FW_LINK_PATH=/lib/firmware/fw'',
      ''C7_OLD_FW_PATH=/lib/firmware/old'', ''C7_NEW_FW_PATH=/lib/firmware/new'', ''C7_STATE_PATH=/sys/class/remoteproc/remoteproc0/state''])"

definition serial_kernel :: kernel where
  "serial_kernel = sample_kernel\<lparr>k_open := \<lambda>tr path flags. if path = ''/dev/ttyS2'' then - 1 else 7,
     k_fopen_r := \<lambda>tr path. Some serial_config\<rparr>"

lemma serial_settings_read: "settings (fgets_all 254 serial_config) =
    [(''DSP_EXEC_MODE'', ''1''), (''HOST_ETH_INTERFACE'', ''0''), (''UART_DEVICE'', ''/dev/ttyS2''), (''FW_LINK_PATH'', ''/lib/firmware/fw''),
     (''C7_OLD_FW_PATH'', ''/lib/firmware/old''), (''C7_NEW_FW_PATH'', ''/lib/firmware/new''),
     (''C7_STATE_PATH'', ''/sys/class/remoteproc/remoteproc0/state'')]"
  by code_simp

lemma serial_loaded:
  "firmware_set serial_kernel ''/lib/firmware/fw'' ''/lib/firmware/new'' ''/lib/firmware/old''"
  "\<not> is_host_eth_iface (app_config (loaded serial_kernel))" "str_view (loaded serial_kernel) UART_DEVICE = Some ''/dev/ttyS2''"
proof -
  have K: "k_malloc_ok serial_kernel b n" "k_fopen_r serial_kernel tr p = Some serial_config" for b n tr p
    by (simp_all add: serial_kernel_def sample_kernel_def)
  note views = loaded_views [OF K serial_settings_read]
  have nums: "num_of DSP_EXEC_MODE ''1'' = 1" "num_of HOST_ETH_INTERFACE ''0'' = 0" by code_simp+
  have "carries_out serial_kernel ''/sys/class/remoteproc/remoteproc0/state''"
    by (simp add: carries_out_def serial_kernel_def sample_kernel_def Let_def)
  then show "firmware_set serial_kernel ''/lib/firmware/fw'' ''/lib/firmware/new'' ''/lib/firmware/old''"
    using views(2) [of DSP_EXEC_MODE] by (simp add: firmware_set_def views(1) num_view_def nums)
  show "\<not> is_host_eth_iface (app_config (loaded serial_kernel))"
    using views(2) [of HOST_ETH_INTERFACE] by (simp add: num_view_def nums)
  show "str_view (loaded serial_kernel) UART_DEVICE = Some ''/dev/ttyS2''" by (simp add: views(1))
qed

lemma connecting_reached: obtains s where "reachable K D s" "main_pc s = Connecting"
proof -
  obtain s where s: "app_step K D start_system s" "main_pc s = Switching"
    using do_load [of start_system _ K D] by (simp add: start_system_def)
  obtain t where t: "app_step K D s t" "main_pc t = Allocating" using do_switch [OF s(2), of K D] by simp
  obtain u where u: "app_step K D t u" "main_pc u = Connecting" using do_allocate [OF t(2), of K D] by simp
  show thesis
    by (rule that [OF reachable.step [OF reachable.step [OF reachable.step [OF reachable.initial s(1)] t(1)] u(1)] u(2)])
qed

subsection \<open>Properties\<close>

text \<open>
  C26: the firmware the link names follows the phase of \<open>main\<close>, over all interleavings. In the DSP
  mode, with the four strings configured and a system that carries out what the switch asks for,
  the link names the new firmware from the switch at the start until \<open>main\<close> has unmapped the
  buffers, and the old one after \<open>main\<close> switched back; no other thread touches it. However the
  program exits, at its end or by the interrupt signal in any phase, the link names the old
  firmware, with one exception: when the host interface calls \<open>exit(1)\<close> because the serial device
  does not open, the new firmware stays.
\<close>
theorem firmware_follows_phase:
  assumes "reachable K D s" and "firmware_set K link new old"
  shows "(main_pc s \<in> {Allocating, Connecting, Filtering, Polling, Left_loop, Destroyed} \<longrightarrow>
        links (trace (glob s)) link = Some new) \<and>
    (main_pc s \<in> {Reverted, Freed} \<longrightarrow> links (trace (glob s)) link = Some old) \<and>
    (\<forall>t. app_step K D s t \<longrightarrow> main_pc t = Exited \<longrightarrow> links (trace (glob t)) link = Some old \<or>
      main_pc s = Connecting \<and> result (init_host_interface K) (glob s) \<noteq> None \<and> links (trace (glob t)) link = Some new)"
  using reachable_link [OF assms] link_inv_step(2) [OF _ assms(2) reachable_conf [OF assms(1)]] reachable_link [OF assms]
  by (auto simp: link_in_def)

theorem firmware_follows_phase_witness:
  "\<exists>s. reachable (demo_kernel 1) sample_devices s \<and> main_pc s = Freed \<and>
     links (trace (glob s)) ''/lib/firmware/fw'' = Some ''/lib/firmware/old''"
proof -
  obtain s where s: "reachable (demo_kernel 1) sample_devices s" "main_pc s = Freed" by (rule demo_freed)
  from firmware_follows_phase [OF s(1) demo_firmware] s show ?thesis by auto
qed

text \<open>
  C28: a serial device that does not open leaves the processor with the test firmware. On the
  serial line \<open>init_host_interface\<close> calls \<open>exit(1)\<close> when the device does not open, and by then
  \<open>main\<close> has switched the firmware: the program ends with the link on the new firmware, and
  nothing switches it back.
\<close>
theorem serial_exit_keeps_firmware:
  assumes "reachable K D s" and "firmware_set K link new old" and "main_pc s = Connecting"
    and "\<not> is_host_eth_iface (app_config (loaded K))" and "str_view (loaded K) UART_DEVICE = Some dev"
    and "k_open K (trace (glob s)) dev [O_RDWR, O_NOCTTY] < 0"
  shows "\<exists>t. app_step K D s t \<and> main_pc t = Exited \<and> links (trace (glob t)) link = Some new \<and> (\<forall>u. \<not> app_step K D t u)"
proof -
  have conf: "conf_inv K s" by (rule reachable_conf [OF assms(1)])
  have "\<not> is_host_eth_iface (app_config (glob s))" "deref (heap (glob s)) (uart_device (app_config (glob s))) = Some dev"
    using conf [unfolded conf_inv_def] assms(3-5) by (auto simp: heap_in_def str_view_def dest: spec [of _ UART_DEVICE])
  then have run: "run_state (init_host_interface K) (glob s) = (Some 1, (glob s)\<lparr>uart_fd := k_open K (trace (glob s)) dev [O_RDWR, O_NOCTTY],
      trace := trace (glob s) @ [Ev_open dev [O_RDWR, O_NOCTTY] (k_open K (trace (glob s)) dev [O_RDWR, O_NOCTTY])]\<rparr>)" (is "_ = (_, ?w)")
    using assms(6) by (simp add: init_host_interface_def run_c_string call_defs run_emit)
  have "app_step K D s (s\<lparr>glob := ?w, main_pc := Exited\<rparr>)"
    using do_connect [OF assms(3) run, of D] by simp
  moreover have "links (trace ?w) link = Some new"
    using reachable_link [OF assms(1,2)] assms(3) by (simp add: link_in_def)
  moreover have "\<not> app_step K D (s\<lparr>glob := ?w, main_pc := Exited\<rparr>) u" for u
    by (auto elim!: app_step_cases simp: threads_run_def)
  ultimately show ?thesis
    by (intro exI [of _ "s\<lparr>glob := ?w, main_pc := Exited\<rparr>"]) simp
qed

theorem serial_exit_keeps_firmware_witness:
  "\<exists>s t. reachable serial_kernel sample_devices s \<and> app_step serial_kernel sample_devices s t \<and> main_pc t = Exited \<and>
     links (trace (glob t)) ''/lib/firmware/fw'' = Some ''/lib/firmware/new''"
proof -
  obtain s where s: "reachable serial_kernel sample_devices s" "main_pc s = Connecting" by (rule connecting_reached)
  have "k_open serial_kernel (trace (glob s)) ''/dev/ttyS2'' [O_RDWR, O_NOCTTY] < 0" by (simp add: serial_kernel_def)
  from serial_exit_keeps_firmware [OF s(1) serial_loaded(1) s(2) serial_loaded(2,3) this] s(1) show ?thesis by blast
qed

text \<open>
  C27: the interrupt signal frees the configuration a second time. The handler stays installed
  while \<open>main\<close> ends, and \<open>cleanup_config\<close> leaves its pointers in place: in every reachable state
  between the clean-up of \<open>main\<close> and its return, the handler runs into a double free.
\<close>
theorem sigint_double_free:
  assumes "reachable K D s" and "main_pc s = Freed" and "strings_ok (loaded K)" and "read_contract K" and "fault (glob s) = None"
  shows "\<exists>t. app_step K D s t \<and> main_pc t = Exited \<and> fault (glob t) = Some Double_free"
  using sigint_after_free [OF reachable_conf [OF assms(1)] assms(2-)] do_sigint [of s K D] assms(2)
  by (intro exI [of _ "s\<lparr>glob := exec (handle_sigint K) (glob s), main_pc := Exited\<rparr>"]) simp

theorem sigint_double_free_witness:
  "\<exists>s t. reachable (demo_kernel 1) sample_devices s \<and> app_step (demo_kernel 1) sample_devices s t \<and> fault (glob t) = Some Double_free"
proof -
  obtain s where s: "reachable (demo_kernel 1) sample_devices s" "main_pc s = Freed" "fault (glob s) = None" by (rule demo_freed)
  from sigint_double_free [OF s(1,2) demo_load(1) demo_kernel_ok(1) s(3)] s(1) show ?thesis by blast
qed

end
