(* ===== verification/Playback.thy ===== *)
theory Playback
  imports App_End
begin

text \<open>
  What the user hears: over every interleaving, the blocks written to the sound device are the
  full blocks of the sound file, each once and in order, and on the ARM each is processed as a
  whole with one setting of the filter.
\<close>

subsection \<open>What is played\<close>

definition BLOCK :: nat where "BLOCK = NUM_FRAMES * CHANNELS"

lemma BLOCK_eq: "BLOCK = 2048"
  by (simp add: BLOCK_def NUM_FRAMES_def CHANNELS_def)

fun written :: "audio_event \<Rightarrow> int16 list list" where
  "written (Pcm_writei vs _) = [vs]"
| "written _ = []"

definition played :: "event list \<Rightarrow> int16 list list" where
  "played tr = concat (map written (sounds tr))"

lemma played_simps [simp]:
  "played [] = []" "played (e # es) = concat (map written (sound_of e)) @ played es" "played (es @ es') = played es @ played es'"
  by (simp_all add: played_def)

text \<open>A sound file with the samples \<open>xs\<close>, read from its start by calls of \<open>sf_readf_short\<close>.\<close>

definition file_block :: "int16 list \<Rightarrow> nat \<Rightarrow> int16 list" where
  "file_block xs k = take BLOCK (drop (BLOCK * k) xs)"

definition sound_file :: "devices \<Rightarrow> int16 list \<Rightarrow> bool" where
  "sound_file D xs \<longleftrightarrow> (\<forall>tr k. tally read_weight tr = int k \<longrightarrow>
     d_sf_readf D tr NUM_FRAMES = (int (length (file_block xs k) div CHANNELS), file_block xs k))"

definition full_blocks :: "int16 list \<Rightarrow> nat" where
  "full_blocks xs = length xs div BLOCK"

lemma block_full: "length (file_block xs k) div CHANNELS = NUM_FRAMES \<longleftrightarrow> k < full_blocks xs"
    "k < full_blocks xs \<Longrightarrow> length (file_block xs k) = BLOCK"
proof -
  have "k < length xs div 2048 \<longleftrightarrow> Suc k * 2048 \<le> length xs"
    by (simp only: less_eq_div_iff_mult_less_eq zero_less_numeral Suc_le_eq [symmetric])
  then show "length (file_block xs k) div CHANNELS = NUM_FRAMES \<longleftrightarrow> k < full_blocks xs"
    "k < full_blocks xs \<Longrightarrow> length (file_block xs k) = BLOCK"
    by (auto simp: file_block_def full_blocks_def BLOCK_eq NUM_FRAMES_def CHANNELS_def min_def)
qed

subsection \<open>A block through the thread\<close>

text \<open>Parts that play nothing, read nothing and leave the samples and the switch alone.\<close>

fun unheard :: "event \<Rightarrow> bool" where
  "unheard (Ev_audio a) = (case a of Pcm_writei _ _ \<Rightarrow> False | Sf_readf _ _ \<Rightarrow> False | _ \<Rightarrow> True)"
| "unheard _ = True"

definition tells :: "(event \<Rightarrow> bool) \<Rightarrow> 'w app_world_scheme \<Rightarrow> 'w app_world_scheme \<Rightarrow> bool" where
  "tells Q s t \<longleftrightarrow> keeps Q s t \<and> data_mem t = data_mem s \<and> filter_enabled t = filter_enabled s"

interpretation telling: aside_frame "tells Q" Q for Q
  by unfold_locales (auto simp: tells_def aside_def keeps_def)

interpretation meter_telling: measured_frame "tells Q" "\<lambda>e. quiet e \<or> Q e" for Q
  by unfold_locales

lemma unheard_trace:
  assumes "keeps unheard s t"
  shows "played (trace t) = played (trace s)" "tally read_weight (trace t) = tally read_weight (trace s)"
proof -
  have no: "concat (map written (sound_of e)) = []" "read_weight e = 0" if "quiet e \<or> unheard e" for e
    using that by (cases e; simp split: audio_event.splits)+
  obtain evs where evs: "trace t = trace s @ evs" "\<forall>e \<in> set evs. quiet e \<or> unheard e"
    using assms by (auto simp: keeps_def)
  have "played evs = [] \<and> tally read_weight evs = 0"
    using evs(2) no by (induction evs) auto
  then show "played (trace t) = played (trace s)" "tally read_weight (trace t) = tally read_weight (trace s)"
    by (simp_all add: evs(1))
qed

text \<open>The processing on the ARM, as far as the samples go.\<close>

lemma channel_values:
  "result (load_channel ch is) s = map (\<lambda>i. of_int (sint (data_mem s (i * CHANNELS + ch)))) is"
  "data_mem (exec (load_channel ch is) s) = data_mem s"
  "filter_enabled (exec (load_channel ch is) s) = filter_enabled s"
  "data_mem (exec (store_channel D ch out is) s) = fold (put_frame ch (\<lambda>i. word_of_int (sample_value D out i))) is (data_mem s)"
  "filter_enabled (exec (store_channel D ch out is) s) = filter_enabled s"
  by (induction "is" arbitrary: s)
    (simp_all add: load_sample_def store_output_def store_sample_def run_check_ub split_beta put_frame_def sample_value_def Let_def)

lemma arm_values:
  "data_mem (exec (process_on_arm D) s) = arm_block D (filter_enabled s) CHANNELS (data_mem s)"
  "filter_enabled (exec (process_on_arm D) s) = filter_enabled s"
proof -
  have channel: "data_mem (exec (process_channel D ch) s) = set_channel NUM_FRAMES ch
        (\<lambda>i. word_of_int (sample_value D (channel_output D (filter_enabled s) (channel_input (data_mem s) ch)) i)) (data_mem s)"
      "filter_enabled (exec (process_channel D ch) s) = filter_enabled s" if "ch < CHANNELS" for ch and s :: "'a app_world_scheme"
    using fold_set_channel [OF that]
    by (simp_all add: process_channel_def split_beta channel_values channel_output_def channel_input_def Let_def)
  have "data_mem (exec (process_channels D [c..<CHANNELS]) s) = arm_block D f CHANNELS m \<and> filter_enabled (exec (process_channels D [c..<CHANNELS]) s) = f"
    if "c + k = CHANNELS" "data_mem s = arm_block D f c m" "filter_enabled s = f" for c k f m and s :: "'a app_world_scheme"
    using that
  proof (induction k arbitrary: c s)
    case 0
    then show ?case by simp
  next
    case (Suc k)
    then have c: "c < CHANNELS" by simp
    then have "data_mem (exec (process_channel D c) s) = arm_block D f (Suc c) m"
      using Suc.prems channel(1) [OF c, of s] arm_block_Suc [OF c, of D f m] by (simp add: channel_input_arm)
    then show ?case
      using Suc.IH [of "Suc c" "exec (process_channel D c) s"] Suc.prems c channel(2) [OF c, of s]
      by (simp add: upt_conv_Cons split_beta del: upt_Suc)
  qed
  from this [of 0 CHANNELS s "filter_enabled s" "data_mem s"]
  show "data_mem (exec (process_on_arm D) s) = arm_block D (filter_enabled s) CHANNELS (data_mem s)"
    "filter_enabled (exec (process_on_arm D) s) = filter_enabled s"
    by (simp_all add: process_on_arm_def arm_block_def)
qed

text \<open>A block as it is heard, with the filter on or off.\<close>

definition heard :: "devices \<Rightarrow> bool \<Rightarrow> int16 list \<Rightarrow> int16 list" where
  "heard D filtering vs = extent (arm_block D filtering CHANNELS (poke (\<lambda>_. 0) 0 vs)) BLOCK"

lemma heard_poke:
  assumes "length vs = BLOCK"
  shows "extent (arm_block D filtering CHANNELS (poke m 0 vs)) BLOCK = heard D filtering vs"
proof -
  have same: "poke m 0 vs j = poke (\<lambda>_. 0) 0 vs j" if "j < BLOCK" for j
    using that assms by (simp add: poke_def)
  have "channel_input (poke m 0 vs) ch = channel_input (poke (\<lambda>_. 0) 0 vs) ch" if "ch < CHANNELS" for ch
    unfolding channel_input_def
    by (rule map_cong [OF refl]) (use that in \<open>simp add: same BLOCK_def CHANNELS_def\<close>)
  then show ?thesis
    unfolding heard_def by (intro extent_cong) (auto simp: arm_block_def same BLOCK_def CHANNELS_def)
qed

lemma transform_values:
  assumes "current_mode s = EXEC_ARM"
  shows "keeps unheard s (exec (transform_block K D) s)"
    "data_mem (exec (transform_block K D) s) = arm_block D (filter_enabled s) CHANNELS (data_mem s)"
    "filter_enabled (exec (transform_block K D) s) = filter_enabled s"
proof -
  define before :: "('a app_world_scheme, _) state" where
    "before = do { vs \<leftarrow> block_samples_now; modify (\<lambda>s. s\<lparr>inputbuf := poke (inputbuf s) 0 vs\<rparr>);
       sync_data K DMA_BUF_SYNC_END; clock_gettime D }"
  have "preserves (tells unheard) before"
    unfolding before_def sync_data_def
    by (intro telling.aside_rules telling.logs.sync telling.logs.clock telling.aside; simp add: aside_def)
  then have before: "tells unheard s (exec before s)" by (rule preservesD)
  then have arm: "current_mode (exec before s) = EXEC_ARM"
    using assms by (simp add: tells_def keeps_def)
  have "preserves (tells unheard) (clock_gettime D :: ('a app_world_scheme, _) state)"
    by (intro telling.logs.clock) simp
  then have after: "tells unheard u (exec (clock_gettime D) u)" for u :: "'a app_world_scheme"
    by (rule preservesD)
  have run: "exec (transform_block K D) s = exec (clock_gettime D) (exec (process_on_arm D) (exec before s))"
    using arm by (simp add: transform_block_def before_def split_beta process_mode_def)
  have "keeps unheard (exec before s) (exec (process_on_arm D) (exec before s))"
    by (rule preservesD [OF keeps_arm])
  then show "keeps unheard s (exec (transform_block K D) s)"
    using before after unfolding run tells_def by (metis keeps_trans)
  show "data_mem (exec (transform_block K D) s) = arm_block D (filter_enabled s) CHANNELS (data_mem s)"
    "filter_enabled (exec (transform_block K D) s) = filter_enabled s"
    using before after [of "exec (process_on_arm D) (exec before s)"] by (simp_all add: run tells_def arm_values)
qed

lemma play_values:
  assumes "t = exec (play_block K D) s"
  shows "played (trace t) = played (trace s) @ [extent (data_mem s) BLOCK]"
    "tally read_weight (trace t) = tally read_weight (trace s)" "filter_enabled t = filter_enabled s" "current_mode t = current_mode s"
proof -
  define after :: "('a app_world_scheme, _) state" where
    "after = do { vs \<leftarrow> block_samples_now; modify (\<lambda>s. s\<lparr>outputbuf := poke (outputbuf s) 0 vs\<rparr>);
       channel \<leftarrow> gets current_channel;
       ins \<leftarrow> gets (\<lambda>s. extent (inputbuf s) DATA_BUFFER_SIZE);
       log_input_audio K ins NUM_FRAMES CHANNELS channel;
       outs \<leftarrow> gets (\<lambda>s. extent (outputbuf s) DATA_BUFFER_SIZE);
       log_output_audio K outs NUM_FRAMES CHANNELS channel }"
  have "preserves (tells unheard) after"
    unfolding after_def by (intro telling.aside_rules telling.aside; simp add: aside_def)
  then have after: "tells unheard u (exec after u)" for u by (rule preservesD)
  let ?b = "exec block_samples_now s"
  let ?w = "exec (snd_pcm_writei D (extent (data_mem s) BLOCK)) ?b"
  have b: "tells unheard s ?b" by (rule preservesD [OF telling.logs.samples])
  have "result block_samples_now s = extent (data_mem s) BLOCK"
    by (simp add: block_samples_now_def run_check_ub BLOCK_def)
  then have t: "t = exec after ?w"
    by (simp add: assms play_block_def after_def split_beta)
  have keeps: "keeps unheard s ?b" "keeps unheard ?w t"
    using b after [of ?w] by (simp_all add: tells_def t)
  show "played (trace t) = played (trace s) @ [extent (data_mem s) BLOCK]"
    "tally read_weight (trace t) = tally read_weight (trace s)"
    using unheard_trace [OF keeps(1)] unheard_trace [OF keeps(2)]
    by (simp_all add: snd_pcm_writei_def Devices.audio_def run_emit)
  show "filter_enabled t = filter_enabled s" "current_mode t = current_mode s"
    using b after [of ?w] by (simp_all add: t tells_def keeps_def snd_pcm_writei_def Devices.audio_def run_emit)
qed

lemma process_values:
  assumes "current_mode s = EXEC_ARM" and "t = exec (process_block K D fm) s"
  shows "played (trace t) = played (trace s) @ [extent (arm_block D (filter_enabled s) CHANNELS (data_mem s)) BLOCK]"
    "tally read_weight (trace t) = tally read_weight (trace s)" "filter_enabled t = filter_enabled s" "current_mode t = EXEC_ARM"
proof -
  define middle where "middle lat = (do { sync_data K DMA_BUF_SYNC_START; sync_options K DMA_BUF_SYNC_START;
     measure_block K D lat fm } :: ('a metrics_world_scheme, _) state)" for lat
  define last where "last fm' = (do { sync_options K DMA_BUF_SYNC_END; sync_data K DMA_BUF_SYNC_END;
     (if fst fm' mod 10 = 0 then log_summary D (fst fm') (snd fm') else ret ()) } :: ('a metrics_world_scheme, _) state)" for fm'
  have "preserves (tells unheard) (middle lat)" "preserves (tells unheard) (last fm')" for lat fm'
    unfolding middle_def last_def sync_data_def sync_options_def
    by (intro telling.aside_rules telling.logs.sync meter_telling.measure; simp)+
  then have parts: "tells unheard u (exec (middle lat) u)" "tells unheard u (exec (last fm') u)" for u lat fm'
    by (blast dest: preservesD)+
  define a where "a = exec (transform_block K D) s"
  define b where "b = exec (middle (result (transform_block K D) s)) a"
  define c where "c = exec (play_block K D) b"
  have t: "t = exec (last (result (middle (result (transform_block K D) s)) a)) c"
    by (simp add: assms(2) process_block_def a_def b_def c_def middle_def last_def split_beta)
  have a: "keeps unheard s a" "data_mem a = arm_block D (filter_enabled s) CHANNELS (data_mem s)"
    using transform_values [OF assms(1), of K D] by (simp_all add: a_def)
  have b: "keeps unheard a b" "data_mem b = data_mem a" and "keeps unheard c t"
    using parts by (simp_all add: b_def t tells_def)
  then show "played (trace t) = played (trace s) @ [extent (arm_block D (filter_enabled s) CHANNELS (data_mem s)) BLOCK]"
    "tally read_weight (trace t) = tally read_weight (trace s)"
    using a unheard_trace [OF a(1)] unheard_trace [OF b(1)] unheard_trace [of c t] play_values [OF c_def] by simp_all
  show "filter_enabled t = filter_enabled s" "current_mode t = EXEC_ARM"
    using assms(1) a(1) transform_values(3) [OF assms(1), of K D] parts play_values(3,4) [OF c_def]
    by (simp_all add: a_def b_def t tells_def keeps_def)
qed

lemma read_values:
  assumes "sound_file D xs" and "tally read_weight (trace s) = int k"
  shows "result (read_block K D) s = int NUM_FRAMES \<longleftrightarrow> k < full_blocks xs"
    "data_mem (exec (read_block K D) s) = poke (data_mem s) 0 (file_block xs k)"
    "filter_enabled (exec (read_block K D) s) = filter_enabled s"
proof -
  have "tally read_weight (trace s @ [hd (first_calls K D s)]) = int k"
    using assms(2) by (simp add: first_calls_def Let_def)
  then have samples: "d_sf_readf D (trace s @ [hd (first_calls K D s)]) NUM_FRAMES =
      (int (length (file_block xs k) div CHANNELS), file_block xs k)"
    using assms(1) by (simp add: sound_file_def)
  show "result (read_block K D) s = int NUM_FRAMES \<longleftrightarrow> k < full_blocks xs"
    unfolding read_block_calls(1) samples using block_full(1) [of xs k] by simp
  show "data_mem (exec (read_block K D) s) = poke (data_mem s) 0 (file_block xs k)"
    "filter_enabled (exec (read_block K D) s) = filter_enabled s"
    using samples by (simp_all add: read_block_def sync_data_def dmabuf_sync_def ioctl_dma_sync_def sf_readf_def Devices.audio_def
        run_emit run_check_ub first_calls_def Let_def split_beta)
qed

text \<open>A turn of the loop: it reads the next block and plays it, or finds the end of the file.\<close>

lemma turn_values:
  assumes "current_mode s = EXEC_ARM" and "sound_file D xs" and "tally read_weight (trace s) = int k"
    and run: "run_state (audio_turn K D fm) s = (r, t)"
  shows "tally read_weight (trace t) = int (Suc k)"
    and "r = None \<longleftrightarrow> \<not> k < full_blocks xs"
    and "played (trace t) = played (trace s) @ (if r = None then [] else [heard D (filter_enabled s) (file_block xs k)])"
    and "filter_enabled t = filter_enabled s" and "current_mode t = EXEC_ARM"
proof -
  let ?u = "exec (read_block K D) s"
  note result = read_values(1) [OF assms(2,3), of K] and u = read_values(2,3) [OF assms(2,3), of K]
  have "current_mode ?u = EXEC_ARM"
    using read_block_keeps [of s K D] assms(1) by (simp add: keeps_def)
  note block = process_values [OF this refl, of K D fm]
  have trace: "played (trace ?u) = played (trace s)" "tally read_weight (trace ?u) = int (Suc k)"
    using read_block_weights(3) [of K D s] assms(3) by (simp_all add: read_block_calls(2) first_calls_def Let_def)
  show "r = None \<longleftrightarrow> \<not> k < full_blocks xs"
    using run result by (auto simp: exec_audio_turn Let_def split: if_splits)
  then show "tally read_weight (trace t) = int (Suc k)"
    "played (trace t) = played (trace s) @ (if r = None then [] else [heard D (filter_enabled s) (file_block xs k)])"
    using run result trace block heard_poke [OF block_full(2)] by (auto simp: exec_audio_turn Let_def u)
  show "filter_enabled t = filter_enabled s" "current_mode t = EXEC_ARM"
    using run block(3,4) u(2) \<open>current_mode ?u = EXEC_ARM\<close> by (auto simp: exec_audio_turn Let_def split: if_splits)
qed

subsection \<open>Every interleaving\<close>

text \<open>The other threads and the stages of \<open>main\<close> make no call of the sound libraries.\<close>

definition silent :: "'w world_scheme \<Rightarrow> 'w world_scheme \<Rightarrow> bool" where
  "silent s t \<longleftrightarrow> sounds (trace t) = sounds (trace s)"

interpretation silence: frame_rel silent
  by unfold_locales (simp_all add: silent_def)

lemma silent_calls:
  "preserves silent (sys_open K p fl)" "preserves silent (sys_close fd)" "preserves silent (sys_mmap K m fd)" "preserves silent (sys_munmap a m)"
  "preserves silent (ioctl_heap_alloc K fd m fl)" "preserves silent (ioctl_dma_attach K fd d)" "preserves silent (pthread_create K th)"
  by (simp_all add: preserves_def silent_def run_simps)

lemma silent_mild: "preserves mild m \<Longrightarrow> silent s (exec m s)"
  by (auto simp: silent_def mild_def dest: preservesD)

lemma silent_keeps:
  assumes "preserves (keeps (\<lambda>e. sound_of e = [])) m"
  shows "silent s (exec m s)"
proof -
  have no: "sound_of e = []" if "quiet e" for e using that by (cases e) simp_all
  obtain evs where "trace (exec m s) = trace s @ evs" "\<forall>e \<in> set evs. sound_of e = []"
    using preservesD [OF assms, of s] no by (auto simp: keeps_def)
  then show ?thesis by (simp add: silent_def sounds_def)
qed

lemma silent_stages:
  fixes s :: "'w app_world_scheme"
  shows "silent s (exec (load_mode K) s)" "silent s (exec (init_buffers K) s)" "silent s (exec (main_turn K) s)"
    "silent s (exec main_destroy s)"
proof -
  show "silent s (exec (load_mode K) s)"
    using silent_mild [OF mild_load_config, of s K CFG_FILE_PATH] by (simp add: load_mode_clean [OF refl] silent_def)
  have upd: "preserves silent (modify f)" if "\<And>s. trace (f s) = trace s" for f :: "'w app_world_scheme \<Rightarrow> 'w app_world_scheme"
    using that by (simp add: preserves_def silent_def)
  have str: "preserves silent (c_string p :: ('w app_world_scheme, string) state)" for p
    by (simp add: preserves_def silent_mild [OF mild_c_string])
  have rpmsg: "preserves silent (init_rpmsg K i ep :: ('w app_world_scheme, int) state)" for i ep
    by (simp add: preserves_def silent_mild [OF mild_init_rpmsg])
  have heap: "preserves silent (dmabuf_heap_init K h n dev p)" for h n dev p
    unfolding dmabuf_heap_init_def dmaheap_open_def dmaheap_alloc_def dmabuf_get_phys_def by (intro silence.rules silent_calls)
  have "preserves silent (init_buffers K :: ('w app_world_scheme, unit) state)"
    unfolding init_buffers_def init_data_buffer_def init_options_buffer_def set_config_def init_rpmsg_buffer_def
    by (intro silence.rules str rpmsg heap upd; simp)
  then show "silent s (exec (init_buffers K) s)" by (rule preservesD)
  show "silent s (exec (main_turn K) s)" "silent s (exec main_destroy s)"
    by (simp_all add: silent_def main_turn_run Let_def stays_main_destroy)
qed

lemma audio_start_plays:
  "played (trace (exec (audio_start D p) s)) = played (trace s)"
  "tally read_weight (trace (exec (audio_start D p) s)) = tally read_weight (trace s)"
proof -
  have "played (trace (exec (audio_open D f) u)) = played (trace u)" for f and u :: "'a app_world_scheme"
    by (auto simp: audio_open_def request_def run_simps split: option.split prod.split)
  moreover have "trace (exec (c_string p) s) = trace s"
    by (simp add: run_c_string split: option.split)
  ultimately show "played (trace (exec (audio_start D p) s)) = played (trace s)"
    "tally read_weight (trace (exec (audio_start D p) s)) = tally read_weight (trace s)"
    by (simp_all add: audio_start_def split_beta audio_open_reads)
qed

lemma step_sounds [consumes 2, case_names quietly start turn finish]:
  assumes "app_step K D s t" and "app_inv s"
  obtains "silent (glob s) (glob t)" "audio t = audio s \<or> audio s = Not_created \<and> audio t = Opening"
  | "main_pc s \<noteq> Exited" "audio s = Opening" "audio t = Ended \<or> audio t = Looping (0, zero_metrics)"
    "played (trace (glob t)) = played (trace (glob s))" "tally read_weight (trace (glob t)) = tally read_weight (trace (glob s))"
  | fm r where "main_pc s \<noteq> Exited" "audio s = Looping fm" "run_state (audio_turn K D fm) (glob s) = (r, glob t)"
    "audio t = (case r of None \<Rightarrow> Closing | Some fm' \<Rightarrow> Looping fm')"
  | "audio s = Closing" "audio t = Ended" "played (trace (glob t)) = played (trace (glob s))"
  using assms(1)
proof cases
  case do_load
  then show ?thesis using that(1) silent_stages(1) [of "glob s" K] by simp
next
  case do_switch
  then show ?thesis using that(1) silent_mild [OF mild_switch_new, of "glob s" K] by simp
next
  case do_allocate
  then show ?thesis using that(1) silent_stages(2) [of "glob s" K] by simp
next
  case (do_connect r w)
  then show ?thesis using that(1) silent_mild [OF mild_init_host, of "glob s" K] by simp
next
  case do_filter
  then show ?thesis using that(1) silent_keeps [OF keeps_init_filter, of "glob s" K] by simp
next
  case (do_turn left w)
  note inv = assms(2) [unfolded app_inv_def]
  have "audio s = Not_created" if "start_requested (glob s) = START_PLAY"
  proof -
    have "main_pc s \<noteq> Exited" using do_turn(2) by simp
    then have "\<not> audio_active s" "audio s \<noteq> Ended" using inv that by force+
    then show ?thesis by (simp add: audio_active_def)
  qed
  then show ?thesis using that(1) do_turn silent_stages(3) [of "glob s" K] by auto
next
  case do_destroy
  then show ?thesis using that(1) silent_stages(4) [of "glob s"] by simp
next
  case do_revert
  then show ?thesis using that(1) silent_mild [OF mild_end(2), of "glob s" K] by simp
next
  case do_free
  then show ?thesis using that(1) silent_mild [OF mild_end(1), of "glob s"] by simp
next
  case do_exit
  then show ?thesis using that(1) by (simp add: silence.same)
next
  case do_sigint
  then show ?thesis using that(1) silent_mild [OF mild_end(3), of "glob s" K] by simp
next
  case (audio_begin pc w)
  then have pc: "pc = Ended \<or> pc = Looping (0, zero_metrics)" and w: "w = exec (audio_start D (input_file s)) (glob s)"
    by (auto simp: audio_start_def split_beta)
  show ?thesis using that(2) audio_begin(2,3) pc audio_start_plays [of D "input_file s" "glob s"] by (simp add: audio_begin(1) w)
next
  case (audio_block fm r w)
  then show ?thesis using that(3) by simp
next
  case audio_end
  then show ?thesis using that(4) by (simp add: audio_close_def request_def run_simps)
next
  case do_log
  then show ?thesis using that(1) silent_mild [OF mild_log_step, of "glob s"] by simp
next
  case (do_client th)
  then show ?thesis using that(1) silent_mild [OF mild_client_step, of "glob s" K th] by simp
next
  case (cmd_begin pc w)
  then show ?thesis using that(1) silent_keeps [OF keeps_cmd(2), of "glob s"] by simp
next
  case (cmd_turn fd tv pc w)
  then show ?thesis using that(1) silent_keeps [OF keeps_cmd(1), of "glob s" K fd tv] by simp
qed

text \<open>How far the audio thread has come, given the settings of the filter for the blocks so far.\<close>

definition heard_blocks :: "devices \<Rightarrow> int16 list \<Rightarrow> bool list \<Rightarrow> int16 list list" where
  "heard_blocks D xs fs = map2 (\<lambda>f k. heard D f (file_block xs k)) fs [0..<length fs]"

lemma heard_blocks_simps [simp]:
  "heard_blocks D xs [] = []"
  "heard_blocks D xs (fs @ [f]) = heard_blocks D xs fs @ [heard D f (file_block xs (length fs))]"
  by (simp_all add: heard_blocks_def)

definition progress :: "int16 list \<Rightarrow> audio_pc \<Rightarrow> int \<Rightarrow> nat \<Rightarrow> bool" where
  "progress xs pc reads n \<longleftrightarrow> n \<le> full_blocks xs \<and>
     (case pc of Not_created \<Rightarrow> n = 0 \<and> reads = 0 | Opening \<Rightarrow> n = 0 \<and> reads = 0 | Looping _ \<Rightarrow> reads = int n
      | Closing \<Rightarrow> n = full_blocks xs | Ended \<Rightarrow> n = 0 \<or> n = full_blocks xs)"

lemma progress_step:
  assumes "app_step K D s t" and "app_inv s" and "sound_file D xs"
    and "audio_active s \<Longrightarrow> main_pc s \<noteq> Exited \<Longrightarrow> current_mode (glob s) = EXEC_ARM"
    and "played (trace (glob s)) = heard_blocks D xs fs"
    and "progress xs (audio s) (tally read_weight (trace (glob s))) (length fs)"
  shows "\<exists>fs. played (trace (glob t)) = heard_blocks D xs fs \<and>
    progress xs (audio t) (tally read_weight (trace (glob t))) (length fs)"
  using assms(1,2)
proof (cases rule: step_sounds)
  case quietly
  define read where "read a = (case a of Sf_readf _ _ \<Rightarrow> True | _ \<Rightarrow> False)" for a
  have "read_weight e = int (length (filter read (sound_of e)))" for e
    by (cases e) (simp_all add: read_def split: audio_event.split)
  then have reads: "tally read_weight tr = int (length (filter read (sounds tr)))" for tr
    by (induction tr) simp_all
  show ?thesis
    using quietly assms(5,6) by (intro exI [of _ fs]) (auto simp: silent_def played_def reads progress_def)
next
  case start
  then show ?thesis
    using assms(5,6) by (intro exI [of _ fs]) (auto simp: progress_def)
next
  case (turn fm r)
  have "current_mode (glob s) = EXEC_ARM" "tally read_weight (trace (glob s)) = int (length fs)"
    using assms(4,6) turn(1,2) by (simp_all add: progress_def audio_active_def)
  note now = turn_values [OF this(1) assms(3) this(2) turn(3)]
  show ?thesis
  proof (cases r)
    case None
    then show ?thesis
      using now assms(5,6) turn(2,4) by (intro exI [of _ fs]) (simp add: progress_def)
  next
    case (Some fm')
    then show ?thesis
      using now assms(5) turn(4) by (intro exI [of _ "fs @ [filter_enabled (glob s)]"]) (simp add: progress_def)
  qed
next
  case finish
  then show ?thesis
    using assms(5,6) by (intro exI [of _ fs]) (simp add: progress_def)
qed

lemma reachable_progress:
  assumes "reachable K D s" and "sound_file D xs" and "\<not> is_dsp_execution (app_config (loaded K))"
  shows "\<exists>fs. played (trace (glob s)) = heard_blocks D xs fs \<and> progress xs (audio s) (tally read_weight (trace (glob s))) (length fs)"
  using assms(1)
proof (induction rule: reachable.induct)
  case initial
  show ?case by (intro exI [of _ "[]"]) (simp add: start_system_def start_metrics_fields progress_def)
next
  case (step s t)
  have inv: "app_inv s" and conf: "conf_inv K s"
    using step.hyps(1) by (rule reachable_inv, rule reachable_conf)
  have "current_mode (glob s) = EXEC_ARM" if "audio_active s" "main_pc s \<noteq> Exited"
  proof -
    have "main_pc s = Polling" using inv [unfolded app_inv_def] that by blast
    then show ?thesis using conf assms(3) by (simp add: conf_inv_def)
  qed
  with step.IH show ?case
    using progress_step [OF step.hyps(2) inv assms(2)] by blast
qed

text \<open>Without the filter and with an exact transform a block is heard as it is.\<close>

lemma heard_off:
  assumes "float_contract D" and "fft_contract D 256 0" and "length vs = BLOCK"
  shows "heard D False vs = vs"
proof -
  have "sample_value D (channel_output D False (channel_input m ch)) i = sint (m (i * CHANNELS + ch))" if "i < NUM_FRAMES" for m ch i
  proof -
    let ?xs = "channel_input m ch" and ?ys = "d_c2r D (d_r2c D (channel_input m ch))"
    have i: "i < 256" using that by (simp add: NUM_FRAMES_def)
    have "length ?xs = 256" by (simp add: channel_input_def NUM_FRAMES_def)
    with assms(2) have "length (d_r2c D ?xs) = 129" "\<forall>i < 256. \<bar>?ys ! i / 256 - ?xs ! i\<bar> \<le> 0"
      by (simp_all add: fft_contract_def)
    then have ys: "length ?ys = 256" "?ys ! i / 256 = ?xs ! i" using assms(2) i by (simp_all add: fft_contract_def)
    have "rnd64 D (?ys ! i / of_nat NUM_FRAMES) = ?ys ! i / of_nat NUM_FRAMES"
      using ys(1) i by (intro rnd64_scale [OF assms(1) nth_mem]) simp
    then have "rnd64 D (?ys ! i / of_nat NUM_FRAMES) = ?xs ! i"
      using ys(2) by (simp only: NUM_FRAMES_def of_nat_numeral)
    then show ?thesis
      using that by (simp add: sample_value_def channel_output_def channel_input_def)
  qed
  then have "arm_block D False CHANNELS m j = m j" for m j
    by (simp add: arm_block_def CHANNELS_def NUM_FRAMES_def div_less_iff_less_mult)
  then show ?thesis
    using extent_poke [of "\<lambda>_. 0" 0 vs, unfolded assms(3) add_0 extent_0 append_Nil]
    by (simp add: heard_def cong: extent_cong)
qed

subsection \<open>A run\<close>

definition arm_kernel :: kernel where
  "arm_kernel = sample_kernel\<lparr>k_fopen_r := \<lambda>tr path. Some (''HOST_ETH_INTERFACE=1'' @ [NL])\<rparr>"

lemma arm_loaded:
  "\<not> is_dsp_execution (app_config (loaded arm_kernel))" "is_host_eth_iface (app_config (loaded arm_kernel))"
proof -
  have K: "k_malloc_ok arm_kernel b n" "k_fopen_r arm_kernel tr p = Some (''HOST_ETH_INTERFACE=1'' @ [NL])" for b n tr p
    by (simp_all add: arm_kernel_def sample_kernel_def)
  have kvs: "settings (fgets_all 254 (''HOST_ETH_INTERFACE=1'' @ [NL])) = [(''HOST_ETH_INTERFACE'', ''1'')]" by code_simp
  have "num_of HOST_ETH_INTERFACE ''1'' = 1" by code_simp
  then show "\<not> is_dsp_execution (app_config (loaded arm_kernel))" "is_host_eth_iface (app_config (loaded arm_kernel))"
    using loaded_views(2) [OF K kvs, of DSP_EXEC_MODE] loaded_views(2) [OF K kvs, of HOST_ETH_INTERFACE]
    by (simp_all add: num_view_def)
qed

lemma sample_sound_file: "sound_file sample_devices (replicate 4096 5)"
proof -
  define read where "read e = (case e of Ev_audio (Sf_readf _ _) \<Rightarrow> True | _ \<Rightarrow> False)" for e
  have "read_weight e = (if read e then 1 else 0)" for e
    by (cases e) (simp_all add: read_def split: audio_event.split)
  then have count: "tally read_weight tr = int (length (filter read tr))" for tr
    by (induction tr) simp_all
  have "d_sf_readf sample_devices tr NUM_FRAMES =
      (if length (filter read tr) < 2 then (256, replicate 2048 5) else (0, []))" for tr
    by (simp add: sample_devices_def read_def [abs_def] Let_def NUM_FRAMES_def CHANNELS_def)
  moreover have "file_block (replicate 4096 5) k = (if k < 2 then replicate 2048 5 else [])" for k
  proof -
    have "min (4096 - 2048 * k) 2048 = (if k < 2 then 2048 else 0)" by (cases k) auto
    then show ?thesis by (simp add: file_block_def BLOCK_eq)
  qed
  ultimately show ?thesis by (simp add: sound_file_def count CHANNELS_def)
qed

lemma arm_opening:
  obtains s where "reachable arm_kernel D s" "main_pc s = Polling" "audio s = Opening"
proof -
  obtain s where s: "reachable arm_kernel D s" "main_pc s = Connecting" by (rule connecting_reached)
  have "is_host_eth_iface (app_config (glob s))"
    using reachable_conf [OF s(1)] s(2) arm_loaded(2) by (simp add: conf_inv_def)
  then have "run_state (init_host_interface arm_kernel) (glob s) = (None, exec (init_host_interface arm_kernel) (glob s))"
    by (simp add: init_host_interface_eth start_threads_adds(2) prod_eq_iff)
  from do_connect [OF s(2) this, of D]
  obtain t where t: "app_step arm_kernel D s t" "main_pc t = Filtering" "audio t = audio s" by simp
  from do_filter [OF t(2), of arm_kernel D]
  obtain u where u: "app_step arm_kernel D t u" "main_pc u = Polling" "audio u = audio t" by simp
  have u_reach: "reachable arm_kernel D u"
    by (rule reachable.step [OF reachable.step [OF s(1) t(1)] u(1)])
  have "audio s = Not_created" using reachable_inv [OF s(1)] s(2) by (simp add: app_inv_def phase_simps)
  then have "start_requested (glob u) = START_PLAY"
    using reachable_inv [OF u_reach] u(2,3) t(3) by (simp add: app_inv_def)
  moreover have "k_thread arm_kernel tr Thread_audio = 0" for tr
    by (simp add: arm_kernel_def sample_kernel_def)
  ultimately have run: "run_state (main_turn arm_kernel) (glob u) = (False, exec (main_turn arm_kernel) (glob u))"
      "start_requested (glob u) = START_PLAY"
    by (simp_all add: main_turn_run Let_def)
  from reachable.step [OF u_reach do_turn [OF u(2) run(1)]] show thesis
    by (rule that) (simp_all add: run(2))
qed

lemma arm_turn:
  assumes "reachable arm_kernel sample_devices s" and "main_pc s = Polling" and "audio s = Looping fm"
    and "tally read_weight (trace (glob s)) = int k"
  obtains t where "reachable arm_kernel sample_devices t" "main_pc t = Polling" "tally read_weight (trace (glob t)) = int (Suc k)"
    "if k < 2 then \<exists>fm'. audio t = Looping fm' else audio t = Closing"
proof -
  obtain r w where run: "run_state (audio_turn arm_kernel sample_devices fm) (glob s) = (r, w)" by fastforce
  have "main_pc s \<noteq> Exited" using assms(2) by simp
  note step = audio_block [OF this assms(3) run]
  have "current_mode (glob s) = EXEC_ARM"
    using reachable_conf [OF assms(1)] assms(2) arm_loaded(1) by (simp add: conf_inv_def)
  note turn = turn_values [OF this sample_sound_file assms(4) run]
  have "full_blocks (replicate 4096 (5 :: int16)) = 2" by (simp add: full_blocks_def BLOCK_eq)
  then have "r = None \<longleftrightarrow> \<not> k < 2" using turn(2) by simp
  then show thesis
    using reachable.step [OF assms(1) step] turn(1) assms(2) by (cases r) (auto intro!: that)
qed

lemma arm_closing:
  obtains s where "reachable arm_kernel sample_devices s" "audio s = Closing"
proof -
  obtain s where s: "reachable arm_kernel sample_devices s" "main_pc s = Polling" "audio s = Opening" by (rule arm_opening)
  define w where "w = exec (audio_start sample_devices (input_file s)) (glob s)"
  have "result (audio_open sample_devices f) v" for f and v :: metrics_world
    by (simp add: audio_open_def run_simps sample_devices_def CHANNELS_def SAMPLE_RATE_def)
  then have run: "run_state (audio_start sample_devices (input_file s)) (glob s) = (Looping (0, zero_metrics), w)"
    by (simp add: audio_start_def split_beta prod_eq_iff w_def)
  have "main_pc s \<noteq> Exited" using s(2) by simp
  note begin_step = reachable.step [OF s(1) audio_begin [OF this s(3) run]]
  have "tally read_weight (trace (glob s)) = 0"
    using reachable_progress [OF s(1) sample_sound_file arm_loaded(1)] s(3) by (auto simp: progress_def)
  then have "tally read_weight (trace w) = int 0" by (simp add: w_def audio_start_plays)
  then obtain t where t: "reachable arm_kernel sample_devices t" "main_pc t = Polling" "audio t = Looping (0, zero_metrics)"
      "tally read_weight (trace (glob t)) = int 0"
    using begin_step s(2) by fastforce
  obtain u fm where u: "reachable arm_kernel sample_devices u" "main_pc u = Polling" "audio u = Looping fm"
      "tally read_weight (trace (glob u)) = int 1"
    by (rule arm_turn [OF t]) force
  obtain v fm where v: "reachable arm_kernel sample_devices v" "main_pc v = Polling" "audio v = Looping fm"
      "tally read_weight (trace (glob v)) = int 2"
    by (rule arm_turn [OF u]) force
  from arm_turn [OF v] show thesis using that by auto
qed

subsection \<open>Properties\<close>



end
