(* ===== verification/Host_Stream.thy ===== *)
theory Host_Stream
  imports Playback
begin

text \<open>
  The audio thread and the data channels together: what the host utility reads from its two
  connections is the sound file before and after the processing.
\<close>

subsection \<open>The state of a channel\<close>

text \<open>The packets sent and the bytes pending; \<open>send_block\<close> is what an enqueue operation does to them.\<close>

definition send_block :: "string \<Rightarrow> string list \<times> string \<Rightarrow> string list \<times> string" where
  "send_block bs v = (if length (snd v) + length bs \<le> SEND_BUFFER_SIZE then (fst v, snd v @ bs) else (fst v @ [snd v], bs))"

interpretation wire: send_channel send_block "\<lambda>bs. bs" fst snd "\<lambda>v. length (snd v) \<le> SEND_BUFFER_SIZE"
    "\<lambda>bs. length bs \<le> SEND_BUFFER_SIZE" SEND_BUFFER_SIZE
  by unfold_locales (auto simp: send_block_def)

definition in_view :: "'w host_world_scheme \<Rightarrow> string list \<times> string" where
  "in_view s = (input_packets s, input_pending s)"

definition out_view :: "'w host_world_scheme \<Rightarrow> string list \<times> string" where
  "out_view s = (output_packets s, output_pending s)"

text \<open>Two connections to two clients.\<close>

definition both_ready :: "'w host_world_scheme \<Rightarrow> bool" where
  "both_ready s \<longleftrightarrow> input_ready s \<and> output_ready s \<and> client_indata_fd s \<noteq> client_outdata_fd s"

lemma put_input_views:
  assumes "both_ready s" and "call_valid c"
  shows "both_ready (put_input K c s)" "in_view (put_input K c s) = send_block (block_bytes (call_block c)) (in_view s)"
    "out_view (put_input K c s) = out_view s"
proof -
  define bs where "bs = block_bytes (call_block c)"
  define t where "t = (if send_inoffset s + length bs > SEND_BUFFER_SIZE then exec (flush_send_input_buffer K) s else s)"
  have ofs: "send_inoffset s \<le> SEND_BUFFER_SIZE" using assms(1) by (simp add: both_ready_def input_ready_def)
  have "client_outdata_fd t = client_outdata_fd s" "client_indata_fd t = client_indata_fd s" "send_outbuffer t = send_outbuffer s"
      "send_outoffset t = send_outoffset s" "packets (client_outdata_fd s) (trace t) = packets (client_outdata_fd s) (trace s)"
      "app_config t = app_config s"
    using assms(1) ofs by (simp_all add: t_def run_flush_input both_ready_def)
  then have other: "output_ready (put_input K c s) = output_ready s" "out_view (put_input K c s) = out_view s"
      "client_indata_fd (put_input K c s) = client_indata_fd s" "client_outdata_fd (put_input K c s) = client_outdata_fd s"
    by (simp_all add: run_put_input [OF ofs assms(2) bs_def t_def] output_ready_def out_view_def output_packets_def output_pending_def)
  have ready: "input_ready s" using assms(1) by (simp add: both_ready_def)
  show "both_ready (put_input K c s)" "in_view (put_input K c s) = send_block (block_bytes (call_block c)) (in_view s)"
    "out_view (put_input K c s) = out_view s"
    using put_input_result [OF ready assms(2), of K] other assms(1)
    by (simp_all add: both_ready_def in_view_def send_block_def del: put_input.simps)
qed

lemma put_output_views:
  assumes "both_ready s" and "call_valid c"
  shows "both_ready (put_output K c s)" "out_view (put_output K c s) = send_block (block_bytes (call_block c)) (out_view s)"
    "in_view (put_output K c s) = in_view s"
proof -
  define bs where "bs = block_bytes (call_block c)"
  define t where "t = (if send_outoffset s + length bs > SEND_BUFFER_SIZE then exec (flush_send_output_buffer K) s else s)"
  have ofs: "send_outoffset s \<le> SEND_BUFFER_SIZE" using assms(1) by (simp add: both_ready_def output_ready_def)
  have "client_outdata_fd t = client_outdata_fd s" "client_indata_fd t = client_indata_fd s" "send_inbuffer t = send_inbuffer s"
      "send_inoffset t = send_inoffset s" "packets (client_indata_fd s) (trace t) = packets (client_indata_fd s) (trace s)"
      "app_config t = app_config s"
    using assms(1) ofs by (simp_all add: t_def run_flush_output both_ready_def)
  then have other: "input_ready (put_output K c s) = input_ready s" "in_view (put_output K c s) = in_view s"
      "client_indata_fd (put_output K c s) = client_indata_fd s" "client_outdata_fd (put_output K c s) = client_outdata_fd s"
    by (simp_all add: run_put_output [OF ofs assms(2) bs_def t_def] input_ready_def in_view_def input_packets_def input_pending_def)
  have ready: "output_ready s" using assms(1) by (simp add: both_ready_def)
  show "both_ready (put_output K c s)" "out_view (put_output K c s) = send_block (block_bytes (call_block c)) (out_view s)"
    "in_view (put_output K c s) = in_view s"
    using put_output_result [OF ready assms(2), of K] other assms(1)
    by (simp_all add: both_ready_def out_view_def send_block_def del: put_output.simps)
qed

subsection \<open>What the other parts of a turn leave alone\<close>

definition wired :: "'w app_world_scheme \<Rightarrow> 'w app_world_scheme \<Rightarrow> bool" where
  "wired s t \<longleftrightarrow> (\<forall>fd. packets fd (trace t) = packets fd (trace s)) \<and> app_config t = app_config s \<and>
     current_channel t = current_channel s \<and> inputbuf t = inputbuf s \<and>
     client_indata_fd t = client_indata_fd s \<and> send_inbuffer t = send_inbuffer s \<and> send_inoffset t = send_inoffset s \<and>
     client_outdata_fd t = client_outdata_fd s \<and> send_outbuffer t = send_outbuffer s \<and> send_outoffset t = send_outoffset s"

definition unsent :: "event \<Rightarrow> bool" where
  "unsent e \<longleftrightarrow> (\<forall>fd. sent_packet fd e = [])"

lemma unsent_simps [simp]: "unsent (Ev_audio a)" "unsent (Ev_dma_sync fd fl r)"
  by (simp_all add: unsent_def)

interpretation wiring: sample_frame wired unsent
proof unfold_locales
  show "unsent e" if "plain e" for e using that by (cases e) (simp_all add: unsent_def)
qed (auto simp: wired_def logged_def unsent_def)

interpretation meter_wiring: measured_frame wired unsent
  by unfold_locales

lemma wired_views:
  assumes "wired s t"
  shows "both_ready t = both_ready s" "in_view t = in_view s" "out_view t = out_view s"
  using assms
  by (simp_all add: wired_def both_ready_def input_ready_def output_ready_def in_view_def out_view_def
      input_packets_def output_packets_def input_pending_def output_pending_def)

lemma capture_views [simp]:
  "both_ready (s\<lparr>inputbuf := i, outputbuf := j\<rparr>) = both_ready s" "in_view (s\<lparr>inputbuf := i, outputbuf := j\<rparr>) = in_view s"
  "out_view (s\<lparr>inputbuf := i, outputbuf := j\<rparr>) = out_view s" "both_ready (s\<lparr>inputbuf := i\<rparr>) = both_ready s"
  "in_view (s\<lparr>inputbuf := i\<rparr>) = in_view s" "out_view (s\<lparr>inputbuf := i\<rparr>) = out_view s"
  by (simp_all add: both_ready_def input_ready_def output_ready_def in_view_def out_view_def
      input_packets_def output_packets_def input_pending_def output_pending_def)

subsection \<open>A turn of the loop\<close>

definition tagged :: "string \<Rightarrow> nat \<Rightarrow> int16 list \<Rightarrow> string" where
  "tagged tag ch vs = block_bytes (Block tag (channel_samples vs 256 8 ch))"

lemma wired_read:
  "wired (s\<lparr>inputbuf := (\<lambda>_. 0), outputbuf := (\<lambda>_. 0)\<rparr>) (exec (read_block K D) s)"
proof -
  define rest :: "('a app_world_scheme, int) state" where
    "rest = do { sync_data K DMA_BUF_SYNC_START; a \<leftarrow> sf_readf D NUM_FRAMES; let (frames_read, vs) = a;
       ok \<leftarrow> gets (data_access (2 * length vs)); check_ub ok Buffer_overflow;
       modify (\<lambda>s. s\<lparr>data_mem := poke (data_mem s) 0 vs\<rparr>); ret frames_read }"
  have "preserves wired rest"
    unfolding rest_def sync_data_def sf_readf_def Devices.audio_def
    by (intro wiring.log_rules wiring.sync wiring.emit wiring.rewrite) simp_all
  then show ?thesis
    using preservesD [of wired rest] by (simp add: read_block_def rest_def)
qed

lemma wired_transform:
  assumes "current_mode s = EXEC_ARM"
  shows "wired (s\<lparr>inputbuf := poke (inputbuf s) 0 (extent (data_mem s) BLOCK)\<rparr>) (exec (transform_block K D) s)"
proof -
  define rest :: "('a app_world_scheme, rat) state" where
    "rest = do { sync_data K DMA_BUF_SYNC_END; t1 \<leftarrow> clock_gettime D; process_on_arm D; t2 \<leftarrow> clock_gettime D;
       ret (time_diff_ms D t1 t2) }"
  have rest: "preserves wired rest"
    unfolding rest_def sync_data_def by (intro wiring.log_rules wiring.sync wiring.clock wiring.arm) simp_all
  define b where "b = exec block_samples_now s"
  have same: "\<exists>f. b = s\<lparr>fault := f\<rparr>" "result block_samples_now s = extent (data_mem s) BLOCK"
    by (auto simp: b_def block_samples_now_def run_check_ub BLOCK_def intro: exI [of _ "fault s"])
  let ?c = "b\<lparr>inputbuf := poke (inputbuf b) 0 (extent (data_mem s) BLOCK)\<rparr>"
  define rest' :: "('a app_world_scheme, rat) state" where
    "rest' = do { sync_data K DMA_BUF_SYNC_END; t1 \<leftarrow> clock_gettime D; process_mode K D; t2 \<leftarrow> clock_gettime D;
       ret (time_diff_ms D t1 t2) }"
  have "current_mode (exec (sync_data K DMA_BUF_SYNC_END) u) = current_mode u"
      "current_mode (exec (clock_gettime D) u) = current_mode u" for u :: "'a app_world_scheme"
    by (simp_all add: sync_data_def dmabuf_sync_def ioctl_dma_sync_def clock_gettime_def Devices.audio_def run_emit)
  then have "exec rest' u = exec rest u" if "current_mode u = EXEC_ARM" for u
    using that by (simp add: rest_def rest'_def process_mode_def split_beta)
  moreover have "current_mode ?c = EXEC_ARM" using same(1) assms by auto
  moreover have "transform_block K D = do { vs \<leftarrow> block_samples_now; modify (\<lambda>s. s\<lparr>inputbuf := poke (inputbuf s) 0 vs\<rparr>); rest' }"
    by (simp add: transform_block_def rest'_def)
  then have "exec (transform_block K D) s = exec rest' ?c"
    by (simp only: exec_bind same(2) run_state_update snd_conv flip: b_def)
  ultimately have "exec (transform_block K D) s = exec rest ?c" by metis
  moreover have "wired (s\<lparr>inputbuf := poke (inputbuf s) 0 (extent (data_mem s) BLOCK)\<rparr>) ?c"
    using same(1) by (auto simp: wired_def)
  ultimately show ?thesis
    using wiring.chain [OF _ preservesD [OF rest]] by simp
qed

lemma channel_of_extent:
  assumes "length vs = BLOCK" and "ch < 8"
  shows "map (\<lambda>i. extent (poke m 0 vs) 4096 ! (i * 8 + ch)) [0..<256] = channel_samples vs 256 8 ch"
  using assms by (auto simp: channel_samples_def extent_def poke_def BLOCK_eq)

lemma play_stream:
  assumes "t = exec (play_block K D) s" and "both_ready s" and "current_channel s = ch" and "ch < 8"
    and "inputbuf s = poke m 0 vs" and "length vs = BLOCK"
  shows "both_ready t" "current_channel t = ch"
    "in_view t = send_block (tagged ''INPT'' ch vs) (in_view s)"
    "out_view t = send_block (tagged ''OUTP'' ch (extent (data_mem s) BLOCK)) (out_view s)"
proof -
  define before :: "('a app_world_scheme, int16 list) state" where
    "before = do { vs \<leftarrow> block_samples_now; _ \<leftarrow> snd_pcm_writei D vs; block_samples_now }"
  have "preserves wired before"
    unfolding before_def by (intro wiring.log_rules wiring.writei) simp
  then have wired: "wired s (exec before s)" by (rule preservesD)
  have out: "result before s = extent (data_mem s) BLOCK"
    by (simp add: before_def block_samples_now_def snd_pcm_writei_def Devices.audio_def run_emit run_check_ub BLOCK_def)
  define b where "b = (exec before s)\<lparr>outputbuf := poke (outputbuf (exec before s)) 0 (extent (data_mem s) BLOCK)\<rparr>"
  have "both_ready b = both_ready (exec before s)" "in_view b = in_view (exec before s)" "out_view b = out_view (exec before s)"
    by (rule wired_views; simp add: wired_def b_def)+
  then have b: "both_ready b" "in_view b = in_view s" "out_view b = out_view s"
    using wired_views [OF wired] assms(2) by simp_all
  have b_fields: "current_channel b = ch" "inputbuf b = poke m 0 vs" "outputbuf b = poke (outputbuf (exec before s)) 0 (extent (data_mem s) BLOCK)"
    using wired assms(3,5) by (simp_all add: b_def wired_def)
  define ins where "ins = extent (inputbuf b) 4096"
  define c where "c = put_input K (''INPT'', take 2048 ins, 256, 8, ch) b"
  have ins: "2048 \<le> length ins" by (simp add: ins_def)
  have valid: "call_valid (tag, take 2048 buf, 256, 8, ch)" if "length tag = 4" "2048 \<le> length buf" for tag buf
    using log_audio_put(3) [OF that(2) assms(4), of tag] that(1) by (simp add: SEND_BUFFER_SIZE_def del: call_valid.simps)
  note inp = put_input_views [OF b(1) valid [OF _ ins, of "''INPT''"], of K, folded c_def]
  have ofs: "send_inoffset b \<le> SEND_BUFFER_SIZE" using b(1) by (simp add: both_ready_def input_ready_def)
  have c_fields: "current_channel c = ch" "outputbuf c = outputbuf b"
    using run_put_input [OF ofs valid [OF _ ins, of "''INPT''"] refl refl, of K] b_fields(1)
    by (simp_all add: c_def run_flush_input [OF ofs] del: put_input.simps call_valid.simps call_block.simps)
  define outs where "outs = extent (outputbuf c) 4096"
  have outs: "2048 \<le> length outs" by (simp add: outs_def)
  have sizes: "DATA_BUFFER_SIZE = 4096" "NUM_FRAMES = 256" "CHANNELS = 8"
    by (simp_all add: DATA_BUFFER_SIZE_def FRAME_SIZE_def NUM_FRAMES_def CHANNELS_def BITS_PER_SAMPLE_def)
  have play: "play_block K D = do { vs \<leftarrow> before; modify (\<lambda>s. s\<lparr>outputbuf := poke (outputbuf s) 0 vs\<rparr>);
     channel \<leftarrow> gets current_channel;
     ins \<leftarrow> gets (\<lambda>s. extent (inputbuf s) 4096); log_input_audio K ins 256 8 channel;
     outs \<leftarrow> gets (\<lambda>s. extent (outputbuf s) 4096); log_output_audio K outs 256 8 channel }"
    by (simp add: play_block_def before_def sizes)
  have fields: "current_channel (exec before s) = ch" "inputbuf (exec before s) = poke m 0 vs" "ins = extent (poke m 0 vs) 4096"
    using wired assms(3,5) b_fields(2) by (simp_all add: wired_def ins_def)
  have "exec (log_input_audio K ins 256 8 ch) b = c" unfolding c_def by (rule log_audio_put(1) [OF ins assms(4)])
  then have "t = exec (log_output_audio K outs 256 8 ch) c"
    by (simp add: assms(1) play split_beta out fields outs_def flip: b_def)
  then have t: "t = put_output K (''OUTP'', take 2048 outs, 256, 8, ch) c"
    using log_audio_put(2) [OF outs assms(4)] by (simp del: put_output.simps)
  note outp = put_output_views [OF inp(1) valid [OF _ outs, of "''OUTP''"], of K, folded t]
  have "current_channel t = current_channel c"
  proof -
    have "send_outoffset c \<le> SEND_BUFFER_SIZE" using inp(1) by (simp add: both_ready_def output_ready_def)
    from run_put_output [OF this valid [OF _ outs, of "''OUTP''"] refl refl, of K] show ?thesis
      by (simp add: t run_flush_output [OF \<open>send_outoffset c \<le> SEND_BUFFER_SIZE\<close>] del: put_output.simps call_valid.simps call_block.simps)
  qed
  then show "current_channel t = ch" by (simp add: c_fields)
  have blocks: "call_block (tag, take 2048 ins, 256, 8, ch) = Block tag (channel_samples vs 256 8 ch)"
      "call_block (tag, take 2048 outs, 256, 8, ch) = Block tag (channel_samples (extent (data_mem s) BLOCK) 256 8 ch)" for tag
    using log_audio_put(4) [OF ins assms(4)] log_audio_put(4) [OF outs assms(4)] channel_of_extent [OF _ assms(4)] assms(6)
    by (simp_all add: ins_def outs_def b_fields c_fields del: call_block.simps)
  show "both_ready t" "in_view t = send_block (tagged ''INPT'' ch vs) (in_view s)"
    "out_view t = send_block (tagged ''OUTP'' ch (extent (data_mem s) BLOCK)) (out_view s)"
    using outp inp b by (simp_all add: tagged_def blocks del: call_block.simps)
qed

lemma turn_stream:
  assumes "current_mode s = EXEC_ARM" and "sound_file D xs" and "tally read_weight (trace s) = int k" and "k < full_blocks xs"
    and "both_ready s" and "current_channel s = ch" and "ch < 8" and run: "run_state (audio_turn K D fm) s = (r, t)"
  shows "both_ready t" "current_channel t = ch" "in_view t = send_block (tagged ''INPT'' ch (file_block xs k)) (in_view s)"
    "out_view t = send_block (tagged ''OUTP'' ch (heard D (filter_enabled s) (file_block xs k))) (out_view s)"
proof -
  have len: "length (file_block xs k) = BLOCK" using block_full(2) [OF assms(4)] .
  define u where "u = exec (read_block K D) s"
  define v where "v = exec (transform_block K D) u"
  define middle where "middle = (do { sync_data K DMA_BUF_SYNC_START; sync_options K DMA_BUF_SYNC_START;
     measure_block K D (result (transform_block K D) u) fm } :: ('a metrics_world_scheme, _) state)"
  define w where "w = exec middle v"
  define x where "x = exec (play_block K D) w"
  define last where "last fm' = (do { sync_options K DMA_BUF_SYNC_END; sync_data K DMA_BUF_SYNC_END;
     (if fst fm' mod 10 = 0 then log_summary D (fst fm') (snd fm') else ret ()) } :: ('a metrics_world_scheme, _) state)" for fm'
  have "preserves wired middle" "preserves wired (last fm')" for fm'
    unfolding middle_def last_def sync_data_def sync_options_def
    by (intro wiring.log_rules wiring.sync meter_wiring.measure; simp)+
  then have parts: "wired v w" "wired x (exec (last fm') x)" for fm'
    unfolding w_def by (blast dest: preservesD)+
  have "preserves (tells unheard) middle"
    unfolding middle_def sync_data_def sync_options_def
    by (intro telling.aside_rules telling.logs.sync meter_telling.measure; simp)
  then have mem: "data_mem w = data_mem v" unfolding w_def by (auto dest!: preservesD simp: tells_def)
  have result: "result (read_block K D) s = int NUM_FRAMES"
    using read_values(1) [OF assms(2,3)] assms(4) by simp
  note u = read_values(2,3) [OF assms(2,3), of K, folded u_def]
  have arm: "current_mode u = EXEC_ARM"
    using read_block_keeps [of s K D] assms(1) by (simp add: keeps_def u_def)
  have t: "t = exec (last (result middle v)) x"
    using run result by (auto simp: exec_audio_turn Let_def process_block_def split_beta u_def v_def w_def x_def middle_def last_def)
  have read: "wired (s\<lparr>inputbuf := (\<lambda>_. 0), outputbuf := (\<lambda>_. 0)\<rparr>) u"
    unfolding u_def by (rule wired_read)
  have transform: "wired (u\<lparr>inputbuf := poke (inputbuf u) 0 (file_block xs k)\<rparr>) v"
    using wired_transform [OF arm, of K D] extent_poke [of "data_mem s" 0 "file_block xs k", unfolded len] by (simp add: v_def u)
  have w: "both_ready w" "in_view w = in_view s" "out_view w = out_view s" "current_channel w = ch" "inputbuf w = poke (inputbuf u) 0 (file_block xs k)"
    using wired_views [OF read] wired_views [OF transform] wired_views [OF parts(1)] read transform parts(1) assms(5,6)
    by (simp_all add: capture_views wired_def)
  have "extent (data_mem w) BLOCK = heard D (filter_enabled s) (file_block xs k)"
    using transform_values(2) [OF arm, of K D] heard_poke [OF len] by (simp add: mem u flip: v_def)
  then show "both_ready t" "current_channel t = ch" "in_view t = send_block (tagged ''INPT'' ch (file_block xs k)) (in_view s)"
    "out_view t = send_block (tagged ''OUTP'' ch (heard D (filter_enabled s) (file_block xs k))) (out_view s)"
    using play_stream [OF x_def w(1,4) assms(7) w(5) len] w(2,3) wired_views [OF parts(2)] parts(2) by (simp_all add: t wired_def)
qed

subsection \<open>A run of the loop\<close>

lemma loop_stream:
  assumes wav: "sound_file D xs" and ch: "ch < 8"
  shows "current_mode s = EXEC_ARM \<Longrightarrow> tally read_weight (trace s) = int k \<Longrightarrow> k + n = full_blocks xs \<Longrightarrow> both_ready s \<Longrightarrow>
    current_channel s = ch \<Longrightarrow> run_state (audio_loop K D fm (Suc n)) s = (r, t) \<Longrightarrow>
    r \<and> both_ready t \<and> in_view t = fold send_block (map (\<lambda>j. tagged ''INPT'' ch (file_block xs j)) [k..<full_blocks xs]) (in_view s) \<and>
    out_view t = fold send_block (map (\<lambda>j. tagged ''OUTP'' ch (heard D (filter_enabled s) (file_block xs j))) [k..<full_blocks xs]) (out_view s)"
proof (induction n arbitrary: k s fm)
  case 0
  then have "result (read_block K D) s \<noteq> int NUM_FRAMES" using read_values(1) [OF wav 0(2)] by simp
  then have "r" "t = exec (read_block K D) s"
    using 0(6) by (auto simp: exec_audio_turn Let_def)
  then show ?case
    using 0(3,4) wired_views [OF wired_read [of s K D]] by simp
next
  case (Suc n)
  obtain r' u where run: "run_state (audio_turn K D fm) s = (r', u)" by fastforce
  have k: "k < full_blocks xs" using Suc.prems(3) by simp
  note turn = turn_values [OF Suc.prems(1) wav Suc.prems(2) run]
  note stream = turn_stream [OF Suc.prems(1) wav Suc.prems(2) k Suc.prems(4,5) ch run]
  obtain fm' where fm': "r' = Some fm'" using turn(2) k by auto
  have "run_state (audio_loop K D fm' (Suc n)) u = (r, t)"
    using Suc.prems(6) run fm' by (simp del: audio_loop.simps(2) add: audio_loop.simps(2) [of K D fm "Suc n"])
  from Suc.IH [OF turn(5,1) _ stream(1,2) this] show ?case
    using Suc.prems(3) stream(3,4) turn(4) upt_conv_Cons [OF k] by simp
qed

lemma tagged_blocks:
  "length (tagged tag ch vs) = length tag + 512"
  "length tag = 4 \<Longrightarrow> read_audio_samples tag (concat (map (tagged tag ch) vss)) = concat (map (\<lambda>vs. map sint (channel_samples vs 256 8 ch)) vss)"
proof -
  show "length (tagged tag ch vs) = length tag + 512" by (simp add: tagged_def)
  show "read_audio_samples tag (concat (map (tagged tag ch) vss)) = concat (map (\<lambda>vs. map sint (channel_samples vs 256 8 ch)) vss)"
    if "length tag = 4"
    using read_blocks [OF that, of "map (\<lambda>vs. Block tag (channel_samples vs 256 8 ch)) vss"]
    by (simp add: comp_def tagged_def [abs_def])
qed

lemma sent_blocks:
  assumes "length tag = 4" and "v = fold send_block (map (tagged tag ch) vss) ([], [])"
  shows "read_audio_samples tag (concat (fst v)) =
    concat (map (\<lambda>vs. map sint (channel_samples vs 256 8 ch)) (take ((length vss - 1) div 31 * 31) vss))"
proof -
  have "concat (fst v) = concat (map (tagged tag ch) (take ((length vss - 1) div 31 * 31) vss))"
    using wire.uniform_sent [OF _ blocks_fit, of "([], [])" "map (tagged tag ch) vss"] assms
    by (simp add: tagged_blocks(1) take_map blocks_per_buffer SEND_BUFFER_SIZE_def)
  then show ?thesis by (simp add: tagged_blocks(2) [OF assms(1)])
qed

subsection \<open>Properties\<close>

text \<open>
  C24: what the host utility receives of a sound file. On the ARM, with both data connections made
  and nothing sent before, a run of the audio loop over a file of \<open>n\<close> full blocks ends after
  \<open>n + 1\<close> turns, and the readers of the utility, applied to what was sent on the two connections,
  get the samples of the selected channel of the file, and of the same blocks after the
  processing, in order: those of the largest multiple of 31 blocks below \<open>n\<close> (the rest stays in
  the buffers when the thread ends). No other thread moves meanwhile.
\<close>
theorem host_receives_file:
  assumes "sound_file D xs" and "current_mode s = EXEC_ARM" and "tally read_weight (trace s) = 0"
    and "both_ready s" and "in_view s = ([], [])" and "out_view s = ([], [])"
    and "current_channel s = ch" and "ch < 8" and "n = length xs div 2048"
    and "run_state (audio_loop K D fm (n + 1)) s = (ended, t)"
  shows "ended \<and> read_audio_samples ''INPT'' (concat (input_packets t)) =
      concat (map (\<lambda>k. map sint (channel_samples (file_block xs k) 256 8 ch)) [0..<(n - 1) div 31 * 31]) \<and>
    read_audio_samples ''OUTP'' (concat (output_packets t)) =
      concat (map (\<lambda>k. map sint (channel_samples (heard D (filter_enabled s) (file_block xs k)) 256 8 ch)) [0..<(n - 1) div 31 * 31])"
proof -
  have n: "full_blocks xs = n" by (simp add: full_blocks_def BLOCK_eq assms(9))
  have run: "run_state (audio_loop K D fm (Suc n)) s = (ended, t)" using assms(10) by simp
  have loop: "ended \<and> both_ready t \<and>
      in_view t = fold send_block (map (\<lambda>j. tagged ''INPT'' ch (file_block xs j)) [0..<n]) ([], []) \<and>
      out_view t = fold send_block (map (\<lambda>j. tagged ''OUTP'' ch (heard D (filter_enabled s) (file_block xs j))) [0..<n]) ([], [])"
    using loop_stream [OF assms(1,8,2) _ _ assms(4,7) run, of 0] assms(3,5,6) n by simp
  have "m \<le> n - 1 \<Longrightarrow> take m [0..<n] = [0..<m]" for m by (simp add: take_upt)
  then have take: "take ((n - 1) div 31 * 31) [0..<n] = [0..<(n - 1) div 31 * 31]" by simp
  have packets: "input_packets t = fst (in_view t)" "output_packets t = fst (out_view t)"
    by (simp_all add: in_view_def out_view_def)
  show ?thesis
    unfolding packets using loop sent_blocks [of "''INPT''" "in_view t" ch "map (file_block xs) [0..<n]"]
      sent_blocks [of "''OUTP''" "out_view t" ch "map (\<lambda>j. heard D (filter_enabled s) (file_block xs j)) [0..<n]"]
    by (simp add: comp_def take_map take)
qed

text \<open>A file of 32 blocks, and a state with both connections.\<close>

definition file_devices :: "int16 list \<Rightarrow> devices" where
  "file_devices xs = sample_devices\<lparr>d_sf_readf := \<lambda>tr n.
     (let vs = file_block xs (nat (tally read_weight tr)) in (int (length vs div CHANNELS), vs))\<rparr>"

lemma file_devices_file: "sound_file (file_devices xs) xs"
  by (simp add: sound_file_def file_devices_def Let_def)

definition connected_start :: metrics_world where
  "connected_start = start_metrics\<lparr>client_indata_fd := 5, client_outdata_fd := 6,
     app_config := zero_config\<lparr>is_host_eth_iface := True\<rparr>\<rparr>"

lemma connected_start_views:
  "current_mode connected_start = EXEC_ARM" "tally read_weight (trace connected_start) = 0" "both_ready connected_start"
  "in_view connected_start = ([], [])" "out_view connected_start = ([], [])" "current_channel connected_start = 0"
  by (simp_all add: connected_start_def start_metrics_def zero_app_def zero_host_def host_world.defs app_world.defs both_ready_def
      input_ready_def output_ready_def in_view_def out_view_def input_packets_def output_packets_def input_pending_def output_pending_def)

theorem host_receives_file_witness:
  "\<exists>t. read_audio_samples ''INPT'' (concat (input_packets (t :: metrics_world))) = replicate 7936 7"
proof -
  define xs :: "int16 list" where "xs = replicate (2048 * 32) 7"
  obtain e t where run: "run_state (audio_loop sample_kernel (file_devices xs) (0, zero_metrics) (32 + 1)) connected_start = (e, t)"
    by fastforce
  have n: "32 = length xs div 2048" by (simp only: xs_def length_replicate)
  have block: "channel_samples (file_block xs k) 256 8 0 = replicate 256 7" if "k < 31" for k
  proof -
    have "2048 \<le> 2048 * (32 - k)" using that by simp
    then have "file_block xs k = replicate 2048 7"
      using that by (simp add: file_block_def BLOCK_eq xs_def right_diff_distrib')
    then show ?thesis by (auto simp: channel_samples_def intro!: nth_equalityI)
  qed
  have "read_audio_samples ''INPT'' (concat (input_packets t)) =
      concat (map (\<lambda>k. map sint (channel_samples (file_block xs k) 256 8 0)) [0..<(32 - 1) div 31 * 31])"
    using host_receives_file [OF file_devices_file connected_start_views _ n run] by simp
  also have "\<dots> = concat (map (\<lambda>k. replicate 256 7) [0..<31])"
    by (intro arg_cong [of _ _ concat] map_cong) (simp_all add: block)
  also have "\<dots> = replicate 7936 7"
    by (simp add: map_replicate_const concat_replicates)
  finally show ?thesis by blast
qed

end
