(* ===== verification/Host_Log.thy ===== *)
theory Host_Log
  imports Metrics
begin

text \<open>
  The log channel seen from its other end: \<open>read_data\<close> of the host utility
  (\<^verbatim>\<open>host utility/audmon.py\<close>) splits the stream into lines and reads the measurements of a
  frame back with a regular expression. Together with \<open>log_frame_metrics\<close> and \<open>log_writer\<close>:
  which measurements reach the host. The text is ASCII, so a character is a byte.
\<close>

subsection \<open>The pattern of a frame line\<close>

text \<open>
  Parsers return what they matched and the rest. In \<open>log_pattern\<close> every repeated class of
  characters is followed by a character outside it, so the longest match of each repetition
  is the only one to consider.
\<close>

fun literal :: "string \<Rightarrow> string \<Rightarrow> string option" where
  "literal [] str = Some str"
| "literal (p # ps) [] = None"
| "literal (p # ps) (c # cs) = (if c = p then literal ps cs else None)"

definition many1 :: "(char \<Rightarrow> bool) \<Rightarrow> string \<Rightarrow> (string \<times> string) option" where
  "many1 P str = (let m = takeWhile P str in if m = [] then None else Some (m, dropWhile P str))"

definition py_space :: "char \<Rightarrow> bool" where
  "py_space c \<longleftrightarrow> isspace c \<or> 28 \<le> (of_char c :: nat) \<and> (of_char c :: nat) \<le> 31"

definition num_char :: "char \<Rightarrow> bool" where
  "num_char c \<longleftrightarrow> isdigit c \<or> c = CHR ''.''"

definition upper :: "char \<Rightarrow> bool" where
  "upper c \<longleftrightarrow> 65 \<le> (of_char c :: nat) \<and> (of_char c :: nat) \<le> 90"

text \<open>The six groups of a match at the start of the text, and of the first match (\<open>re.search\<close>).\<close>

type_synonym groups = "string \<times> string \<times> string \<times> string \<times> string \<times> string"

definition frame_match :: "string \<Rightarrow> groups option" where
  "frame_match str = do {
     str \<leftarrow> literal ''Frame'' str;
     (_, str) \<leftarrow> many1 py_space str;
     (frame, str) \<leftarrow> many1 isdigit str;
     str \<leftarrow> literal '':'' str;
     (_, str) \<leftarrow> many1 py_space str;
     str \<leftarrow> literal ''AvgAmp='' str;
     (amp, str) \<leftarrow> many1 num_char str;
     str \<leftarrow> literal '','' str;
     (_, str) \<leftarrow> many1 py_space str;
     str \<leftarrow> literal ''Latency='' str;
     (lat, str) \<leftarrow> many1 num_char str;
     str \<leftarrow> literal ''ms,'' str;
     (_, str) \<leftarrow> many1 py_space str;
     str \<leftarrow> literal ''Mode='' str;
     (mode, str) \<leftarrow> many1 upper str;
     (_, str) \<leftarrow> many1 py_space str;
     str \<leftarrow> literal ''CPULoad='' str;
     (cpu, str) \<leftarrow> many1 num_char str;
     str \<leftarrow> literal ''%'' str;
     (_, str) \<leftarrow> many1 py_space str;
     str \<leftarrow> literal ''DSPLoad='' str;
     (dsp, str) \<leftarrow> many1 num_char str;
     _ \<leftarrow> literal ''%'' str;
     Some (frame, amp, lat, mode, cpu, dsp) }"

fun frame_search :: "string \<Rightarrow> groups option" where
  "frame_search [] = frame_match []"
| "frame_search (c # cs) = (case frame_match (c # cs) of None \<Rightarrow> frame_search cs | Some m \<Rightarrow> Some m)"

text \<open>\<open>float\<close> on a text of digits and points: \<open>None\<close> where it raises \<open>ValueError\<close>.\<close>

definition py_float :: "devices \<Rightarrow> string \<Rightarrow> rat option" where
  "py_float D str =
     (let a = takeWhile isdigit str
      in case dropWhile isdigit str of
           [] \<Rightarrow> if a = [] then None else Some (rnd64 D (of_int (digits_val a)))
         | c # b \<Rightarrow>
             if c = CHR ''.'' \<and> list_all isdigit b \<and> (a \<noteq> [] \<or> b \<noteq> [])
             then Some (rnd64 D (of_int (digits_val (a @ b)) / 10 ^ length b)) else None)"

subsection \<open>The measurements shown\<close>

definition MAX_FRAMES :: nat where "MAX_FRAMES = 2048"

record gui =
  frame_numbers :: "int list"
  avg_amps :: "rat list"
  latencies :: "rat list"
  gui_modes :: "string list"
  cpu_loads :: "rat list"
  dsp_loads :: "rat list"
  gui_mode :: string

text \<open>The queues after \<open>clear_data\<close>, which runs when the connection is made.\<close>

definition clear_gui :: gui where
  "clear_gui = \<lparr>frame_numbers = [], avg_amps = [], latencies = [], gui_modes = [], cpu_loads = [], dsp_loads = [],
     gui_mode = ''BOTH''\<rparr>"

text \<open>\<open>append\<close> on a \<open>deque\<close> with \<open>maxlen\<close> drops elements at the other end.\<close>

definition last_n :: "nat \<Rightarrow> 'a list \<Rightarrow> 'a list" where
  "last_n n xs = drop (length xs - n) xs"

definition deque_append :: "'a list \<Rightarrow> 'a \<Rightarrow> 'a list" where
  "deque_append xs x = last_n MAX_FRAMES (xs @ [x])"

text \<open>The logarithm of Python's \<open>math\<close> module is the parameter \<open>lg\<close>.\<close>

definition amplitude_to_dbfs :: "devices \<Rightarrow> (rat \<Rightarrow> rat) \<Rightarrow> rat \<Rightarrow> rat" where
  "amplitude_to_dbfs D lg amp = (if amp \<le> 0 then - 100 else rnd64 D (20 * lg (rnd64 D (amp / 32767))))"

definition parse_log_line :: "devices \<Rightarrow> (rat \<Rightarrow> rat) \<Rightarrow> string \<Rightarrow> gui \<Rightarrow> gui" where
  "parse_log_line D lg line g =
     (case frame_search line of None \<Rightarrow> g
      | Some (frame, amp, lat, mode, cpu, dsp) \<Rightarrow>
          case (py_float D amp, py_float D lat, py_float D cpu, py_float D dsp) of
            (Some amp, Some lat, Some cpu, Some dsp) \<Rightarrow>
              (let mapped_mode = (if gui_mode g = ''ARM'' then ''CPU'' else if gui_mode g = ''DSP'' then ''DSP'' else ''BOTH'')
               in if mapped_mode \<noteq> ''BOTH'' \<and> mode \<noteq> mapped_mode then g
                  else g\<lparr>frame_numbers := deque_append (frame_numbers g) (digits_val frame),
                         avg_amps := deque_append (avg_amps g) (amplitude_to_dbfs D lg amp),
                         latencies := deque_append (latencies g) lat,
                         gui_modes := gui_modes g @ [mode],
                         cpu_loads := deque_append (cpu_loads g) cpu,
                         dsp_loads := deque_append (dsp_loads g) dsp\<rparr>)
          | _ \<Rightarrow> g)"

subsection \<open>The stream\<close>

fun contains :: "string \<Rightarrow> string \<Rightarrow> bool" where
  "contains p [] \<longleftrightarrow> p = []"
| "contains p (c # cs) \<longleftrightarrow> literal p (c # cs) \<noteq> None \<or> contains p cs"

definition py_strip :: "string \<Rightarrow> string" where
  "py_strip str = rev (dropWhile py_space (rev (dropWhile py_space str)))"

text \<open>A line, once it is complete (lines of the live summary change other fields only).\<close>

definition read_line :: "devices \<Rightarrow> (rat \<Rightarrow> rat) \<Rightarrow> string \<Rightarrow> gui \<Rightarrow> gui" where
  "read_line D lg line g =
     (let line = filter (\<lambda>c. c \<noteq> CR) (py_strip line)
      in if line = [] then g
         else if contains ''[Summary]'' line \<or> contains ''Frames Processed'' line \<or> contains ''Latency:'' line \<or>
           literal ''Frame'' line \<noteq> None then parse_log_line D lg line g
         else g)"

text \<open>The loop \<open>while "\n" in recv_buffer\<close>: the lines it takes off, and what it leaves.\<close>

function take_lines :: "string \<Rightarrow> string list \<times> string" where
  "take_lines buf =
     (if NL \<in> set buf
      then let (ls, r) = take_lines (tl (dropWhile (\<lambda>c. c \<noteq> NL) buf)) in (takeWhile (\<lambda>c. c \<noteq> NL) buf # ls, r)
      else ([], buf))"
  by auto
termination
proof (relation "measure length")
  fix buf
  assume "NL \<in> set buf"
  then have "dropWhile (\<lambda>c. c \<noteq> NL) buf \<noteq> []" by auto
  then show "(tl (dropWhile (\<lambda>c. c \<noteq> NL) buf), buf) \<in> measure length"
    using length_dropWhile_le [of "\<lambda>c. c \<noteq> NL" buf] by (cases "dropWhile (\<lambda>c. c \<noteq> NL) buf") auto
qed simp

declare take_lines.simps [simp del]

text \<open>One turn of the loop of \<open>read_data\<close>, with the data it received.\<close>

definition read_data :: "devices \<Rightarrow> (rat \<Rightarrow> rat) \<Rightarrow> string \<Rightarrow> string \<times> gui \<Rightarrow> string \<times> gui" where
  "read_data D lg data st =
     (let (ls, r) = take_lines (fst st @ data) in (r, fold (read_line D lg) ls (snd st)))"


subsection \<open>Numbers there and back\<close>

text \<open>The decimal a number is printed as.\<close>

definition shown :: "nat \<Rightarrow> rat \<Rightarrow> rat" where
  "shown d x = of_int (round_half_even (x * 10 ^ d)) / 10 ^ d"

lemma digits_val_Cons: "digits_val (c # cs) = digit_val c * 10 ^ length cs + digits_val cs"
proof (induction cs rule: rev_induct)
  case Nil
  then show ?case by (simp add: digits_val_def)
next
  case (snoc x xs)
  have "digits_val (c # xs @ [x]) = 10 * digits_val (c # xs) + digit_val x"
    using digits_val_append [of "c # xs" x] by simp
  then show ?case using snoc by (simp add: digits_val_append algebra_simps)
qed

lemma digits_val_app: "digits_val (xs @ ys) = digits_val xs * 10 ^ length ys + digits_val ys"
proof (induction xs)
  case Nil
  then show ?case by (simp add: digits_val_def)
next
  case (Cons x xs)
  then show ?case by (simp add: digits_val_Cons power_add algebra_simps)
qed

lemma digits_val_zeros [simp]: "digits_val (replicate k CHR ''0'') = 0"
  by (induction k) (simp_all add: digits_val_Cons digit_val_def, simp add: digits_val_def)

lemma round_half_even_nonneg: "0 \<le> x \<Longrightarrow> 0 \<le> round_half_even x"
  by (simp add: round_half_even_def Let_def)

text \<open>The text of a number that is not negative: digits, a point, digits.\<close>

lemma show_fixed_nonneg:
  assumes "0 \<le> x" and "0 < d"
  obtains a b where "show_fixed d x = a @ CHR ''.'' # b" "list_all isdigit a" "list_all isdigit b" "a \<noteq> []" "length b = d"
    "digits_val (a @ b) = round_half_even (x * 10 ^ d)"
proof
  let ?n = "nat (round_half_even (x * 10 ^ d))"
  let ?frac = "show_nat (?n mod 10 ^ d)"
  let ?b = "replicate (d - length ?frac) CHR ''0'' @ ?frac"
  have frac: "length ?frac \<le> d" by (rule length_show_nat) (use assms(2) in simp_all)
  then show len: "length ?b = d" by simp
  show "show_fixed d x = show_nat (?n div 10 ^ d) @ CHR ''.'' # ?b"
    using assms(1) by (simp add: show_fixed_def Let_def)
  show "list_all isdigit (show_nat (?n div 10 ^ d))" "list_all isdigit ?b"
    using show_nat_digits by (auto simp: list_all_iff isdigit_def)
  show "show_nat (?n div 10 ^ d) \<noteq> []" by simp
  have "digits_val ?b = int (?n mod 10 ^ d)"
    by (simp add: digits_val_app digits_val_show_nat)
  then have "digits_val (show_nat (?n div 10 ^ d) @ ?b) = int (?n div 10 ^ d) * 10 ^ d + int (?n mod 10 ^ d)"
    using len by (simp only: digits_val_app digits_val_show_nat)
  also have "\<dots> = int ?n"
    using div_mult_mod_eq [of ?n "10 ^ d"] by (metis of_nat_add of_nat_mult of_nat_numeral of_nat_power)
  finally show "digits_val (show_nat (?n div 10 ^ d) @ ?b) = round_half_even (x * 10 ^ d)"
    using round_half_even_nonneg [of "x * 10 ^ d"] assms(1) by simp
qed

lemma list_all_takeWhile:
  "list_all P xs \<Longrightarrow> \<not> P c \<Longrightarrow> takeWhile P (xs @ c # ys) = xs \<and> dropWhile P (xs @ c # ys) = c # ys"
  by (induction xs) auto

lemma list_all_takeWhile_end: "list_all P xs \<Longrightarrow> takeWhile P xs = xs \<and> dropWhile P xs = []"
  by (induction xs) auto

lemma many1_all: "list_all P xs \<Longrightarrow> xs \<noteq> [] \<Longrightarrow> \<not> P c \<Longrightarrow> many1 P (xs @ c # ys) = Some (xs, c # ys)"
  using list_all_takeWhile [of P xs c ys] unfolding many1_def Let_def by (cases xs) auto

lemma py_float_shown:
  assumes "0 \<le> x" and "0 < d"
  shows "py_float D (show_fixed d x) = Some (rnd64 D (shown d x))"
proof -
  obtain a b where ab: "show_fixed d x = a @ CHR ''.'' # b" "list_all isdigit a" "list_all isdigit b" "a \<noteq> []" "length b = d"
    "digits_val (a @ b) = round_half_even (x * 10 ^ d)"
    using show_fixed_nonneg [OF assms] .
  have "\<not> isdigit CHR ''.''" by (simp add: isdigit_def)
  then show ?thesis
    using ab list_all_takeWhile [OF ab(2), of "CHR ''.''" b] by (simp add: py_float_def shown_def Let_def)
qed

lemma num_chars:
  assumes "0 \<le> x" and "0 < d"
  shows "list_all num_char (show_fixed d x)" "show_fixed d x \<noteq> []"
proof -
  obtain a b where "show_fixed d x = a @ CHR ''.'' # b" "list_all isdigit a" "list_all isdigit b"
    using show_fixed_nonneg [OF assms] .
  then show "list_all num_char (show_fixed d x)" "show_fixed d x \<noteq> []"
    by (auto simp: list_all_iff num_char_def)
qed

lemma many1_num: "0 \<le> x \<Longrightarrow> 0 < d \<Longrightarrow> \<not> num_char c \<Longrightarrow> many1 num_char (show_fixed d x @ c # ys) = Some (show_fixed d x, c # ys)"
  by (intro many1_all num_chars)

lemma many1_digits: "\<not> isdigit c \<Longrightarrow> many1 isdigit (show_nat n @ c # ys) = Some (show_nat n, c # ys)"
  using show_nat_digits by (intro many1_all) (auto simp: list_all_iff)

lemma many1_one: "P c \<Longrightarrow> \<not> P d \<Longrightarrow> many1 P (c # d # ys) = Some ([c], d # ys)"
  by (simp add: many1_def)

lemma many1_space_digits: "py_space c \<Longrightarrow> many1 py_space (c # show_nat n @ ys) = Some ([c], show_nat n @ ys)"
proof -
  assume "py_space c"
  moreover obtain d ds where "show_nat n = d # ds" "isdigit d" by (rule show_nat_Cons)
  moreover from this(2) have "\<not> py_space d" by (auto simp: py_space_def isdigit_def isspace_def)
  ultimately show ?thesis by (simp add: many1_one)
qed

lemma char_facts:
  "py_space CHR '' ''" "\<not> py_space CHR ''A''" "\<not> py_space CHR ''L''" "\<not> py_space CHR ''M''" "\<not> py_space CHR ''C''" "\<not> py_space CHR ''D''"
  "\<not> isdigit CHR '':''" "\<not> num_char CHR '',''" "\<not> num_char CHR ''m''" "\<not> num_char CHR ''%''" "\<not> num_char CHR ''-''"
  "\<not> upper CHR '' ''" "upper CHR ''C''" "upper CHR ''P''" "upper CHR ''U''" "upper CHR ''D''" "upper CHR ''S''"
  by (simp_all add: py_space_def isspace_def isdigit_def num_char_def upper_def)

subsection \<open>A frame line there and back\<close>

abbreviation mode_text :: "ExecMode \<Rightarrow> string" where
  "mode_text m \<equiv> (if m = EXEC_ARM then ''CPU'' else ''DSP'')"

lemma frame_match_line:
  assumes "0 \<le> n" and "0 \<le> amp" and "0 \<le> lat" and "0 \<le> cpu" and "0 \<le> dsp"
  shows "frame_match (frame_line m n amp lat cpu dsp) =
    Some (show_int n, show_fixed 2 amp, show_fixed 2 lat, mode_text m, show_fixed 1 cpu, show_fixed 1 dsp)"
proof -
  have n: "show_int n = show_nat (nat n)" using assms(1) by (simp add: show_int_def)
  have mode: "many1 upper (mode_text m @ CHR '' '' # ys) = Some (mode_text m, CHR '' '' # ys)" for ys
    by (intro many1_all) (simp_all add: char_facts)
  show ?thesis
    unfolding frame_match_def frame_line_def n
    using assms(2-)
    by (simp add: many1_space_digits many1_digits many1_num many1_one mode char_facts del: if_split)
qed


text \<open>The pattern has no sign: a line with a negative load matches nowhere.\<close>

lemma frame_search_None: "CHR ''F'' \<notin> set str \<Longrightarrow> frame_search str = None"
  by (induction str) (auto simp: frame_match_def)

lemma frame_match_negative:
  assumes "0 \<le> n" and "0 \<le> amp" and "0 \<le> lat" and "cpu < 0"
  shows "frame_match (frame_line m n amp lat cpu dsp) = None"
proof -
  have n: "show_int n = show_nat (nat n)" using assms(1) by (simp add: show_int_def)
  have mode: "many1 upper (mode_text m @ CHR '' '' # ys) = Some (mode_text m, CHR '' '' # ys)" for ys
    by (intro many1_all) (simp_all add: char_facts)
  obtain t where "show_fixed (Suc 0) cpu = CHR ''-'' # t"
    using assms(4) by (simp add: show_fixed_def Let_def)
  then have cpu: "many1 num_char (show_fixed (Suc 0) cpu @ ys) = None" for ys
    by (simp add: many1_def char_facts)
  show ?thesis
    unfolding frame_match_def frame_line_def n
    using assms(2-)
    by (simp add: many1_space_digits many1_digits many1_num many1_one mode cpu char_facts del: if_split)
qed

text \<open>The characters of a frame line: visible ones and blanks, and a single \<open>F\<close> at the start.\<close>

definition plain_char :: "char \<Rightarrow> bool" where
  "plain_char c \<longleftrightarrow> 32 \<le> (of_char c :: nat) \<and> c \<noteq> CHR ''F''"

lemma plain_digits: "list_all plain_char (show_nat n)"
  using show_nat_digits [of n] by (auto simp: list_all_iff isdigit_def plain_char_def)

lemma plain_fixed: "list_all plain_char (show_fixed d x)"
proof -
  have "list_all plain_char (replicate k CHR ''0'')" for k
    by (induction k) (simp_all add: plain_char_def)
  then show ?thesis
    using plain_digits by (simp add: show_fixed_def Let_def) (simp add: plain_char_def)
qed

lemma frame_line_Cons:
  obtains cs where "frame_line m n amp lat cpu dsp = ''Frame '' @ cs @ ''%''" "list_all plain_char cs"
proof
  let ?cs = "show_int n @ '': AvgAmp='' @ show_fixed 2 amp @ '', Latency='' @ show_fixed 2 lat @
     ''ms, Mode='' @ mode_text m @ '' CPULoad='' @ show_fixed 1 cpu @ ''% DSPLoad='' @ show_fixed 1 dsp"
  show "frame_line m n amp lat cpu dsp = ''Frame '' @ ?cs @ ''%''"
    by (simp add: frame_line_def)
  have "list_all plain_char (show_int n)"
    using plain_digits by (simp add: show_int_def plain_char_def)
  then show "list_all plain_char ?cs"
    using plain_fixed by (simp add: plain_char_def)
qed

lemma frame_line_chars:
  "\<forall>c \<in> set (frame_line m n amp lat cpu dsp). 32 \<le> (of_char c :: nat)"
  "NL \<notin> set (frame_line m n amp lat cpu dsp)" "CR \<notin> set (frame_line m n amp lat cpu dsp)" "NUL \<notin> set (frame_line m n amp lat cpu dsp)"
proof -
  obtain cs where cs: "frame_line m n amp lat cpu dsp = ''Frame '' @ cs @ ''%''" "list_all plain_char cs" by (rule frame_line_Cons)
  show all: "\<forall>c \<in> set (frame_line m n amp lat cpu dsp). 32 \<le> (of_char c :: nat)"
    using cs(2) by (auto simp: cs(1) list_all_iff plain_char_def)
  show "NL \<notin> set (frame_line m n amp lat cpu dsp)" "CR \<notin> set (frame_line m n amp lat cpu dsp)" "NUL \<notin> set (frame_line m n amp lat cpu dsp)"
    using all by force+
qed

lemma frame_search_line:
  assumes "0 \<le> n" and "0 \<le> amp" and "0 \<le> lat" and "0 \<le> dsp"
  shows "frame_search (frame_line m n amp lat cpu dsp) =
    (if 0 \<le> cpu then Some (show_int n, show_fixed 2 amp, show_fixed 2 lat, mode_text m, show_fixed 1 cpu, show_fixed 1 dsp) else None)"
proof -
  obtain cs where cs: "frame_line m n amp lat cpu dsp = CHR ''F'' # ''rame '' @ cs @ ''%''" "list_all plain_char cs"
    using frame_line_Cons [of m n amp lat cpu dsp] by auto
  have "CHR ''F'' \<notin> set (''rame '' @ cs @ ''%'')"
    using cs(2) by (auto simp: list_all_iff plain_char_def)
  then have "frame_search (''rame '' @ cs @ ''%'') = None" by (rule frame_search_None)
  then show ?thesis
    using frame_match_line [OF assms(1-3) _ assms(4), of cpu m] frame_match_negative [OF assms(1-3), of cpu m dsp]
    unfolding cs(1) by (simp split: option.split)
qed

subsection \<open>A line through the reader\<close>

definition add_frame :: "devices \<Rightarrow> (rat \<Rightarrow> rat) \<Rightarrow> ExecMode \<Rightarrow> int \<times> rat \<times> rat \<times> rat \<times> rat \<Rightarrow> gui \<Rightarrow> gui" where
  "add_frame D lg m = (\<lambda>(n, amp, lat, cpu, dsp) g.
     g\<lparr>frame_numbers := deque_append (frame_numbers g) n,
       avg_amps := deque_append (avg_amps g) (amplitude_to_dbfs D lg (rnd64 D (shown 2 amp))),
       latencies := deque_append (latencies g) (rnd64 D (shown 2 lat)),
       gui_modes := gui_modes g @ [mode_text m],
       cpu_loads := deque_append (cpu_loads g) (rnd64 D (shown 1 cpu)),
       dsp_loads := deque_append (dsp_loads g) (rnd64 D (shown 1 dsp))\<rparr>)"

lemma strip_id:
  assumes "str \<noteq> []" and "\<not> py_space (hd str)" and "\<not> py_space (last str)"
  shows "py_strip str = str"
proof -
  have "dropWhile py_space str = str" using assms(1,2) by (cases str) auto
  moreover have "dropWhile py_space (rev str) = rev str"
    using assms(1,3) by (cases str rule: rev_cases) auto
  ultimately show ?thesis by (simp add: py_strip_def)
qed

lemma read_frame_line:
  assumes "0 \<le> n" and "0 \<le> amp" and "0 \<le> lat" and "0 \<le> dsp" and "gui_mode g = ''BOTH''"
  shows "read_line D lg (frame_line m n amp lat cpu dsp) g = (if 0 \<le> cpu then add_frame D lg m (n, amp, lat, cpu, dsp) g else g)"
proof -
  let ?l = "frame_line m n amp lat cpu dsp"
  obtain cs where cs: "?l = ''Frame '' @ cs @ ''%''" by (rule frame_line_Cons)
  have "py_strip ?l = ?l"
    by (rule strip_id) (simp_all add: cs py_space_def isspace_def)
  moreover have "filter (\<lambda>c. c \<noteq> CR) ?l = ?l"
    using frame_line_chars(3) by (auto simp: filter_id_conv)
  moreover have "literal ''Frame'' ?l \<noteq> None" "?l \<noteq> []" by (simp_all add: cs)
  ultimately have "read_line D lg ?l g = parse_log_line D lg ?l g" by (simp add: read_line_def Let_def)
  moreover have "digits_val (show_int n) = n"
    using assms(1) by (simp add: show_int_def digits_val_show_nat)
  ultimately show ?thesis
    using assms by (simp add: parse_log_line_def frame_search_line py_float_shown add_frame_def)
qed

text \<open>The deque keeps the newest entries.\<close>

lemma last_n_idem: "last_n n (last_n n xs @ ys) = last_n n (xs @ ys)"
  by (cases "length xs \<le> n") (simp_all add: last_n_def add.commute)

lemma add_frames:
  "fold (add_frame D lg m) fs clear_gui =
    \<lparr>frame_numbers = last_n MAX_FRAMES (map fst fs),
     avg_amps = last_n MAX_FRAMES (map (\<lambda>(_, amp, _). amplitude_to_dbfs D lg (rnd64 D (shown 2 amp))) fs),
     latencies = last_n MAX_FRAMES (map (\<lambda>(_, _, lat, _). rnd64 D (shown 2 lat)) fs),
     gui_modes = replicate (length fs) (mode_text m),
     cpu_loads = last_n MAX_FRAMES (map (\<lambda>(_, _, _, cpu, _). rnd64 D (shown 1 cpu)) fs),
     dsp_loads = last_n MAX_FRAMES (map (\<lambda>(_, _, _, _, dsp). rnd64 D (shown 1 dsp)) fs),
     gui_mode = ''BOTH''\<rparr>"
proof (induction fs rule: rev_induct)
  case Nil
  then show ?case by (simp add: clear_gui_def last_n_def)
next
  case (snoc f fs)
  then show ?case
    by (cases f) (simp add: add_frame_def deque_append_def last_n_idem replicate_append_same)
qed

lemma read_frame_lines:
  assumes "\<forall>(n, amp, lat, cpu, dsp) \<in> set fs. 0 \<le> n \<and> 0 \<le> amp \<and> 0 \<le> lat \<and> 0 \<le> dsp"
  shows "gui_mode g = ''BOTH'' \<Longrightarrow> fold (read_line D lg) (map (\<lambda>(n, amp, lat, cpu, dsp). frame_line m n amp lat cpu dsp) fs) g =
    fold (add_frame D lg m) (filter (\<lambda>(n, amp, lat, cpu, dsp). 0 \<le> cpu) fs) g"
  using assms
proof (induction fs arbitrary: g)
  case (Cons f fs)
  obtain n amp lat cpu dsp where f: "f = (n, amp, lat, cpu, dsp)" by (cases f)
  have "gui_mode (add_frame D lg m f g) = gui_mode g" by (simp add: f add_frame_def)
  then show ?case
    using Cons read_frame_line [of n amp lat dsp g D lg m cpu] by (simp add: f)
qed simp


subsection \<open>The stream in chunks\<close>

lemma take_lines_line:
  "NL \<notin> set l \<Longrightarrow> take_lines (l @ NL # str) = (let (ls, r) = take_lines str in (l # ls, r))"
proof -
  assume "NL \<notin> set l"
  then have "takeWhile (\<lambda>c. c \<noteq> NL) (l @ NL # str) = l" "dropWhile (\<lambda>c. c \<noteq> NL) (l @ NL # str) = NL # str"
    by (induction l) auto
  then show ?thesis by (subst take_lines.simps) simp
qed

lemma take_lines_end: "NL \<notin> set str \<Longrightarrow> take_lines str = ([], str)"
  by (subst take_lines.simps) simp

lemma take_lines_rest: "NL \<notin> set (snd (take_lines str))"
proof (induction str rule: take_lines.induct)
  case (1 buf)
  then show ?case by (subst take_lines.simps) (auto simp: split_beta Let_def)
qed

lemma take_lines_append:
  "take_lines (xs @ ys) = (let (ls, r) = take_lines xs; (ls', r') = take_lines (r @ ys) in (ls @ ls', r'))"
proof (induction xs rule: take_lines.induct)
  case (1 xs)
  show ?case
  proof (cases "NL \<in> set xs")
    case True
    then obtain l t where xs: "xs = l @ NL # t" "NL \<notin> set l" by (meson split_list_first)
    have "tl (dropWhile (\<lambda>c. c \<noteq> NL) xs) = t" using xs by (induction l arbitrary: xs) auto
    then show ?thesis
      using 1 [OF True] by (simp add: xs take_lines_line split_beta Let_def)
  next
    case False
    then show ?thesis by (simp add: take_lines_end split_beta)
  qed
qed

lemma take_lines_lines: "\<forall>l \<in> set ls. NL \<notin> set l \<Longrightarrow> take_lines (concat (map (\<lambda>l. l @ [NL]) ls)) = (ls, [])"
  by (induction ls) (simp_all add: take_lines_line take_lines_end)

text \<open>What arrives does not depend on how the stream is cut.\<close>

lemma read_data_chunks: "NL \<notin> set (fst st) \<Longrightarrow> fold (read_data D lg) chunks st = read_data D lg (concat chunks) st"
proof (induction chunks arbitrary: st)
  case Nil
  then show ?case by (simp add: read_data_def take_lines_end)
next
  case (Cons x xs)
  have "NL \<notin> set (fst (read_data D lg x st))"
    using take_lines_rest by (simp add: read_data_def split_beta)
  then show ?case
    using Cons.IH [of "read_data D lg x st"] take_lines_append [of "fst st @ x" "concat xs"]
    by (simp add: read_data_def split_beta Let_def)
qed

subsection \<open>The device and the host together\<close>

lemma log_frames_dprintfs:
  "dprintfs (trace (exec (log_frame_metrics m n amp lat cpu dsp) s)) = dprintfs (trace s)"
  by (simp add: log_frame_metrics_def enqueue_log_def run_simps)

text \<open>Measurements of frames put into an empty queue with room for them, and written.\<close>

abbreviation log_frame :: "ExecMode \<Rightarrow> int \<times> rat \<times> rat \<times> rat \<times> rat \<Rightarrow> 'w host_world_scheme \<Rightarrow> 'w host_world_scheme" where
  "log_frame m \<equiv> \<lambda>(n, amp, lat, cpu, dsp). exec (log_frame_metrics m n amp lat cpu dsp)"

abbreviation frame_text :: "ExecMode \<Rightarrow> int \<times> rat \<times> rat \<times> rat \<times> rat \<Rightarrow> string" where
  "frame_text m \<equiv> \<lambda>(n, amp, lat, cpu, dsp). frame_line m n amp lat cpu dsp"

lemma logged_frames:
  assumes "queue_ok s" and "pending_log s = []" and "length fs < LOG_QUEUE_SIZE"
    and "\<forall>f \<in> set fs. length (frame_text m f) < 256"
  shows "queue_ok (fold (log_frame m) fs s)" "pending_log (fold (log_frame m) fs s) = map (frame_text m) fs"
    "dprintfs (trace (fold (log_frame m) fs s)) = dprintfs (trace s)"
proof -
  let ?lines = "map (frame_text m) fs"
  have cut: "bounded_copy 256 (frame_text m f) = frame_text m f" if "f \<in> set fs" for f
    using that assms(4) frame_line_chars(4) by (cases f) auto
  have step: "log_frame m f s = exec (enqueue_log (frame_text m f)) s" if "f \<in> set fs" for f and s :: "'a host_world_scheme"
    using cut [OF that] by (cases f) (simp add: log_frame_metrics_def)
  have "fold (log_frame m) gs s = fold (\<lambda>l. exec (enqueue_log l)) (map (frame_text m) gs) s" if "set gs \<subseteq> set fs" for gs
    using that step by (induction gs arbitrary: s) auto
  then have run: "fold (log_frame m) fs s = fold (\<lambda>l. exec (enqueue_log l)) ?lines s" by simp
  have "length (pending_log s) + length ?lines \<le> LOG_QUEUE_SIZE - 1" using assms(2,3) by simp
  note many = logq.enq_many [OF assms(1) this]
  show "queue_ok (fold (log_frame m) fs s)" unfolding run using many by simp
  show "pending_log (fold (log_frame m) fs s) = ?lines"
    unfolding run using many assms(2) cut by (auto simp: comp_def)
  show "dprintfs (trace (fold (log_frame m) fs s)) = dprintfs (trace s)"
    by (induction fs arbitrary: s) (auto simp: log_frames_dprintfs split_beta)
qed

subsection \<open>Properties\<close>

text \<open>
  C25: the measurements reach the host. Frames logged into an empty queue with room for them and
  written by the log thread are a stream from which the host utility, however the stream is
  cut into chunks, recovers the number, amplitude, latency, mode and loads of each frame, in
  order and rounded as printed (it keeps the newest 2048); with one exception: a frame whose
  CPU load is negative, which is how \<open>get_cpu_load\<close> reports that it could not read the load, does not
  match the pattern of the utility and is dropped as a whole.
\<close>
theorem host_reads_log:
  assumes "queue_ok s" and "pending_log s = []" and "length fs < LOG_QUEUE_SIZE" and "length fs < fuel"
    and "\<forall>(n, amp, lat, cpu, dsp) \<in> set fs. 0 \<le> n \<and> 0 \<le> amp \<and> 0 \<le> lat \<and> 0 \<le> dsp \<and> length (frame_line m n amp lat cpu dsp) < 256"
    and "t = exec (log_writer fuel) (fold (\<lambda>(n, amp, lat, cpu, dsp). exec (log_frame_metrics m n amp lat cpu dsp)) fs s)"
    and "dprintfs (trace t) = dprintfs (trace s) @ out" and "concat chunks = concat (map snd out)"
    and "good = filter (\<lambda>(n, amp, lat, cpu, dsp). 0 \<le> cpu) fs"
  shows "fold (read_data D lg) chunks ([], clear_gui) = ([],
    \<lparr>frame_numbers = last_n 2048 (map fst good),
     avg_amps = last_n 2048 (map (\<lambda>(_, amp, _). amplitude_to_dbfs D lg (rnd64 D (shown 2 amp))) good),
     latencies = last_n 2048 (map (\<lambda>(_, _, lat, _). rnd64 D (shown 2 lat)) good),
     gui_modes = replicate (length good) (if m = EXEC_ARM then ''CPU'' else ''DSP''),
     cpu_loads = last_n 2048 (map (\<lambda>(_, _, _, cpu, _). rnd64 D (shown 1 cpu)) good),
     dsp_loads = last_n 2048 (map (\<lambda>(_, _, _, _, dsp). rnd64 D (shown 1 dsp)) good),
     gui_mode = ''BOTH''\<rparr>)"
proof -
  have short: "\<forall>f \<in> set fs. length (frame_text m f) < 256"
    and signs: "\<forall>(n, amp, lat, cpu, dsp) \<in> set fs. 0 \<le> n \<and> 0 \<le> amp \<and> 0 \<le> lat \<and> 0 \<le> dsp"
    using assms(5) by auto
  note logged = logged_frames [OF assms(1-3) short]
  let ?u = "fold (log_frame m) fs s"
  have "length (pending_log ?u) < fuel" using logged(2) assms(4) by simp
  from log_loop_drains [OF logged(1) this]
  have "dprintfs (trace t) = dprintfs (trace s) @ map (\<lambda>l. (log_target ?u, l @ [NL])) (map (frame_text m) fs)"
    using logged assms(6) by (simp add: log_writer_def queue_ok_def)
  then have "concat chunks = concat (map (\<lambda>l. l @ [NL]) (map (frame_text m) fs))"
    using assms(7,8) by (simp add: comp_def)
  moreover have "\<forall>l \<in> set (map (frame_text m) fs). NL \<notin> set l" using frame_line_chars(2) by auto
  ultimately have "take_lines (concat chunks) = (map (frame_text m) fs, [])" by (simp only: take_lines_lines)
  moreover have "fold (read_line D lg) (map (frame_text m) fs) clear_gui = fold (add_frame D lg m) good clear_gui"
    unfolding assms(9) by (rule read_frame_lines [OF signs]) (simp add: clear_gui_def)
  ultimately have "fold (read_data D lg) chunks ([], clear_gui) = ([], fold (add_frame D lg m) good clear_gui)"
    by (subst read_data_chunks) (simp_all add: read_data_def)
  then show ?thesis
    by (simp only: add_frames MAX_FRAMES_def)
qed


text \<open>Two frames, the second without a CPU load, in two chunks that cut the first line.\<close>

theorem host_reads_log_witness:
  "\<exists>chunks. length chunks = 2 \<and> frame_numbers (snd (fold (read_data sample_devices (\<lambda>x. x)) chunks ([], clear_gui))) = [1]"
proof -
  let ?fs = "[(1, 5/2, 3, 50, 0), (2, 5/2, 3, - 1, 0)] :: (int \<times> rat \<times> rat \<times> rat \<times> rat) list"
  let ?s = "zero_host\<lparr>client_log_fd := 7\<rparr>"
  let ?u = "fold (log_frame EXEC_ARM) ?fs ?s"
  let ?t = "exec (log_writer 3) ?u"
  have ok: "queue_ok ?s" "pending_log ?s = []" "length ?fs < LOG_QUEUE_SIZE"
    by (simp_all add: queue_ok_def zero_host_def pending_log_def ring_empty LOG_QUEUE_SIZE_def)
  have lines: "frame_line EXEC_ARM 1 (5/2) 3 50 0 = ''Frame 1: AvgAmp=2.50, Latency=3.00ms, Mode=CPU CPULoad=50.0% DSPLoad=0.0%''"
    "frame_line EXEC_ARM 2 (5/2) 3 (- 1) 0 = ''Frame 2: AvgAmp=2.50, Latency=3.00ms, Mode=CPU CPULoad=-1.0% DSPLoad=0.0%''"
    by code_simp+
  have short: "\<forall>(n, amp, lat, cpu, dsp) \<in> set ?fs. 0 \<le> n \<and> 0 \<le> amp \<and> 0 \<le> lat \<and> 0 \<le> dsp \<and>
      length (frame_line EXEC_ARM n amp lat cpu dsp) < 256"
    by (simp add: lines)
  have logged: "queue_ok ?u" "length (pending_log ?u) < 3" "dprintfs (trace ?u) = dprintfs (trace ?s)"
    using logged_frames [OF ok, of EXEC_ARM] short by simp_all
  obtain out where out: "dprintfs (trace ?t) = dprintfs (trace ?s) @ out"
    using log_loop_drains [OF logged(1,2)] logged(1,3) by (simp add: log_writer_def queue_ok_def)
  define str where "str = concat (map snd out)"
  have "concat [take 9 str, drop 9 str] = concat (map snd out)" by (simp add: str_def)
  from host_reads_log [OF ok _ short refl out this refl, of sample_devices "\<lambda>x. x"]
  show ?thesis
    by (intro exI [of _ "[take 9 str, drop 9 str]"]) (simp add: last_n_def)
qed

end
