(* ===== verification/Session.thy ===== *)
theory Session
  imports Playback
begin

text \<open>
  The program as a whole, specified by a small machine: a session is prepared, plays the file
  once, and is closed. \<open>app_step\<close> refines it: every step of any thread is a step of the session
  or does not show in it. What holds of the session by looking at its few steps then holds of
  the program under every interleaving.
\<close>

subsection \<open>The abstract machine\<close>

datatype session_stage = Preparing | Ready | Playing | Played | Closing_down | Gone

text \<open>The stage, the blocks played, the open sound devices and the mapped buffers.\<close>

record session =
  ss_stage :: session_stage
  ss_blocks :: nat
  ss_devices :: int
  ss_buffers :: nat

definition new_session :: session where
  "new_session = \<lparr>ss_stage = Preparing, ss_blocks = 0, ss_devices = 0, ss_buffers = 0\<rparr>"

inductive session_step :: "session \<Rightarrow> session \<Rightarrow> bool" where
  map_buffers: "ss_stage a = Preparing \<Longrightarrow> ss_buffers a = 0 \<Longrightarrow> n \<le> 2 \<Longrightarrow> session_step a (a\<lparr>ss_buffers := n\<rparr>)"
| get_ready: "ss_stage a = Preparing \<Longrightarrow> session_step a (a\<lparr>ss_stage := Ready\<rparr>)"
| start: "ss_stage a = Ready \<Longrightarrow> session_step a (a\<lparr>ss_stage := Playing\<rparr>)"
| give_up: "ss_stage a = Ready \<Longrightarrow> session_step a (a\<lparr>ss_stage := Closing_down\<rparr>)"
| open_device: "ss_stage a = Playing \<Longrightarrow> ss_devices a = 0 \<Longrightarrow> session_step a (a\<lparr>ss_devices := 1\<rparr>)"
| play: "ss_stage a = Playing \<Longrightarrow> ss_devices a = 1 \<Longrightarrow> session_step a (a\<lparr>ss_blocks := ss_blocks a + 1\<rparr>)"
| finish: "ss_stage a = Playing \<Longrightarrow> session_step a (a\<lparr>ss_stage := Played, ss_devices := 0\<rparr>)"
| close: "ss_stage a = Played \<Longrightarrow> session_step a (a\<lparr>ss_stage := Closing_down\<rparr>)"
| unmap_buffers: "ss_stage a = Closing_down \<Longrightarrow> session_step a (a\<lparr>ss_buffers := 0\<rparr>)"
| quit: "ss_stage a \<noteq> Gone \<Longrightarrow> session_step a (a\<lparr>ss_stage := Gone\<rparr>)"

inductive_cases session_step_cases: "session_step a b"

definition session_ok :: "session \<Rightarrow> bool" where
  "session_ok a \<longleftrightarrow> ss_buffers a \<le> 2 \<and> ss_devices a \<in> {0, 1} \<and>
     (ss_stage a \<in> {Preparing, Ready} \<longrightarrow> ss_blocks a = 0 \<and> ss_devices a = 0) \<and>
     (ss_stage a \<in> {Played, Closing_down} \<longrightarrow> ss_devices a = 0)"

lemma session_ok_step: "session_step a b \<Longrightarrow> session_ok a \<Longrightarrow> session_ok b"
  by (erule session_step_cases) (auto simp: session_ok_def)

lemma session_ok_steps: "rtranclp session_step new_session a \<Longrightarrow> session_ok a"
  by (induction rule: rtranclp_induct) (auto simp: new_session_def session_ok_def dest: session_ok_step)

subsection \<open>The abstraction\<close>

definition stage_of :: "phase \<Rightarrow> audio_pc \<Rightarrow> session_stage" where
  "stage_of p a =
     (if p = Exited then Gone else if p < Polling then Preparing else if p = Polling
      then case a of Not_created \<Rightarrow> Ready | Ended \<Rightarrow> Played | _ \<Rightarrow> Playing
      else Closing_down)"

definition session_of :: "system \<Rightarrow> session" where
  "session_of s =
     \<lparr>ss_stage = stage_of (main_pc s) (audio s), ss_blocks = length (played (trace (glob s))),
      ss_devices = tally pcm_weight (trace (glob s)), ss_buffers = size (live_maps (trace (glob s)))\<rparr>"

lemma session_of_start: "session_of start_system = new_session"
  by (simp add: session_of_def new_session_def start_system_def start_metrics_fields stage_of_def phase_simps live_maps_def)

subsection \<open>What a step shows\<close>

lemma devices_of_sounds: "tally pcm_weight tr = sum_list (map (\<lambda>a. pcm_weight (Ev_audio a)) (sounds tr))"
proof (induction tr)
  case (Cons e tr)
  have "pcm_weight e = sum_list (map (\<lambda>a. pcm_weight (Ev_audio a)) (sound_of e))"
    by (cases e) simp_all
  with Cons show ?case by simp
qed simp

text \<open>Neither the sound libraries are called nor a buffer is mapped or unmapped.\<close>

definition unseen :: "'w app_world_scheme \<Rightarrow> 'w app_world_scheme \<Rightarrow> bool" where
  "unseen s t \<longleftrightarrow> silent s t \<and> live_maps (trace t) = live_maps (trace s)"

lemma unseen_refl [simp]: "unseen s s"
  by (simp add: unseen_def silent_def)

lemma unseen_mild: "preserves mild m \<Longrightarrow> unseen s (exec m s)"
  by (auto simp: unseen_def silent_def mild_def dest: preservesD)

lemma unseen_keeps: "preserves (keeps (\<lambda>e. sound_of e = [])) m \<Longrightarrow> preserves stays m \<Longrightarrow> unseen s (exec m s)"
  by (auto simp: unseen_def silent_keeps stays_def dest: preservesD)

lemma silent_counts:
  "silent s t \<Longrightarrow> played (trace t) = played (trace s) \<and> tally pcm_weight (trace t) = tally pcm_weight (trace s)"
  by (simp add: silent_def devices_of_sounds played_def)

text \<open>The audio thread plays at most one block in a turn, in either mode.\<close>

lemma process_plays: "length (played (trace (exec (process_block K D fm) s))) = Suc (length (played (trace s)))"
proof -
  define before where "before = (do { lat \<leftarrow> transform_block K D; sync_data K DMA_BUF_SYNC_START; sync_options K DMA_BUF_SYNC_START;
     measure_block K D lat fm } :: ('a metrics_world_scheme, _) state)"
  define after where "after fm' = (do { sync_options K DMA_BUF_SYNC_END; sync_data K DMA_BUF_SYNC_END;
     (if fst fm' mod 10 = 0 then log_summary D (fst fm') (snd fm') else ret ()); ret fm' } :: ('a metrics_world_scheme, _) state)" for fm'
  have "preserves (keeps unheard) before" "preserves (keeps unheard) (after fm')" for fm'
    unfolding before_def after_def transform_block_def process_mode_def sync_data_def sync_options_def
    by (intro keeps_intros keeps_clock keeps_update keeps_fields; simp)+
  then have parts: "keeps unheard u (exec before u)" "keeps unheard u (exec (after fm') u)" for u fm'
    by (blast dest: preservesD)+
  have run: "exec (process_block K D fm) s = exec (after (result before s)) (exec (play_block K D) (exec before s))"
    by (simp add: process_block_def before_def after_def split_beta)
  show ?thesis
    unfolding run using unheard_trace(1) [OF parts(1)] unheard_trace(1) [OF parts(2)] by (simp add: play_values(1) [OF refl])
qed

lemma turn_plays:
  assumes "run_state (audio_turn K D fm) s = (r, t)"
  shows "length (played (trace t)) = length (played (trace s)) + (if r = None then 0 else 1)"
    "tally pcm_weight (trace t) = tally pcm_weight (trace s)" "live_maps (trace t) = live_maps (trace s)"
proof -
  have "played (trace (exec (read_block K D) s)) = played (trace s)"
    by (simp add: read_block_calls(2) first_calls_def Let_def)
  then show "length (played (trace t)) = length (played (trace s)) + (if r = None then 0 else 1)"
    using assms by (auto simp: exec_audio_turn Let_def process_plays split: if_splits)
  show "tally pcm_weight (trace t) = tally pcm_weight (trace s)"
    using audio_turn_weights(2) [of K D fm s] assms by simp
  show "live_maps (trace t) = live_maps (trace s)"
    using preservesD [OF stays_audio_turn, of s K D fm] assms by (simp add: stays_def)
qed

lemma audio_start_shows:
  assumes "run_state (audio_start D p) s = (pc, t)"
  shows "played (trace t) = played (trace s)" "live_maps (trace t) = live_maps (trace s)"
    "pc = Ended \<and> tally pcm_weight (trace t) = tally pcm_weight (trace s) \<or>
     pc = Looping (0, zero_metrics) \<and> tally pcm_weight (trace t) = tally pcm_weight (trace s) + 1"
proof -
  show "played (trace t) = played (trace s)" using audio_start_plays(1) [of D p s] assms by simp
  show "live_maps (trace t) = live_maps (trace s)"
    using audio_start_ok [OF assms] by (simp add: stays_def)
  have "trace (exec (c_string p) s) = trace s"
    by (simp add: run_c_string split: option.split)
  then show "pc = Ended \<and> tally pcm_weight (trace t) = tally pcm_weight (trace s) \<or>
     pc = Looping (0, zero_metrics) \<and> tally pcm_weight (trace t) = tally pcm_weight (trace s) + 1"
    using assms audio_open_cases [of D "result (c_string p) s" "exec (c_string p) s"]
    by (auto simp: audio_start_def split_beta)
qed

lemma audio_close_shows:
  "played (trace (exec audio_close s)) = played (trace s)" "live_maps (trace (exec audio_close s)) = live_maps (trace s)"
  using audio_close_ok [of s] by (simp_all add: stays_def audio_close_def request_def run_simps)


subsection \<open>The kinds of steps\<close>

lemma session_kinds [consumes 2, case_names idle prepare allocate create leave destroy closing quit started turn ended]:
  assumes "app_step K D s t" and "app_inv s"
  obtains "unseen (glob s) (glob t)" "audio t = audio s" "main_pc t = main_pc s"
  | "unseen (glob s) (glob t)" "audio s = Not_created" "audio t = Not_created" "main_pc s < Polling" "main_pc t \<le> Polling"
  | "silent (glob s) (glob t)" "audio t = audio s" "main_pc s = Allocating" "main_pc t = Connecting"
  | "unseen (glob s) (glob t)" "audio s = Not_created" "audio t = Opening" "main_pc s = Polling" "main_pc t = Polling"
  | "unseen (glob s) (glob t)" "audio t = audio s" "audio s \<in> {Not_created, Ended}" "main_pc s = Polling" "main_pc t = Left_loop"
  | "silent (glob s) (glob t)" "audio t = audio s" "main_pc s = Left_loop" "main_pc t = Destroyed"
  | "unseen (glob s) (glob t)" "audio t = audio s" "main_pc s \<in> {Destroyed, Reverted}" "main_pc t \<in> {Reverted, Freed}"
  | "unseen (glob s) (glob t)" "audio t = audio s" "main_pc s \<noteq> Exited" "main_pc t = Exited"
  | "main_pc s = Polling" "main_pc t = Polling" "audio s = Opening" "run_state (audio_start D (input_file s)) (glob s) = (audio t, glob t)"
  | fm r where "main_pc s = Polling" "main_pc t = Polling" "audio s = Looping fm" "run_state (audio_turn K D fm) (glob s) = (r, glob t)"
    "audio t = (case r of None \<Rightarrow> Closing | Some fm' \<Rightarrow> Looping fm')"
  | "main_pc s = Polling" "main_pc t = Polling" "audio s = Closing" "audio t = Ended" "glob t = exec audio_close (glob s)"
proof -
  note inv = assms(2) [unfolded app_inv_def]
  have early: "main_pc s < Polling \<Longrightarrow> audio s = Not_created" using inv by blast
  have active: "main_pc s = Polling" if "main_pc s \<noteq> Exited" "audio_active s" using inv that by blast
  show thesis
    using assms(1)
  proof cases
    case (do_load w)
    have "unseen (glob s) w"
      using silent_stages(1) [of "glob s" K] preservesD [OF stays_load_mode, of "glob s" K] do_load(3) by (simp add: unseen_def stays_def)
    then show ?thesis using that(2) do_load(1,2) early by (simp add: phase_simps)
  next
    case do_switch
    then show ?thesis using that(2) early unseen_mild [OF mild_switch_new, of "glob s" K] by (simp add: phase_simps)
  next
    case do_allocate
    then show ?thesis using that(3) silent_stages(2) [of "glob s" K] by simp
  next
    case (do_connect r w)
    then have "unseen (glob s) w" using unseen_mild [OF mild_init_host, of "glob s" K] by simp
    then show ?thesis using that(2,8) do_connect early by (cases r) (simp_all add: phase_simps)
  next
    case do_filter
    then show ?thesis using that(2) early unseen_keeps [OF keeps_init_filter stays_init_filter, of "glob s" K] by (simp add: phase_simps)
  next
    case (do_turn left w)
    have "unseen (glob s) (exec (main_turn K) (glob s))"
      using silent_stages(3) [of "glob s" K] by (simp add: unseen_def main_turn_run live_maps_append Let_def)
    then have w: "unseen (glob s) w" using do_turn(3) by simp
    have started: "audio s = Not_created" if "start_requested (glob s) = START_PLAY"
      using inv do_turn(2) that by (auto simp: audio_active_def)
    have ended: "audio s \<in> {Not_created, Ended}" if "start_requested (glob s) = EXIT_PLAY"
      using inv do_turn(2) that by (auto simp: audio_active_def)
    show ?thesis
    proof (cases left)
      case True
      then have "start_requested (glob s) = START_PLAY \<or> start_requested (glob s) = EXIT_PLAY"
        using do_turn(3) by (auto simp: main_turn_run split: if_splits)
      then have "audio s \<in> {Not_created, Ended}" using started ended by blast
      then show ?thesis using that(5) do_turn(1,2) w True by simp
    next
      case False
      show ?thesis
      proof (cases "start_requested (glob s) = START_PLAY")
        case True
        then show ?thesis using that(4) do_turn(1,2) w started False by simp
      next
        case other: False
        then show ?thesis using that(1) do_turn(1,2) w False by simp
      qed
    qed
  next
    case do_destroy
    then show ?thesis using that(6) silent_stages(4) [of "glob s"] by simp
  next
    case do_revert
    then show ?thesis using that(7) unseen_mild [OF mild_end(2), of "glob s" K] by simp
  next
    case do_free
    then show ?thesis using that(7) unseen_mild [OF mild_end(1), of "glob s"] by simp
  next
    case do_exit
    then show ?thesis using that(8) by simp
  next
    case do_sigint
    then show ?thesis using that(8) unseen_mild [OF mild_end(3), of "glob s" K] by simp
  next
    case (audio_begin pc w)
    then show ?thesis using that(9) active by (simp add: audio_active_def)
  next
    case (audio_block fm r w)
    then show ?thesis using that(10) active by (simp add: audio_active_def)
  next
    case audio_end
    then show ?thesis using that(11) active by (simp add: audio_active_def)
  next
    case do_log
    then show ?thesis using that(1) unseen_mild [OF mild_log_step, of "glob s"] by simp
  next
    case (do_client th)
    then show ?thesis using that(1) unseen_mild [OF mild_client_step, of "glob s" K th] by simp
  next
    case (cmd_begin pc w)
    then show ?thesis using that(1) unseen_keeps [OF keeps_cmd(2) stays_cmd_start, of "glob s"] by simp
  next
    case (cmd_turn fd tv pc w)
    then show ?thesis using that(1) unseen_keeps [OF keeps_cmd(1) stays_cmd_step, of "glob s" K fd tv] by simp
  qed
qed

text \<open>The sound device is open exactly while the audio thread is in its loop or behind it.\<close>

definition device_open :: "audio_pc \<Rightarrow> int" where
  "device_open a = (case a of Looping _ \<Rightarrow> 1 | Closing \<Rightarrow> 1 | _ \<Rightarrow> 0)"

lemma device_step:
  assumes "app_step K D s t" and "app_inv s" and "tally pcm_weight (trace (glob s)) = device_open (audio s)"
  shows "tally pcm_weight (trace (glob t)) = device_open (audio t)"
  using assms(1,2)
proof (cases rule: session_kinds)
  case started
  then show ?thesis using audio_start_shows(3) [OF started(4)] assms(3) by (auto simp: device_open_def)
next
  case (turn fm r)
  then show ?thesis using turn_plays(2) [OF turn(4)] assms(3) by (simp add: device_open_def split: option.split)
next
  case ended
  then show ?thesis using audio_close_weights(2) [of "glob s"] assms(3) by (simp add: device_open_def)
qed (use assms(3) silent_counts [of "glob s" "glob t"] in \<open>auto simp: unseen_def device_open_def\<close>)

lemma reachable_device: "reachable K D s \<Longrightarrow> tally pcm_weight (trace (glob s)) = device_open (audio s)"
proof (induction rule: reachable.induct)
  case initial
  then show ?case by (simp add: start_system_def start_metrics_fields device_open_def)
next
  case (step s t)
  then show ?case using device_step reachable_inv by blast
qed


subsection \<open>The simulation\<close>

lemma session_of_unseen:
  "unseen (glob s) (glob t) \<Longrightarrow> session_of t = (session_of s)\<lparr>ss_stage := stage_of (main_pc t) (audio t)\<rparr>"
  using silent_counts [of "glob s" "glob t"] by (simp add: unseen_def session_of_def)

lemma session_of_silent:
  "silent (glob s) (glob t) \<Longrightarrow> stage_of (main_pc t) (audio t) = stage_of (main_pc s) (audio s) \<Longrightarrow>
     session_of t = (session_of s)\<lparr>ss_buffers := size (live_maps (trace (glob t)))\<rparr>"
  using silent_counts [of "glob s" "glob t"] by (simp add: session_of_def)

lemma ss_stage_of [simp]: "ss_stage (session_of s) = stage_of (main_pc s) (audio s)"
  by (simp add: session_of_def)

lemma stage_update [simp]: "(session_of s)\<lparr>ss_stage := stage_of (main_pc s) (audio s)\<rparr> = session_of s"
  by (simp add: session_of_def)

lemma stage_simps [simp]:
  "stage_of Polling Not_created = Ready" "stage_of Polling Opening = Playing" "stage_of Polling (Looping fm) = Playing"
  "stage_of Polling Closing = Playing" "stage_of Polling Ended = Played" "stage_of Exited a = Gone"
  "p \<in> {Left_loop, Destroyed, Reverted, Freed} \<Longrightarrow> stage_of p a = Closing_down" "p < Polling \<Longrightarrow> stage_of p a = Preparing"
  by (auto simp: stage_of_def)

lemma bufs_count: "bufs_ok w \<Longrightarrow> size (live_maps (trace w)) \<le> 2"
  by (auto simp: bufs_ok_def dest: size_mset_mono)

lemma session_simulation:
  assumes "app_step K D s t" and "app_inv s" and "tally pcm_weight (trace (glob s)) = device_open (audio s)"
  shows "session_of t = session_of s \<or> session_step (session_of s) (session_of t)"
  using assms(1,2)
proof (cases rule: session_kinds)
  case idle
  then show ?thesis using session_of_unseen [OF idle(1)] by simp
next
  case prepare
  then have "stage_of (main_pc t) (audio t) = (if main_pc t = Polling then Ready else Preparing)"
    by (auto simp: stage_of_def phase_simps rank_inj [symmetric])
  moreover have "stage_of (main_pc s) (audio s) = Preparing" using prepare by simp
  ultimately show ?thesis
    using session_of_unseen [OF prepare(1)] get_ready [of "session_of s"] stage_update [of s] by (cases "main_pc t = Polling") simp_all
next
  case allocate
  have "bufs_ok (glob t)" and empty: "live_maps (trace (glob s)) = {#}"
    using app_inv_step [OF assms(1,2)] assms(2) allocate(3,4) by (simp_all add: app_inv_def)
  then have "size (live_maps (trace (glob t))) \<le> 2" by (intro bufs_count)
  moreover have "stage_of (main_pc s) (audio s) = Preparing" "stage_of (main_pc t) (audio t) = Preparing"
    using allocate by (simp_all add: phase_simps)
  ultimately show ?thesis
    using session_of_silent [OF allocate(1)] map_buffers [of "session_of s"] empty by (simp add: session_of_def)
next
  case create
  then show ?thesis using session_of_unseen [OF create(1)] start [of "session_of s"] by simp
next
  case leave
  then show ?thesis
    using session_of_unseen [OF leave(1)] give_up [of "session_of s"] close [of "session_of s"] by auto
next
  case destroy
  have "live_maps (trace (glob t)) = {#}"
    using app_inv_step [OF assms(1,2)] destroy(4) by (simp add: app_inv_def)
  then show ?thesis
    using session_of_silent [OF destroy(1)] unmap_buffers [of "session_of s"] destroy by simp
next
  case closing
  have "stage_of (main_pc s) (audio s) = Closing_down" "stage_of (main_pc t) (audio t) = Closing_down"
    using closing by auto
  then show ?thesis using session_of_unseen [OF closing(1)] stage_update [of s] by simp
next
  case quit
  have "stage_of (main_pc s) (audio s) \<noteq> Gone" using quit(3) by (auto simp: stage_of_def split: audio_pc.split)
  then show ?thesis using session_of_unseen [OF quit(1)] session_step.quit [of "session_of s"] quit by simp
next
  case started
  have "ss_devices (session_of s) = 0" "ss_stage (session_of s) = Playing"
    using started assms(3) by (simp_all add: session_of_def device_open_def)
  then show ?thesis
    using audio_start_shows [OF started(4)] open_device [of "session_of s"] finish [of "session_of s"] started(1-3)
    by (auto simp: session_of_def)
next
  case (turn fm r)
  have "ss_devices (session_of s) = 1" "ss_stage (session_of s) = Playing"
    using turn assms(3) by (simp_all add: session_of_def device_open_def)
  then show ?thesis
    using turn_plays [OF turn(4)] play [of "session_of s"] turn(1-3,5)
    by (cases r) (simp_all add: session_of_def)
next
  case ended
  have "ss_stage (session_of s) = Playing" "tally pcm_weight (trace (glob s)) = 1"
    using ended assms(3) by (simp_all add: device_open_def)
  then show ?thesis
    using audio_close_shows [of "glob s"] audio_close_weights(2) [of "glob s"] finish [of "session_of s"] ended
    by (simp add: session_of_def)
qed

lemma reachable_session: "reachable K D s \<Longrightarrow> rtranclp session_step new_session (session_of s)"
proof (induction rule: reachable.induct)
  case initial
  show ?case by (simp add: session_of_start)
next
  case (step s t)
  then show ?case
    using session_simulation [OF step.hyps(2) reachable_inv reachable_device] rtranclp.rtrancl_into_rtrancl by metis
qed

subsection \<open>Properties\<close>

text \<open>
  What the session promises, carried over to the program: at most two buffers and one sound device
  are ever held, nothing is played before the audio thread is created, and once it has ended, and
  while \<open>main\<close> closes the program down, no sound device is open.
\<close>

theorem session_promises:
  assumes "reachable K D s"
  shows "size (live_maps (trace (glob s))) \<le> 2 \<and> tally pcm_weight (trace (glob s)) \<in> {0, 1} \<and>
    (main_pc s \<le> Polling \<and> audio s = Not_created \<longrightarrow> played (trace (glob s)) = []) \<and>
    (Polling < main_pc s \<and> main_pc s \<noteq> Exited \<longrightarrow> tally pcm_weight (trace (glob s)) = 0)"
proof -
  have ok: "session_ok (session_of s)" by (rule session_ok_steps [OF reachable_session [OF assms]])
  have "main_pc s \<le> Polling \<and> audio s = Not_created \<longrightarrow> ss_stage (session_of s) \<in> {Preparing, Ready}"
    "Polling < main_pc s \<and> main_pc s \<noteq> Exited \<longrightarrow> ss_stage (session_of s) = Closing_down"
    by (auto simp: stage_of_def)
  with ok show ?thesis by (simp add: session_ok_def) (auto simp: session_of_def)
qed

theorem session_promises_witness:
  "\<exists>s. reachable arm_kernel sample_devices s \<and> audio s = Closing \<and> size (live_maps (trace (glob s))) \<le> 2"
proof -
  obtain s where s: "reachable arm_kernel sample_devices s" "audio s = Closing" by (rule arm_closing)
  from session_promises [OF s(1)] s show ?thesis by blast
qed

text \<open>
  C4: the program refines the session. Over all interleavings, and whatever the system, the
  client and the devices do, every reachable state shows a session that the abstract machine
  reaches, and every step of a thread either does not show or is a step of that machine: buffers are
  mapped only before the loop of \<open>main\<close> and unmapped only when it closes down, blocks are played
  one at a time by an open device, which is opened and closed once, and the thread that plays is
  started once.
\<close>
theorem session_refinement:
  assumes "reachable K D s"
  shows "rtranclp session_step new_session (session_of s) \<and>
    (\<forall>t. app_step K D s t \<longrightarrow> session_of t = session_of s \<or> session_step (session_of s) (session_of t))"
  using reachable_session [OF assms] session_simulation [OF _ reachable_inv [OF assms] reachable_device [OF assms]] by blast

theorem session_refinement_witness:
  "\<exists>s. reachable arm_kernel sample_devices s \<and> audio s = Closing \<and> rtranclp session_step new_session (session_of s)"
proof -
  obtain s where s: "reachable arm_kernel sample_devices s" "audio s = Closing" by (rule arm_closing)
  from session_refinement [OF s(1)] s show ?thesis by blast
qed

end
