(* ===== verification/Spec2Isabelle.thy ===== *)
theory Spec2Isabelle
  imports Fw_Loader Rpmsg Config Config_Print Log_Queue Cmd_Listener Send_Buffer Metrics Audio Host_Init Audio_Run App_Run App_End Playback Host_Stream Host_Log Session
begin

text \<open>
  Verification of the RPMsg DMA offload library (\<^verbatim>\<open>src/library\<close>) and of its audio example
  (\<^verbatim>\<open>src/example/audio_offload\<close>).

  \<^bold>\<open>The program.\<close> The library switches the firmware of a remote processor, allocates and maps
  DMA buffers, and exchanges messages with the processor. The example reads its configuration,
  sets all this up, starts a host interface (a log channel, a command channel and two data
  channels, over Ethernet or a serial line) and polls \<open>start_requested\<close>; an audio thread reads a
  sound file block by block, processes each block on the ARM or on the remote processor, plays
  it, and reports measurements and samples to the host. The threads share the globals of the
  example; the log queue is the one structure under a mutex.

  \<^bold>\<open>Modelling.\<close> Every operation is a computation of \<^verbatim>\<open>State_Monad\<close> over a record of the
  globals. Records extend each other the way the files build on each other: \<open>world\<close> (history of
  calls, first undefined behaviour), \<open>conf_world\<close> (heap of strings, \<open>app_config\<close>), \<open>host_world\<close>
  (globals of \<^verbatim>\<open>host_interface.c\<close>), \<open>app_world\<close> (globals of \<^verbatim>\<open>rpmsg_audio_example.c\<close>, the two
  shared buffers), \<open>metrics_world\<close> (the static counters of \<^verbatim>\<open>metrics.c\<close>). What the system and
  the libraries answer is a parameter: \<open>kernel\<close> for system calls, threads and rpmsg-char,
  \<open>devices\<close> for libsndfile, ALSA, FFTW, the clock, rounding of floating-point values and the
  program of the remote processor. Each answer may depend on the whole history, so every failure
  is covered. Documented behaviour is a named hypothesis: \<open>read_contract\<close>, \<open>linux_uapi\<close>,
  \<open>sysfs_state_file\<close>, \<open>grants\<close>, \<open>fft_contract\<close>, \<open>float_contract\<close>, \<open>sndfile_contract\<close>,
  \<open>file_blocks\<close>. Undefined behaviour of C is a value: the first one reached is kept in \<open>fault\<close>.

  \<^bold>\<open>Theories and the code they model.\<close>
  \<^item> \<open>Prelude\<close>, \<open>CString\<close>, \<open>Kernel\<close>, \<open>Descriptors\<close>, \<open>Devices\<close>: names and generic lemmas; the C library's
    strings and decimal conversions; the boundary; descriptors and mappings a history leaves open;
    sound, clock and transform libraries.
  \<^item> \<open>Fw_Loader\<close> (\<^verbatim>\<open>fw_loader.c\<close>): order and outcome of \<open>switch_firmware\<close> on each path, descriptors.
  \<^item> \<open>Dmabuf\<close> (\<^verbatim>\<open>dmabuf.c\<close>): what \<open>dmabuf_heap_init\<close> leaves open on each path, release, the access
    brackets.
  \<^item> \<open>Rpmsg\<close> (\<^verbatim>\<open>rpmsg.c\<close>): messages and the endpoint.
  \<^item> \<open>Config\<close> (\<^verbatim>\<open>config.c\<close>): parsing, memory ownership, last-wins, round trip, clean-up. The string
    fields are one interpretation of a locale of owned pointers. \<open>Config_Print\<close> (\<open>print_config\<close>): the
    text shows every setting but one, unambiguously.
  \<^item> \<open>Host_State\<close>, \<open>Fifo\<close>, \<open>Log_Queue\<close> (\<open>enqueue_log\<close>, \<open>log_writer\<close>): the ring refines a queue under
    every interleaving in which it does not fill.
  \<^item> \<open>App_State\<close>, \<open>Line_Reader\<close>, \<open>Cmd_Listener\<close> (\<open>cmd_listener\<close>, \<open>enable_filter\<close>): bytes to lines to the
    filter command; the line buffer is an interpretation of the locale of line consumers.
  \<^item> \<open>Send_Channel\<close>, \<open>Send_Buffer\<close> (\<open>enqueue_input_buffer\<close>, \<open>flush_send_input_buffer\<close> and their output
    counterparts): packets and pending bytes are the blocks in order; both channels interpret one
    locale. The reader of the host utility (\<^verbatim>\<open>audmon.py\<close>) reads them back.
  \<^item> \<open>Metrics\<close> (\<^verbatim>\<open>metrics.c\<close>), \<open>Audio\<close> (\<open>process_on_arm\<close>, \<open>process_on_dsp\<close>, \<open>init_rpmsg_buffer\<close>, the
    amplitude), \<open>Audio_Thread\<close> (\<open>run_audio_processing_thread\<close>).
  \<^item> \<open>Host_Init\<close> (\<open>init_host_interface\<close>, the threads that wait for a client).
  \<^item> \<open>Frames\<close>, \<open>Audio_Run\<close>: what the operations of the running example leave alone, as locales of
    frame relations (each relation of the later theories is an interpretation), and from it termination, resources and brackets of whole runs of the audio thread.
  \<^item> \<open>App\<close> (\<open>main\<close>, \<open>handle_sigint\<close> and the threads, as the step relation \<open>app_step\<close>), \<open>App_Inv\<close> (what
    each step leaves alone), \<open>App_Setup\<close> (the set-up as a whole), \<open>App_Run\<close> (the invariant of the
    reachable states and what follows from it), \<open>App_End\<close> (which firmware the link names in every
    phase and at every exit; the interrupt handler after the clean-up), \<open>Playback\<close> (what the sound
    device is given over every interleaving), \<open>Host_Stream\<close> (the audio thread and the data channels
    together: what the host utility reads of the file), \<open>Host_Log\<close> (the log channel up to the
    series the host utility draws: its line splitting and its pattern read the frame lines back),
    \<open>Session\<close> (a small machine that says what a session with the program is, refined by \<open>app_step\<close>).

  \<^bold>\<open>Bounds and fuel.\<close> Integers keep their width where it matters: 64-bit addresses, the 32-bit
  fields of the message, 16-bit samples, the 32-bit frame counter. Loops over data are structural
  recursions. The loops that wait take fuel: \<open>log_loop\<close> and \<open>cmd_loop\<close> a number of turns (enough to
  drain \<open>n\<close> lines are \<open>n\<close> turns), \<open>audio_loop\<close> a number of turns (\<open>n + 1\<close> for a file of \<open>n\<close> blocks);
  that the fuel is enough is proved. In \<open>app_step\<close> there is no fuel: a run is any sequence of steps.

  \<^bold>\<open>Granularity.\<close> A step of \<open>app_step\<close> is one piece of one thread: one of the five stages of \<open>main\<close>
  before its loop, a turn of a loop, one of the four things \<open>main\<close> does after it (unmap the
  buffers, switch the firmware back, free the configuration, return), or a call back into the
  example; the threads of the host interface run from the stage on that starts them, and the
  interrupt signal may come between any two steps once its handler is installed. Within a step
  no other thread runs, so data races inside a turn (the code takes no lock around the filter
  switch or the buffers) are out of scope. \<open>main_setup\<close> is the five stages in a row, undisturbed.

  \<^bold>\<open>Not modelled.\<close> Messages on stdout and stderr other than the text of
  \<open>print_config\<close>, and \<open>DBG\<close> (output only); NaN and
  infinities; the numbers of the ioctl requests; the addresses and options of sockets beyond
  their ports, and failures of \<open>bind\<close> and \<open>listen\<close>, which the code ignores; the live
  summary, the plots and the connections of the host utility.
\<close>

end
